(* ===== verification/Zone_Prelude.thy ===== *)
theory Zone_Prelude
  imports Main "HOL-Library.Word"
begin

text \<open>
  Shared vocabulary of the development: the machine types the Rust sources use, Rust's
  checked and saturating integer operations, results as sums with the error on the left,
  byte strings and their big-endian conversions, and the generic lemmas the component
  theories rest on.

  Conventions. A Rust \<open>Result<T, E>\<close> is a value of \<open>'e + 'a\<close>; the operator \<open>?\<close> is
  \<open>rbind\<close>; an early \<open>return Err(e)\<close> or \<open>ensure!\<close> is \<open>check\<close>. A method with a
  \<open>&mut self\<close> receiver returns the new state together with its result. \<open>usize\<close> counts
  are \<open>nat\<close>, with the conversion to a fixed width written out where the code performs it.
\<close>

unbundle bit_operations_syntax

section \<open>Types\<close>

type_synonym u8 = "8 word"
type_synonym u32 = "32 word"
type_synonym u64 = "64 word"
type_synonym u128 = "128 word"
type_synonym u256 = "256 word"
type_synonym address = "160 word"
type_synonym b256 = "256 word"
type_synonym bytes = "8 word list"

named_theorems arith_defs \<open>definitions of the checked and saturating operations\<close>

section \<open>Results\<close>

definition rbind :: "'e + 'a \<Rightarrow> ('a \<Rightarrow> 'e + 'b) \<Rightarrow> 'e + 'b" where
  "rbind r f = (case r of Inl e \<Rightarrow> Inl e | Inr x \<Rightarrow> f x)"

definition check :: "bool \<Rightarrow> 'e \<Rightarrow> 'e + unit" where
  "check c e = (if c then Inr () else Inl e)"

definition ok_or :: "'a option \<Rightarrow> 'e \<Rightarrow> 'e + 'a" where
  "ok_or v e = (case v of None \<Rightarrow> Inl e | Some x \<Rightarrow> Inr x)"

definition map_err :: "('e \<Rightarrow> 'f) \<Rightarrow> 'e + 'a \<Rightarrow> 'f + 'a" where
  "map_err f r = (case r of Inl e \<Rightarrow> Inl (f e) | Inr x \<Rightarrow> Inr x)"

definition is_ok :: "'e + 'a \<Rightarrow> bool" where
  "is_ok r = (case r of Inl _ \<Rightarrow> False | Inr _ \<Rightarrow> True)"

fun try_fold :: "('a \<Rightarrow> 's \<Rightarrow> 'e + 's) \<Rightarrow> 'a list \<Rightarrow> 's \<Rightarrow> 'e + 's" where
  "try_fold f [] s = Inr s"
| "try_fold f (x # xs) s = rbind (f x s) (try_fold f xs)"

fun try_map :: "('a \<Rightarrow> 'e + 'b) \<Rightarrow> 'a list \<Rightarrow> 'e + 'b list" where
  "try_map f [] = Inr []"
| "try_map f (x # xs) = rbind (f x) (\<lambda>y. rbind (try_map f xs) (\<lambda>ys. Inr (y # ys)))"

section \<open>Integer operations of the Rust standard library\<close>

definition checked_add :: "'a::len word \<Rightarrow> 'a word \<Rightarrow> 'a word option" where
  [arith_defs]: "checked_add a b =
     (if unat a + unat b < 2 ^ LENGTH('a) then Some (a + b) else None)"

definition checked_sub :: "'a::len word \<Rightarrow> 'a word \<Rightarrow> 'a word option" where
  [arith_defs]: "checked_sub a b = (if b \<le> a then Some (a - b) else None)"

definition checked_mul :: "'a::len word \<Rightarrow> 'a word \<Rightarrow> 'a word option" where
  [arith_defs]: "checked_mul a b =
     (if unat a * unat b < 2 ^ LENGTH('a) then Some (a * b) else None)"

definition saturating_add :: "'a::len word \<Rightarrow> 'a word \<Rightarrow> 'a word" where
  [arith_defs]: "saturating_add a b =
     (if unat a + unat b < 2 ^ LENGTH('a) then a + b else - 1)"

definition saturating_sub :: "'a::len word \<Rightarrow> 'a word \<Rightarrow> 'a word" where
  [arith_defs]: "saturating_sub a b = (if b \<le> a then a - b else 0)"

definition saturating_mul :: "'a::len word \<Rightarrow> 'a word \<Rightarrow> 'a word" where
  [arith_defs]: "saturating_mul a b =
     (if unat a * unat b < 2 ^ LENGTH('a) then a * b else - 1)"

definition u64_of_usize :: "nat \<Rightarrow> u64 option" where
  "u64_of_usize n = (if n < 2 ^ 64 then Some (of_nat n) else None)"

text \<open>The range \<open>a..b\<close> of a Rust \<open>for\<close> loop.\<close>

definition u64_range :: "u64 \<Rightarrow> u64 \<Rightarrow> u64 list" where
  "u64_range a b = map of_nat [unat a..<unat b]"

section \<open>Bytes\<close>

definition to_be_bytes :: "nat \<Rightarrow> 'a::len word \<Rightarrow> bytes" where
  "to_be_bytes n w = map (\<lambda>i. ucast (drop_bit (8 * i) w)) (rev [0..<n])"

definition from_be_bytes :: "bytes \<Rightarrow> 'a::len word" where
  "from_be_bytes bs = foldl (\<lambda>acc b. push_bit 8 acc OR ucast b) 0 bs"

section \<open>Lemmas on results\<close>

lemma rbind_simps [simp]:
  "rbind (Inl e) f = Inl e"
  "rbind (Inr x) f = f x"
  by (simp_all add: rbind_def)

lemma rbind_Inr_iff [simp]: "rbind r f = Inr y \<longleftrightarrow> (\<exists>x. r = Inr x \<and> f x = Inr y)"
  by (auto simp: rbind_def split: sum.splits)

lemma rbind_Inl_iff: "rbind r f = Inl e \<longleftrightarrow> r = Inl e \<or> (\<exists>x. r = Inr x \<and> f x = Inl e)"
  by (auto simp: rbind_def split: sum.splits)

lemma check_simps [simp]:
  "check True e = Inr ()"
  "check False e = Inl e"
  by (simp_all add: check_def)

lemma check_Inr_iff [simp]: "check c e = Inr u \<longleftrightarrow> c"
  by (simp add: check_def)

lemma check_Inl_iff [simp]: "check c e = Inl e' \<longleftrightarrow> \<not> c \<and> e' = e"
  by (auto simp: check_def)

lemma ok_or_simps [simp]:
  "ok_or None e = Inl e"
  "ok_or (Some x) e = Inr x"
  by (simp_all add: ok_or_def)

lemma ok_or_Inr_iff [simp]: "ok_or v e = Inr x \<longleftrightarrow> v = Some x"
  by (auto simp: ok_or_def split: option.splits)

lemma map_err_simps [simp]:
  "map_err f (Inl e) = Inl (f e)"
  "map_err f (Inr x) = Inr x"
  by (simp_all add: map_err_def)

lemma map_err_Inr_iff [simp]: "map_err f r = Inr x \<longleftrightarrow> r = Inr x"
  by (auto simp: map_err_def split: sum.splits)

lemma is_ok_simps [simp]: "is_ok (Inr x)" "\<not> is_ok (Inl e)"
  by (simp_all add: is_ok_def)

lemma is_ok_iff: "is_ok r \<longleftrightarrow> (\<exists>x. r = Inr x)"
  by (auto simp: is_ok_def split: sum.splits)

lemma try_fold_append:
  "try_fold f (xs @ ys) s = rbind (try_fold f xs s) (try_fold f ys)"
  by (induction xs arbitrary: s) (auto simp: rbind_def split: sum.splits)

text \<open>An invariant every successful step keeps is kept by the whole fold.\<close>

lemma try_fold_invariant:
  assumes "try_fold f xs s = Inr s'" and "I s"
    and "\<And>x s s'. x \<in> set xs \<Longrightarrow> I s \<Longrightarrow> f x s = Inr s' \<Longrightarrow> I s'"
  shows "I s'"
  using assms
proof (induction xs arbitrary: s)
  case Nil
  then show ?case by simp
next
  case (Cons x xs)
  from Cons.prems(1) obtain t where "f x s = Inr t" and rest: "try_fold f xs t = Inr s'"
    by auto
  with Cons.prems(2,3) have "I t" by auto
  with rest Cons.prems(3) show ?case by (auto intro: Cons.IH)
qed

lemma try_fold_unit_iff:
  "try_fold (\<lambda>x _. f x) xs () = Inr () \<longleftrightarrow> (\<forall>x \<in> set xs. f x = Inr ())"
  by (induction xs) auto

lemma try_map_length: "try_map f xs = Inr ys \<Longrightarrow> length ys = length xs"
  by (induction xs arbitrary: ys) auto

lemma try_map_nth:
  "try_map f xs = Inr ys \<Longrightarrow> i < length xs \<Longrightarrow> f (xs ! i) = Inr (ys ! i)"
  by (induction xs arbitrary: ys i) (auto simp: nth_Cons split: nat.splits)

section \<open>Lemmas on integers\<close>

lemma checked_add_Some:
  fixes a b c :: "'a::len word"
  assumes "checked_add a b = Some c"
  shows "c = a + b" and "unat c = unat a + unat b"
  using assms by (auto simp: checked_add_def unat_word_ariths split: if_splits)

lemma unat_checked_add:
  fixes a b :: "'a::len word"
  shows "checked_add a b \<noteq> None \<Longrightarrow> unat (a + b) = unat a + unat b"
  using checked_add_Some [of a b] by auto

lemma checked_sub_Some:
  fixes a b c :: "'a::len word"
  assumes "checked_sub a b = Some c"
  shows "c = a - b" and "unat c = unat a - unat b" and "unat b \<le> unat a"
  using assms by (auto simp: checked_sub_def unat_sub word_le_nat_alt split: if_splits)

lemma checked_mul_Some:
  fixes a b c :: "'a::len word"
  assumes "checked_mul a b = Some c"
  shows "c = a * b" and "unat c = unat a * unat b"
  using assms by (auto simp: checked_mul_def unat_word_ariths split: if_splits)

lemma checked_add_None_iff:
  fixes a b :: "'a::len word"
  shows "checked_add a b = None \<longleftrightarrow> 2 ^ LENGTH('a) \<le> unat a + unat b"
  by (auto simp: checked_add_def)

lemma checked_sub_None_iff:
  fixes a b :: "'a::len word"
  shows "checked_sub a b = None \<longleftrightarrow> unat a < unat b"
  by (auto simp: checked_sub_def word_le_nat_alt)

lemma checked_add_sub_inverse:
  fixes a b c :: "'a::len word"
  assumes "checked_add a b = Some c"
  shows "checked_sub c b = Some a"
  using checked_add_Some[OF assms] by (auto simp: checked_sub_def word_le_nat_alt)

lemma unat_saturating_sub:
  fixes a b :: "'a::len word"
  shows "unat (saturating_sub a b) = unat a - unat b"
  by (auto simp: saturating_sub_def unat_sub word_le_nat_alt)

lemma unat_max_word: "unat (- 1 :: 'a::len word) = 2 ^ LENGTH('a) - 1"
  by (simp add: unsigned_minus_1_eq_mask mask_eq_exp_minus_1)

lemma unat_saturating_add:
  fixes a b :: "'a::len word"
  shows "unat (saturating_add a b) = min (unat a + unat b) (2 ^ LENGTH('a) - 1)"
  by (auto simp: saturating_add_def unat_word_ariths unat_max_word)

lemma unat_saturating_mul:
  fixes a b :: "'a::len word"
  shows "unat (saturating_mul a b) = min (unat a * unat b) (2 ^ LENGTH('a) - 1)"
  by (auto simp: saturating_mul_def unat_word_ariths unat_max_word)

lemma unat_ucast_up:
  "LENGTH('a::len) \<le> LENGTH('b::len) \<Longrightarrow> unat (ucast (w :: 'a word) :: 'b word) = unat w"
  by (simp add: unsigned_ucast_eq take_bit_nat_eq_self_iff)
    (meson less_le_trans power_increasing one_le_numeral unsigned_less)

lemma u64_of_usize_Some: "u64_of_usize n = Some w \<Longrightarrow> unat w = n"
  by (auto simp: u64_of_usize_def unat_of_nat split: if_splits)

lemma unat_of_nat_below: "i < unat (b :: 'a::len word) \<Longrightarrow> unat (of_nat i :: 'a word) = i"
  unfolding unat_of_nat by (rule mod_less) (erule less_trans, rule unsigned_less)

lemma set_u64_range [simp]: "set (u64_range a b) = {n. a \<le> n \<and> n < b}"
proof (intro set_eqI iffI)
  fix n assume "n \<in> set (u64_range a b)"
  then show "n \<in> {n. a \<le> n \<and> n < b}"
    by (auto simp: u64_range_def word_le_nat_alt word_less_nat_alt unat_of_nat_below)
next
  fix n assume "n \<in> {n. a \<le> n \<and> n < b}"
  then show "n \<in> set (u64_range a b)"
    by (auto simp: u64_range_def word_le_nat_alt word_less_nat_alt
        intro!: image_eqI [of n of_nat "unat n"])
qed

lemma distinct_u64_range [simp]: "distinct (u64_range a b)"
  unfolding u64_range_def distinct_map
  by (auto intro!: inj_onI) (metis unat_of_nat_below)

section \<open>Lemmas on bytes\<close>

lemma length_to_be_bytes [simp]: "length (to_be_bytes n w) = n"
  by (simp add: to_be_bytes_def)

lemma drop_to_be_bytes: "drop m (to_be_bytes (m + k) w) = to_be_bytes k w"
  by (simp add: to_be_bytes_def drop_map drop_rev flip: upt_add_eq_append)

lemma foldl_be_bytes:
  fixes w :: "'a::len word" and acc :: "'b::len word"
  shows "foldl (\<lambda>acc b. push_bit 8 acc OR ucast b) acc (to_be_bytes n w) =
    push_bit (8 * n) acc OR ucast (take_bit (8 * n) w)"
proof (induction n arbitrary: acc)
  case 0
  then show ?case by (simp add: to_be_bytes_def)
next
  case (Suc n)
  have "to_be_bytes (Suc n) w = ucast (drop_bit (8 * n) w) # to_be_bytes n w"
    by (simp add: to_be_bytes_def)
  then have "foldl (\<lambda>acc b. push_bit 8 acc OR ucast b) acc (to_be_bytes (Suc n) w) =
      push_bit (8 * n) (push_bit 8 acc OR ucast (ucast (drop_bit (8 * n) w) :: 8 word))
        OR ucast (take_bit (8 * n) w)"
    by (simp add: Suc.IH)
  also have "\<dots> = push_bit (8 * Suc n) acc OR ucast (take_bit (8 * Suc n) w)"
    by (rule bit_word_eqI) (auto simp: bit_simps add.commute [of 8])
  finally show ?case .
qed

lemma from_be_bytes_to_be_bytes:
  "from_be_bytes (to_be_bytes n (w :: 'a::len word)) = (ucast (take_bit (8 * n) w) :: 'b::len word)"
  by (simp add: from_be_bytes_def foldl_be_bytes)

lemma u64_be_round_trip [simp]: "from_be_bytes (to_be_bytes 8 (n :: u64)) = n"
  by (simp add: from_be_bytes_to_be_bytes take_bit_word_eq_self)

lemma address_be_round_trip [simp]: "from_be_bytes (to_be_bytes 20 (a :: address)) = a"
  by (simp add: from_be_bytes_to_be_bytes take_bit_word_eq_self)

lemma b256_be_round_trip [simp]: "from_be_bytes (to_be_bytes 32 (h :: b256)) = h"
  by (simp add: from_be_bytes_to_be_bytes take_bit_word_eq_self)

text \<open>
  The low eight bytes of a twenty-byte address that was left-padded from a 64-bit number
  give the number back.
\<close>

lemma left_padded_round_trip [simp]:
  "from_be_bytes (drop 12 (to_be_bytes 20 (ucast (n :: u64) :: address))) = n"
proof -
  have "drop 12 (to_be_bytes 20 (ucast n :: address)) = to_be_bytes 8 (ucast n :: address)"
    using drop_to_be_bytes [of 12 8 "ucast n :: address"] by simp
  then show ?thesis
    by (simp add: from_be_bytes_to_be_bytes) (rule bit_word_eqI, auto simp: bit_simps)
qed

end
