(* ===== verification/Chain_Ids.thy ===== *)
theory Chain_Ids
  imports Zone_Prelude
begin

text \<open>
  Zone chain ids (\<open>crates/primitives/src/constants.rs\<close>): the derivation of a zone's EIP-155
  chain id from its parent chain and factory id, its inverse, and the range constants. The ids
  of the two production parents are constants of another crate, so they are the parameters
  \<open>mainnet\<close> and \<open>moderato\<close>; no theorem below needs an assumption on them.
\<close>

section \<open>Constants\<close>

definition ZONE_CHAIN_ID_BASE :: u64 where
  "ZONE_CHAIN_ID_BASE = 421700000"

definition ZONE_CHAIN_ID_RANGE :: u64 where
  "ZONE_CHAIN_ID_RANGE = 1002610000"

definition ZONE_CHAIN_ID_BASE_TESTNET :: u64 where
  "ZONE_CHAIN_ID_BASE_TESTNET = 1424310000"

definition ZONE_CHAIN_ID_RANGE_TESTNET :: u64 where
  "ZONE_CHAIN_ID_RANGE_TESTNET = 723173648"

definition MAX_GENERIC_PARENT_CHAIN_ID :: u64 where
  "MAX_GENERIC_PARENT_CHAIN_ID = push_bit 20 1 - 2"

section \<open>Derivation and decoding\<close>

datatype ZoneChainIdError =
    ZoneIdOutOfRange u64 u32
  | InvalidParentChainId u64
  | InvalidZoneChainId u64

definition validate_chain_id :: "u64 \<Rightarrow> u64 \<Rightarrow> u64 \<Rightarrow> u32 \<Rightarrow> ZoneChainIdError + unit" where
  "validate_chain_id mainnet moderato parent_chain_id zone_id =
     (if parent_chain_id = 0 \<or> parent_chain_id > MAX_GENERIC_PARENT_CHAIN_ID
      then Inl (InvalidParentChainId parent_chain_id)
      else if (parent_chain_id = mainnet \<and> ucast zone_id \<ge> ZONE_CHAIN_ID_RANGE)
            \<or> (parent_chain_id = moderato \<and> ucast zone_id \<ge> ZONE_CHAIN_ID_RANGE_TESTNET)
      then Inl (ZoneIdOutOfRange parent_chain_id zone_id)
      else Inr ())"

definition zone_chain_id :: "u64 \<Rightarrow> u64 \<Rightarrow> u64 \<Rightarrow> u32 \<Rightarrow> ZoneChainIdError + u64" where
  "zone_chain_id mainnet moderato parent_chain_id zone_id =
     rbind (validate_chain_id mainnet moderato parent_chain_id zone_id) (\<lambda>_.
       Inr (if parent_chain_id = mainnet then ZONE_CHAIN_ID_BASE + ucast zone_id
            else if parent_chain_id = moderato then ZONE_CHAIN_ID_BASE_TESTNET + ucast zone_id
            else push_bit 32 parent_chain_id OR ucast zone_id))"

definition decode_zone_chain_id :: "u64 \<Rightarrow> u64 \<Rightarrow> u64 \<Rightarrow> ZoneChainIdError + (u64 \<times> u32)" where
  "decode_zone_chain_id mainnet moderato chain_id =
     rbind
       (if ZONE_CHAIN_ID_BASE \<le> chain_id \<and> chain_id < ZONE_CHAIN_ID_BASE + ZONE_CHAIN_ID_RANGE
        then Inr (mainnet, ucast (chain_id - ZONE_CHAIN_ID_BASE))
        else if ZONE_CHAIN_ID_BASE_TESTNET \<le> chain_id
              \<and> chain_id < ZONE_CHAIN_ID_BASE_TESTNET + ZONE_CHAIN_ID_RANGE_TESTNET
        then Inr (moderato, ucast (chain_id - ZONE_CHAIN_ID_BASE_TESTNET))
        else if chain_id \<ge> push_bit 32 1
        then Inr (drop_bit 32 chain_id, ucast chain_id)
        else Inl (InvalidZoneChainId chain_id))
       (\<lambda>(parent_chain_id, zone_id).
         if zone_chain_id mainnet moderato parent_chain_id zone_id = Inr chain_id
         then Inr (parent_chain_id, zone_id)
         else Inl (InvalidZoneChainId chain_id))"

definition decode_l1_chain_id :: "u64 \<Rightarrow> u64 \<Rightarrow> u64 \<Rightarrow> ZoneChainIdError + u64" where
  "decode_l1_chain_id mainnet moderato chain_id =
     rbind (decode_zone_chain_id mainnet moderato chain_id) (\<lambda>(parent_chain_id, _).
       Inr parent_chain_id)"

lemmas chain_id_constants =
  ZONE_CHAIN_ID_BASE_def ZONE_CHAIN_ID_RANGE_def ZONE_CHAIN_ID_BASE_TESTNET_def
  ZONE_CHAIN_ID_RANGE_TESTNET_def MAX_GENERIC_PARENT_CHAIN_ID_def

section \<open>The three ranges\<close>

lemma unat_ucast_u32 [simp]: "unat (ucast (z :: u32) :: u64) = unat z"
  by (simp add: unat_ucast_up)

lemma unat_lt_u32: "unat (z :: u32) < 4294967296"
  using unsigned_less [of z, where 'a = nat] by simp

lemma unat_high_or_low:
  fixes p :: u64 and z :: u32
  assumes "unat p < 2 ^ 32"
  shows "unat (push_bit 32 p OR ucast z) = unat p * 2 ^ 32 + unat z"
proof -
  have "push_bit 32 p OR ucast z = push_bit 32 p + ucast z"
    by (rule disjunctive_add [symmetric]) (auto simp: bit_simps dest: bit_imp_le_length)
  moreover have "unat (push_bit 32 p) = unat p * 2 ^ 32"
    using assms by (simp add: push_bit_eq_mult unat_word_ariths)
  ultimately show ?thesis
    using assms unat_lt_u32 [of z] by (simp add: unat_word_ariths)
qed

lemma zone_chain_id_Inr:
  assumes "zone_chain_id m t p z = Inr c"
  shows "0 < unat p \<and> unat p \<le> 1048574 \<and>
    (p = m \<and> unat z < 1002610000 \<and> unat c = 421700000 + unat z \<or>
     p \<noteq> m \<and> p = t \<and> unat z < 723173648 \<and> unat c = 1424310000 + unat z \<or>
     p \<noteq> m \<and> p \<noteq> t \<and> unat c = unat p * 4294967296 + unat z)"
proof -
  have p: "0 < unat p" "unat p \<le> 1048574"
    using assms
    by (auto simp: zone_chain_id_def validate_chain_id_def chain_id_constants word_less_nat_alt
        word_le_nat_alt unat_gt_0 push_bit_eq_mult split: if_splits)
  then show ?thesis
    using assms unat_high_or_low [of p z] unat_lt_u32 [of z]
    by (auto simp: zone_chain_id_def validate_chain_id_def chain_id_constants word_less_nat_alt
        word_le_nat_alt unat_word_ariths split: if_splits)
qed

section \<open>Properties\<close>

lemma decode_of_zone_chain_id:
  assumes "zone_chain_id m t p z = Inr c"
  shows "decode_zone_chain_id m t c = Inr (p, z)"
proof -
  note r = zone_chain_id_Inr [OF assms]
  have z: "ucast c = z \<and> drop_bit 32 c = p" if "unat c = unat p * 4294967296 + unat z"
    using that unat_lt_u32 [of z]
    by (auto intro!: word_unat_eq_iff [THEN iffD2]
        simp: unsigned_ucast_eq take_bit_eq_mod drop_bit_eq_div unat_div)
  have m: "ucast (c - ZONE_CHAIN_ID_BASE) = z" if "unat c = 421700000 + unat z"
    using that unat_lt_u32 [of z]
    by (auto intro!: word_unat_eq_iff [THEN iffD2]
        simp: unsigned_ucast_eq take_bit_eq_mod unat_sub word_le_nat_alt chain_id_constants)
  have t: "ucast (c - ZONE_CHAIN_ID_BASE_TESTNET) = z" if "unat c = 1424310000 + unat z"
    using that unat_lt_u32 [of z]
    by (auto intro!: word_unat_eq_iff [THEN iffD2]
        simp: unsigned_ucast_eq take_bit_eq_mod unat_sub word_le_nat_alt chain_id_constants)
  show ?thesis
    using r z m t assms unat_lt_u32 [of z]
    by (auto simp: decode_zone_chain_id_def word_le_nat_alt word_less_nat_alt chain_id_constants)
qed

text \<open>
  C26. Decoding is the exact inverse of derivation: a chain id decodes to a parent and a zone id
  if and only if deriving from them gives that chain id. In particular the derivation is
  injective on the inputs it accepts, and no chain id outside its image decodes.
\<close>

theorem decode_zone_chain_id_inverse:
  "decode_zone_chain_id m t c = Inr (p, z) \<longleftrightarrow> zone_chain_id m t p z = Inr c"
proof
  assume "decode_zone_chain_id m t c = Inr (p, z)"
  then show "zone_chain_id m t p z = Inr c"
    by (auto simp: decode_zone_chain_id_def split: if_splits prod.splits)
next
  assume "zone_chain_id m t p z = Inr c"
  then show "decode_zone_chain_id m t c = Inr (p, z)"
    by (rule decode_of_zone_chain_id)
qed

text \<open>
  Every accepted derivation is tooling-safe: for the production parents the chain id is below
  \<open>2 ^ 31\<close>, and for every accepted parent the EIP-155 value \<open>2 * id + 36\<close> is below JavaScript's
  largest safe integer \<open>2 ^ 53 - 1\<close>.
\<close>

lemma zone_chain_id_tooling_safe:
  assumes "zone_chain_id m t p z = Inr c"
  shows "(p = m \<or> p = t \<longrightarrow> unat c < 2 ^ 31) \<and> 2 * unat c + 36 < 2 ^ 53 - 1"
  using zone_chain_id_Inr [OF assms] unat_lt_u32 [of z] by auto

lemma zone_chain_id_tooling_safe_witness:
  "zone_chain_id 4217 42431 42431 7 = Inr 1424310007 \<and> unat (1424310007 :: u64) < 2 ^ 31"
proof -
  have c: "zone_chain_id 4217 42431 42431 7 = Inr 1424310007" by code_simp
  show ?thesis using zone_chain_id_tooling_safe [OF c] c by simp
qed

end
