(* ===== verification/Hash_Chain.thy ===== *)
theory Hash_Chain
  imports Zone_Prelude
begin

text \<open>
  Hash chains. The protocol commits to sequences by hashing one element together with the hash
  of the rest: the withdrawal queue has the oldest element outermost, the deposit queue and the
  token-enablement commitment have the newest element outermost. The two locales state the
  contract of each direction over the function that links one element to a hash; the second is
  an instance of the first on the reversed sequence. The client lemmas say what equality of two
  chain hashes gives, when none of the links actually evaluated collide.
\<close>

section \<open>Links evaluated by a chain\<close>

text \<open>The \<open>(element, tail hash)\<close> pairs hashed while computing a chain, outermost first.\<close>

fun chain_links :: "('x \<Rightarrow> b256 \<Rightarrow> b256) \<Rightarrow> 'x list \<Rightarrow> b256 \<Rightarrow> ('x \<times> b256) list" where
  "chain_links link [] t = []"
| "chain_links link (x # xs) t = (x, foldr link xs t) # chain_links link xs t"

text \<open>No two different pairs of the two lists have the same hash.\<close>

definition links_distinct :: "('x \<Rightarrow> b256 \<Rightarrow> b256) \<Rightarrow> ('x \<times> b256) list \<Rightarrow> ('x \<times> b256) list \<Rightarrow> bool" where
  "links_distinct link ps qs =
     list_all (\<lambda>p. list_all (\<lambda>q. link (fst p) (snd p) = link (fst q) (snd q) \<longrightarrow> p = q) qs) ps"

text \<open>No pair of the list hashes to the given root value.\<close>

definition links_avoid :: "('x \<Rightarrow> b256 \<Rightarrow> b256) \<Rightarrow> b256 \<Rightarrow> ('x \<times> b256) list \<Rightarrow> bool" where
  "links_avoid link r ps = list_all (\<lambda>p. link (fst p) (snd p) \<noteq> r) ps"

section \<open>Oldest element outermost\<close>

locale hash_chain =
  fixes link :: "'x \<Rightarrow> b256 \<Rightarrow> b256"
    and chain :: "'x list \<Rightarrow> b256 \<Rightarrow> b256"
  assumes chain_Nil: "chain [] t = t"
    and chain_Cons: "chain (x # xs) t = link x (chain xs t)"
begin

lemma chain_foldr: "chain xs t = foldr link xs t"
  by (induction xs) (simp_all add: chain_Nil chain_Cons)

lemma chain_append: "chain (xs @ ys) t = chain xs (chain ys t)"
  by (simp add: chain_foldr)

lemma chain_same_length:
  assumes "chain xs t = chain ys t'" and "length xs = length ys"
    and "links_distinct link (chain_links link xs t) (chain_links link ys t')"
  shows "xs = ys \<and> t = t'"
  using assms
proof (induction xs arbitrary: ys)
  case Nil
  then show ?case by (simp add: chain_Nil)
next
  case (Cons x xs)
  then obtain y zs where ys: "ys = y # zs" by (cases ys) auto
  have eq: "link x (foldr link xs t) = link y (foldr link zs t')"
    using Cons.prems(1) by (simp add: ys chain_Cons chain_foldr)
  with Cons.prems(3) have "x = y" "foldr link xs t = foldr link zs t'"
    by (auto simp: ys links_distinct_def)
  moreover have "links_distinct link (chain_links link xs t) (chain_links link zs t')"
    using Cons.prems(3) by (auto simp: ys links_distinct_def list_all_iff)
  ultimately show ?case
    using Cons.IH [of zs] Cons.prems(2) by (simp add: ys chain_foldr)
qed

lemma chain_length:
  assumes "chain xs t = chain ys t"
    and "links_distinct link (chain_links link xs t) (chain_links link ys t)"
    and "links_avoid link t (chain_links link xs t)"
    and "links_avoid link t (chain_links link ys t)"
  shows "length xs = length ys"
  using assms
proof (induction xs arbitrary: ys)
  case Nil
  then show ?case
    by (cases ys) (auto simp: chain_Nil chain_Cons chain_foldr links_avoid_def)
next
  case (Cons x xs)
  show ?case
  proof (cases ys)
    case Nil
    with Cons.prems(1,3) show ?thesis
      by (auto simp: chain_Nil chain_Cons chain_foldr links_avoid_def)
  next
    case (Cons y zs)
    have "foldr link xs t = foldr link zs t"
      using Cons.prems(1,2) by (auto simp: Cons chain_Cons chain_foldr links_distinct_def)
    moreover have "links_distinct link (chain_links link xs t) (chain_links link zs t)"
      using Cons.prems(2) by (auto simp: Cons links_distinct_def list_all_iff)
    ultimately show ?thesis
      using Cons.IH [of zs] Cons.prems(3,4) by (simp add: Cons chain_foldr links_avoid_def)
  qed
qed

lemma chain_binding:
  assumes "chain xs t = chain ys t"
    and "links_distinct link (chain_links link xs t) (chain_links link ys t)"
    and "links_avoid link t (chain_links link xs t)"
    and "links_avoid link t (chain_links link ys t)"
  shows "xs = ys"
  using chain_same_length [OF assms(1) chain_length [OF assms] assms(2)] by simp

end

section \<open>Newest element outermost\<close>

locale append_chain =
  fixes link :: "'x \<Rightarrow> b256 \<Rightarrow> b256"
    and chain :: "'x list \<Rightarrow> b256 \<Rightarrow> b256"
  assumes append_Nil: "chain [] h = h"
    and append_snoc: "chain (xs @ [x]) h = link x (chain xs h)"

sublocale append_chain \<subseteq> reversed: hash_chain link "\<lambda>xs. chain (rev xs)"
  by unfold_locales (simp_all add: append_Nil append_snoc)

context append_chain
begin

lemma append_step: "chain (xs @ ys) h = chain ys (chain xs h)"
  using reversed.chain_append [of "rev ys" "rev xs" h] by simp

lemma append_binding:
  assumes "chain xs h = chain ys h"
    and "links_distinct link (chain_links link (rev xs) h) (chain_links link (rev ys) h)"
    and "links_avoid link h (chain_links link (rev xs) h)"
    and "links_avoid link h (chain_links link (rev ys) h)"
  shows "xs = ys"
  using reversed.chain_binding [of "rev xs" h "rev ys"] assms by simp

end

end
