(* ===== verification/BTree_Map.thy ===== *)
theory BTree_Map
  imports Zone_Prelude
begin

text \<open>
  Rust's \<open>BTreeMap<K, V>\<close> as an association list with strictly increasing keys, so that both
  lookups and ordered iteration are executable. The interface the components use is the locale
  \<open>ordered_map\<close>: lookups after an insertion, a removal and a restriction of the keys, and
  that every operation keeps the keys increasing. It is interpreted once, on the operations
  below; the components use the interpretation's facts.
\<close>

section \<open>Operations\<close>

type_synonym ('k, 'v) btree = "('k \<times> 'v) list"

fun bt_get :: "('k::linorder, 'v) btree \<Rightarrow> 'k \<Rightarrow> 'v option" where
  "bt_get [] k = None"
| "bt_get ((a, b) # m) k = (if k = a then Some b else bt_get m k)"

fun bt_insert :: "'k::linorder \<Rightarrow> 'v \<Rightarrow> ('k, 'v) btree \<Rightarrow> ('k, 'v) btree" where
  "bt_insert k v [] = [(k, v)]"
| "bt_insert k v ((a, b) # m) =
     (if k < a then (k, v) # (a, b) # m
      else if k = a then (k, v) # m
      else (a, b) # bt_insert k v m)"

fun bt_remove :: "'k::linorder \<Rightarrow> ('k, 'v) btree \<Rightarrow> ('k, 'v) btree" where
  "bt_remove k [] = []"
| "bt_remove k ((a, b) # m) = (if k = a then m else (a, b) # bt_remove k m)"

definition bt_retain :: "('k::linorder \<Rightarrow> bool) \<Rightarrow> ('k, 'v) btree \<Rightarrow> ('k, 'v) btree" where
  "bt_retain p m = filter (\<lambda>e. p (fst e)) m"

definition bt_contains :: "('k::linorder, 'v) btree \<Rightarrow> 'k \<Rightarrow> bool" where
  "bt_contains m k = (bt_get m k \<noteq> None)"

definition bt_keys :: "('k::linorder, 'v) btree \<Rightarrow> 'k list" where
  "bt_keys m = map fst m"

definition bt_last :: "('k::linorder, 'v) btree \<Rightarrow> ('k \<times> 'v) option" where
  "bt_last m = (if m = [] then None else Some (last m))"

definition bt_first :: "('k::linorder, 'v) btree \<Rightarrow> ('k \<times> 'v) option" where
  "bt_first m = (case m of [] \<Rightarrow> None | e # _ \<Rightarrow> Some e)"

text \<open>\<open>range(..=k).next_back()\<close>: the entry with the greatest key not above \<open>k\<close>.\<close>

definition bt_last_le :: "('k::linorder, 'v) btree \<Rightarrow> 'k \<Rightarrow> ('k \<times> 'v) option" where
  "bt_last_le m k = bt_last (bt_retain (\<lambda>a. a \<le> k) m)"

definition bt_invar :: "('k::linorder, 'v) btree \<Rightarrow> bool" where
  "bt_invar m = sorted_wrt (<) (map fst m)"

fun bt_extend :: "('k::linorder \<times> 'v) list \<Rightarrow> ('k, 'v) btree \<Rightarrow> ('k, 'v) btree" where
  "bt_extend [] m = m"
| "bt_extend ((k, v) # es) m = bt_extend es (bt_insert k v m)"

section \<open>The interface\<close>

locale ordered_map =
  fixes get :: "'m \<Rightarrow> 'k::linorder \<Rightarrow> 'v option"
    and insert :: "'k \<Rightarrow> 'v \<Rightarrow> 'm \<Rightarrow> 'm"
    and remove :: "'k \<Rightarrow> 'm \<Rightarrow> 'm"
    and retain :: "('k \<Rightarrow> bool) \<Rightarrow> 'm \<Rightarrow> 'm"
    and empty :: 'm
    and invar :: "'m \<Rightarrow> bool"
  assumes get_empty: "get empty k = None"
    and get_insert: "get (insert k v m) k' = (if k' = k then Some v else get m k')"
    and get_remove: "invar m \<Longrightarrow> get (remove k m) k' = (if k' = k then None else get m k')"
    and get_retain: "get (retain p m) k = (if p k then get m k else None)"
    and invar_empty: "invar empty"
    and invar_insert: "invar m \<Longrightarrow> invar (insert k v m)"
    and invar_remove: "invar m \<Longrightarrow> invar (remove k m)"
    and invar_retain: "invar m \<Longrightarrow> invar (retain p m)"
    and extensional: "invar m \<Longrightarrow> invar m' \<Longrightarrow> (\<And>k. get m k = get m' k) \<Longrightarrow> m = m'"
begin

lemma insert_get_id: "invar m \<Longrightarrow> get m k = Some v \<Longrightarrow> insert k v m = m"
  by (rule extensional) (auto simp: invar_insert get_insert)

lemma remove_get_id: "invar m \<Longrightarrow> get m k = None \<Longrightarrow> remove k m = m"
  by (rule extensional) (auto simp: invar_remove get_remove)

lemma remove_insert: "invar m \<Longrightarrow> get m k = None \<Longrightarrow> remove k (insert k v m) = m"
  by (rule extensional) (auto simp: invar_insert invar_remove get_insert get_remove)

lemma insert_insert: "invar m \<Longrightarrow> insert k v (insert k w m) = insert k v m"
  by (rule extensional) (auto simp: invar_insert get_insert)

lemma insert_commute:
  "invar m \<Longrightarrow> k \<noteq> k' \<Longrightarrow> insert k v (insert k' w m) = insert k' w (insert k v m)"
  by (rule extensional) (auto simp: invar_insert get_insert)

lemma retain_insert_outside:
  "invar m \<Longrightarrow> \<not> p k \<Longrightarrow> retain p (insert k v m) = retain p m"
  by (rule extensional) (auto simp: invar_insert invar_retain get_insert get_retain)

end

section \<open>The implementation meets it\<close>

lemma bt_get_None_iff: "bt_get m k = None \<longleftrightarrow> k \<notin> set (map fst m)"
  by (induction m k rule: bt_get.induct) auto

lemma bt_get_Some_mem: "bt_get m k = Some v \<Longrightarrow> (k, v) \<in> set m"
  by (induction m k rule: bt_get.induct) (auto split: if_splits)

lemma bt_invar_Cons:
  "bt_invar ((a, b) # m) \<longleftrightarrow> (\<forall>k \<in> set (map fst m). a < k) \<and> bt_invar m"
  by (auto simp: bt_invar_def)

lemma bt_get_mem_iff: "bt_invar m \<Longrightarrow> bt_get m k = Some v \<longleftrightarrow> (k, v) \<in> set m"
  by (induction m k rule: bt_get.induct) (force simp: bt_invar_Cons)+

lemma set_bt_insert_keys: "set (map fst (bt_insert k v m)) = insert k (set (map fst m))"
  by (induction k v m rule: bt_insert.induct) auto

lemma set_bt_remove_keys: "set (map fst (bt_remove k m)) \<subseteq> set (map fst m)"
  by (induction k m rule: bt_remove.induct) auto

lemma bt_get_insert: "bt_get (bt_insert k v m) k' = (if k' = k then Some v else bt_get m k')"
  by (induction k v m rule: bt_insert.induct) auto

lemma bt_get_remove:
  "bt_invar m \<Longrightarrow> bt_get (bt_remove k m) k' = (if k' = k then None else bt_get m k')"
  by (induction k m rule: bt_remove.induct) (force simp: bt_invar_Cons bt_get_None_iff)+

lemma bt_get_retain: "bt_get (bt_retain p m) k = (if p k then bt_get m k else None)"
  by (induction m k rule: bt_get.induct) (auto simp: bt_retain_def bt_get_None_iff)

lemma bt_invar_insert: "bt_invar m \<Longrightarrow> bt_invar (bt_insert k v m)"
proof (induction k v m rule: bt_insert.induct)
  case (1 k v)
  then show ?case by (simp add: bt_invar_def)
next
  case (2 k v a b m)
  then show ?case
    using set_bt_insert_keys [of k v m] by (auto simp: bt_invar_Cons simp del: set_map)
qed

lemma bt_invar_remove: "bt_invar m \<Longrightarrow> bt_invar (bt_remove k m)"
  using set_bt_remove_keys by (induction k m rule: bt_remove.induct) (fastforce simp: bt_invar_Cons)+

lemma bt_invar_retain: "bt_invar m \<Longrightarrow> bt_invar (bt_retain p m)"
  by (induction m) (auto simp: bt_invar_def bt_retain_def)

lemma bt_extensional:
  assumes "bt_invar m" "bt_invar m'" "\<And>k. bt_get m k = bt_get m' k"
  shows "m = m'"
proof -
  have mem: "set m = set m'"
    using assms by (auto simp: bt_get_mem_iff simp flip: bt_get_mem_iff)
  have "map fst m = map fst m'"
    using assms(1,2) mem by (auto simp: bt_invar_def intro!: sorted_distinct_set_unique
        dest: strict_sorted_imp_sorted strict_sorted_iff [THEN iffD1])
  moreover have "v = w" if "(k, v) \<in> set m" "(k, w) \<in> set m" for k v w
    using that bt_get_mem_iff [OF assms(1)] by (metis option.inject)
  then have "inj_on fst (set m \<union> set m')"
    using mem by (auto simp: inj_on_def)
  ultimately show ?thesis
    using mem by (simp add: map_inj_on)
qed

interpretation bt: ordered_map bt_get bt_insert bt_remove bt_retain "[]" bt_invar
proof unfold_locales
  show "bt_get [] k = None" for k :: 'a by simp
  show "bt_invar ([] :: ('a \<times> 'b) list)" by (simp add: bt_invar_def)
qed (fact bt_get_insert bt_get_remove bt_get_retain bt_invar_insert bt_invar_remove
    bt_invar_retain bt_extensional)+

lemmas bt_laws = bt.get_insert bt.get_remove bt.get_retain
lemmas bt_invars = bt.invar_empty bt.invar_insert bt.invar_remove bt.invar_retain

section \<open>Derived facts the components share\<close>

lemma bt_get_extend:
  "bt_get (bt_extend es m) k = (case map_of (rev es) k of Some v \<Rightarrow> Some v | None \<Rightarrow> bt_get m k)"
  by (induction es m rule: bt_extend.induct)
    (auto simp: bt_get_insert map_add_def split: option.splits)

lemma bt_invar_extend: "bt_invar m \<Longrightarrow> bt_invar (bt_extend es m)"
  by (induction es m rule: bt_extend.induct) (auto simp: bt_invar_insert)

lemma set_bt_insert: "(a, b) \<in> set (bt_insert k v m) \<Longrightarrow> (a = k \<and> b = v) \<or> (a, b) \<in> set m"
  by (induction k v m rule: bt_insert.induct) (auto split: if_splits)

lemma bt_retain_retain: "bt_retain p (bt_retain q m) = bt_retain (\<lambda>k. q k \<and> p k) m"
  by (simp add: bt_retain_def conj_commute)

lemma bt_last_le_Some:
  assumes "bt_invar m" and "bt_last_le m k = Some (a, b)"
  shows "bt_get m a = Some b" and "a \<le> k"
    and "\<And>c. bt_contains m c \<Longrightarrow> c \<le> k \<Longrightarrow> c \<le> a"
proof -
  let ?r = "bt_retain (\<lambda>a. a \<le> k) m"
  have r: "?r \<noteq> []" "last ?r = (a, b)" "bt_invar ?r"
    using assms by (auto simp: bt_last_le_def bt_last_def bt_invar_retain split: if_splits)
  then have mem: "(a, b) \<in> set ?r" by (metis last_in_set)
  then show "bt_get m a = Some b" "a \<le> k"
    using assms(1) by (auto simp: bt_retain_def bt_get_mem_iff)
  fix c assume "bt_contains m c" and "c \<le> k"
  then obtain d where "(c, d) \<in> set ?r"
    using bt_get_Some_mem by (fastforce simp: bt_contains_def bt_retain_def)
  moreover have "?r = butlast ?r @ [(a, b)]"
    using r by (metis append_butlast_last_id)
  ultimately have "(c, d) \<in> set (butlast ?r) \<or> c = a"
    by (metis Un_iff empty_iff empty_set fst_conv set_ConsD set_append)
  moreover have "sorted_wrt (<) (map fst (butlast ?r @ [(a, b)]))"
    using r by (metis append_butlast_last_id bt_invar_def)
  ultimately show "c \<le> a"
    by (force simp: sorted_wrt_append)
qed

lemma bt_last_le_None: "bt_last_le m k = None \<longleftrightarrow> (\<forall>c. bt_contains m c \<longrightarrow> \<not> c \<le> k)"
proof -
  have "bt_last_le m k = None \<longleftrightarrow> bt_retain (\<lambda>a. a \<le> k) m = []"
    by (simp add: bt_last_le_def bt_last_def)
  also have "\<dots> \<longleftrightarrow> (\<forall>e \<in> set m. \<not> fst e \<le> k)"
    by (simp add: bt_retain_def filter_empty_conv)
  also have "\<dots> \<longleftrightarrow> (\<forall>c. bt_contains m c \<longrightarrow> \<not> c \<le> k)"
    by (auto simp: bt_contains_def bt_get_None_iff)
  finally show ?thesis .
qed

end
