(* ===== verification/Withdrawal_Chain.thy ===== *)
theory Withdrawal_Chain
  imports Hash_Chain BTree_Map
begin

text \<open>
  Withdrawals and their queue hash (\<open>crates/contracts/src/precompiles/zone_portal.rs\<close>), and the
  sequencer's recovery of the unprocessed withdrawals of each pending portal slot from that hash
  (\<open>crates/sequencer/src/settlement.rs\<close>: \<open>find_processed_offset\<close>, \<open>resolve_pending_slots\<close>).

  The hash function and the ABI encoding of a withdrawal with its tail are third-party code; they
  are the parameters \<open>kec\<close> (\<open>keccak256\<close>) and \<open>enc\<close> (\<open>abi_encode_params\<close>).
\<close>

section \<open>Withdrawals\<close>

record Withdrawal =
  wd_token :: address
  wd_senderTag :: b256
  wd_to :: address
  wd_amount :: u128
  wd_memo :: b256
  wd_gasLimit :: u64
  wd_fallbackNonce :: u64
  wd_callbackData :: bytes
  wd_encryptedSender :: bytes

record WithdrawalRequested =
  wr_withdrawalIndex :: u64
  wr_sender :: address
  wr_token :: address
  wr_to :: address
  wr_amount :: u128
  wr_fee :: u128
  wr_memo :: b256
  wr_gasLimit :: u64
  wr_fallbackNonce :: u64
  wr_data :: bytes
  wr_revealTo :: bytes

type_synonym keccak = "bytes \<Rightarrow> b256"
type_synonym withdrawal_enc = "Withdrawal \<Rightarrow> b256 \<Rightarrow> bytes"

definition authenticated_sender_plaintext :: "address \<Rightarrow> b256 \<Rightarrow> bytes" where
  "authenticated_sender_plaintext sender tx_hash = to_be_bytes 20 sender @ to_be_bytes 32 tx_hash"

definition sender_tag :: "keccak \<Rightarrow> address \<Rightarrow> b256 \<Rightarrow> u64 \<Rightarrow> b256" where
  "sender_tag kec sender tx_hash fallback_nonce =
     (if sender = 0 \<and> fallback_nonce = 0
      then kec (authenticated_sender_plaintext 0 0)
      else kec (authenticated_sender_plaintext sender tx_hash @ to_be_bytes 8 fallback_nonce))"

definition from_requested_event ::
  "keccak \<Rightarrow> WithdrawalRequested \<Rightarrow> b256 \<Rightarrow> bytes \<Rightarrow> Withdrawal" where
  "from_requested_event kec event tx_hash encrypted_sender =
     \<lparr>wd_token = wr_token event,
      wd_senderTag = sender_tag kec (wr_sender event) tx_hash (wr_fallbackNonce event),
      wd_to = wr_to event,
      wd_amount = wr_amount event,
      wd_memo = wr_memo event,
      wd_gasLimit = wr_gasLimit event,
      wd_fallbackNonce = wr_fallbackNonce event,
      wd_callbackData = wr_data event,
      wd_encryptedSender = encrypted_sender\<rparr>"

definition hash_with_tail :: "keccak \<Rightarrow> withdrawal_enc \<Rightarrow> Withdrawal \<Rightarrow> b256 \<Rightarrow> b256" where
  "hash_with_tail kec enc w tail = kec (enc w tail)"

definition queue_hash :: "keccak \<Rightarrow> withdrawal_enc \<Rightarrow> Withdrawal list \<Rightarrow> b256" where
  "queue_hash kec enc withdrawals = fold (hash_with_tail kec enc) (rev withdrawals) 0"

section \<open>Recovering the unprocessed withdrawals\<close>

fun find_processed_offset_loop ::
  "keccak \<Rightarrow> withdrawal_enc \<Rightarrow> b256 \<Rightarrow> b256 \<Rightarrow> (nat \<times> Withdrawal) list \<Rightarrow> nat option" where
  "find_processed_offset_loop kec enc current_slot_hash hash [] = None"
| "find_processed_offset_loop kec enc current_slot_hash hash ((offset, w) # rest) =
     (let hash' = hash_with_tail kec enc w hash in
      if hash' = current_slot_hash then Some offset
      else find_processed_offset_loop kec enc current_slot_hash hash' rest)"

definition find_processed_offset ::
  "keccak \<Rightarrow> withdrawal_enc \<Rightarrow> Withdrawal list \<Rightarrow> b256 \<Rightarrow> nat option" where
  "find_processed_offset kec enc withdrawals current_slot_hash =
     (if current_slot_hash = 0 then Some (length withdrawals)
      else find_processed_offset_loop kec enc current_slot_hash 0
             (rev (enumerate 0 withdrawals)))"

record BatchSubmitted =
  bs_withdrawalBatchIndex :: u64
  bs_withdrawalQueueIndex :: u256
  bs_nextProcessedDepositQueueHash :: b256
  bs_nextBlockHash :: b256
  bs_withdrawalQueueHash :: b256
  bs_lastProcessedDepositNumber :: u64
  bs_lastProcessedEnabledTokenCount :: u64

datatype ResolveError =
    HeadSlotZero u64 u64
  | MissingBatchEvent u64
  | MissingWithdrawalData u64
  | WithdrawalHashMismatch u64
  | UnknownProcessedOffset u64

text \<open>The body of the loop over the pending slots.\<close>

definition resolve_slot ::
  "keccak \<Rightarrow> withdrawal_enc \<Rightarrow> u64 \<Rightarrow> (u64, BatchSubmitted) btree
   \<Rightarrow> (u64, Withdrawal list) btree \<Rightarrow> b256 \<Rightarrow> u64 \<Rightarrow> (u64, Withdrawal list) btree
   \<Rightarrow> ResolveError + (u64, Withdrawal list) btree" where
  "resolve_slot kec enc head events slot_withdrawals head_slot_hash portal_slot result =
     rbind (ok_or (bt_get events portal_slot) (MissingBatchEvent portal_slot)) (\<lambda>event.
     rbind (ok_or (bt_get slot_withdrawals portal_slot) (MissingWithdrawalData portal_slot))
       (\<lambda>withdrawals.
     if withdrawals = [] \<or> queue_hash kec enc withdrawals \<noteq> bs_withdrawalQueueHash event
     then Inl (WithdrawalHashMismatch portal_slot)
     else if portal_slot = head
     then (case find_processed_offset kec enc withdrawals head_slot_hash of
             Some offset \<Rightarrow>
               (let remaining = drop offset withdrawals in
                if remaining \<noteq> [] then Inr (bt_insert portal_slot remaining result)
                else Inr result)
           | None \<Rightarrow> Inl (UnknownProcessedOffset portal_slot))
     else Inr (bt_insert portal_slot withdrawals result)))"

definition resolve_pending_slots ::
  "keccak \<Rightarrow> withdrawal_enc \<Rightarrow> u64 \<Rightarrow> u64 \<Rightarrow> (u64, BatchSubmitted) btree
   \<Rightarrow> (u64, Withdrawal list) btree \<Rightarrow> b256 \<Rightarrow> ResolveError + (u64, Withdrawal list) btree" where
  "resolve_pending_slots kec enc head tail events slot_withdrawals head_slot_hash =
     (if head < tail \<and> head_slot_hash = 0 then Inl (HeadSlotZero head tail)
      else try_fold (resolve_slot kec enc head events slot_withdrawals head_slot_hash)
             (u64_range head tail) [])"

section \<open>The queue hash is a hash chain\<close>

lemma queue_hash_foldr: "queue_hash kec enc ws = foldr (hash_with_tail kec enc) ws 0"
  by (simp add: queue_hash_def foldr_conv_fold)

lemma queue_hash_Nil [simp]: "queue_hash kec enc [] = 0"
  by (simp add: queue_hash_foldr)

lemma queue_hash_Cons [simp]:
  "queue_hash kec enc (w # ws) = hash_with_tail kec enc w (queue_hash kec enc ws)"
  by (simp add: queue_hash_foldr)

interpretation wq: hash_chain "hash_with_tail kec enc" "\<lambda>ws t. fold (hash_with_tail kec enc) (rev ws) t"
  for kec enc
  by unfold_locales simp_all

lemma find_loop_sound:
  assumes "find_processed_offset_loop kec enc cur (queue_hash kec enc (drop n ws))
      (rev (enumerate 0 (take n ws))) = Some k" and "n \<le> length ws"
  shows "k < n \<and> queue_hash kec enc (drop k ws) = cur"
  using assms
proof (induction n)
  case 0
  then show ?case by simp
next
  case (Suc n)
  have "enumerate 0 (take (Suc n) ws) = enumerate 0 (take n ws) @ [(n, ws ! n)]"
    using Suc.prems(2) by (simp add: take_Suc_conv_app_nth enumerate_append_eq)
  moreover have "drop n ws = ws ! n # drop (Suc n) ws"
    using Suc.prems(2) by (simp add: Cons_nth_drop_Suc)
  ultimately show ?case
    using Suc by (auto simp: Let_def split: if_splits)
qed

lemma find_loop_complete:
  assumes "k < n" and "n \<le> length ws" and "queue_hash kec enc (drop k ws) = cur"
  shows "find_processed_offset_loop kec enc cur (queue_hash kec enc (drop n ws))
      (rev (enumerate 0 (take n ws))) \<noteq> None"
  using assms
proof (induction n)
  case 0
  then show ?case by simp
next
  case (Suc n)
  have e: "enumerate 0 (take (Suc n) ws) = enumerate 0 (take n ws) @ [(n, ws ! n)]"
    using Suc.prems(2) by (simp add: take_Suc_conv_app_nth enumerate_append_eq)
  have d: "drop n ws = ws ! n # drop (Suc n) ws"
    using Suc.prems(2) by (simp add: Cons_nth_drop_Suc)
  show ?case
  proof (cases "k = n")
    case True
    then show ?thesis using Suc.prems(3) by (simp add: e d)
  next
    case False
    then show ?thesis using Suc by (auto simp: e d Let_def)
  qed
qed

lemma find_processed_offset_sound:
  assumes "find_processed_offset kec enc ws cur = Some k"
  shows "k \<le> length ws \<and> queue_hash kec enc (drop k ws) = cur \<and> (cur \<noteq> 0 \<longrightarrow> k < length ws)"
  using assms find_loop_sound [of kec enc cur "length ws" ws k]
  by (auto simp: find_processed_offset_def split: if_splits)

lemma links_drop: "set (chain_links l (drop k ws) t) \<subseteq> set (chain_links l ws t)"
  by (induction ws arbitrary: k) (auto simp: drop_Cons split: nat.splits)

lemma links_distinct_mono:
  "links_distinct l ps qs \<Longrightarrow> set ps' \<subseteq> set ps \<Longrightarrow> set qs' \<subseteq> set qs \<Longrightarrow> links_distinct l ps' qs'"
  unfolding links_distinct_def list_all_iff by blast

lemma links_avoid_mono: "links_avoid l r ps \<Longrightarrow> set ps' \<subseteq> set ps \<Longrightarrow> links_avoid l r ps'"
  unfolding links_avoid_def list_all_iff by blast

text \<open>What a slot of the resolved map holds: the unprocessed suffix of the batch.\<close>

definition slot_resolved ::
  "keccak \<Rightarrow> withdrawal_enc \<Rightarrow> u64 \<Rightarrow> (u64, BatchSubmitted) btree
   \<Rightarrow> (u64, Withdrawal list) btree \<Rightarrow> b256 \<Rightarrow> u64 \<Rightarrow> Withdrawal list option \<Rightarrow> bool" where
  "slot_resolved kec enc head events slots hsh s v \<longleftrightarrow>
     (\<exists>event ws k. bt_get events s = Some event \<and> bt_get slots s = Some ws
        \<and> queue_hash kec enc ws = bs_withdrawalQueueHash event
        \<and> v = Some (drop k ws) \<and> k < length ws
        \<and> queue_hash kec enc (drop k ws) = (if s = head then hsh else bs_withdrawalQueueHash event)
        \<and> (s \<noteq> head \<longrightarrow> k = 0))"

lemma resolve_slot_Inr:
  assumes "resolve_slot kec enc head events slots hsh s r = Inr r'" and "hsh \<noteq> 0"
  shows "slot_resolved kec enc head events slots hsh s (bt_get r' s)
    \<and> (\<forall>s'. s' \<noteq> s \<longrightarrow> bt_get r' s' = bt_get r s')"
proof -
  obtain event ws where e: "bt_get events s = Some event" and w: "bt_get slots s = Some ws"
    and ne: "ws \<noteq> []" and h: "queue_hash kec enc ws = bs_withdrawalQueueHash event"
    using assms(1) by (auto simp: resolve_slot_def split: if_splits)
  show ?thesis
  proof (cases "s = head")
    case True
    then obtain k where k: "find_processed_offset kec enc ws hsh = Some k"
      using assms(1) e w ne h by (auto simp: resolve_slot_def split: option.splits)
    note f = find_processed_offset_sound [OF k]
    then have r': "r' = bt_insert s (drop k ws) r"
      using assms True e w ne h k by (auto simp: resolve_slot_def Let_def)
    show ?thesis
      unfolding slot_resolved_def using True e w h f assms(2)
      by (auto simp: r' bt.get_insert)
  next
    case False
    then have r': "r' = bt_insert s ws r"
      using assms e w ne h by (auto simp: resolve_slot_def)
    have "slot_resolved kec enc head events slots hsh s (Some (drop 0 ws))"
      unfolding slot_resolved_def using False e w h ne by fastforce
    then show ?thesis by (simp add: r' bt.get_insert)
  qed
qed

lemma resolve_slots_fold:
  assumes "try_fold (resolve_slot kec enc head events slots hsh) xs r = Inr r'"
    and "hsh \<noteq> 0" and "distinct xs"
  shows "(\<forall>s \<in> set xs. slot_resolved kec enc head events slots hsh s (bt_get r' s))
    \<and> (\<forall>s. s \<notin> set xs \<longrightarrow> bt_get r' s = bt_get r s)"
  using assms
proof (induction xs arbitrary: r)
  case Nil
  then show ?case by simp
next
  case (Cons x xs)
  then obtain r1 where r1: "resolve_slot kec enc head events slots hsh x r = Inr r1"
    and rest: "try_fold (resolve_slot kec enc head events slots hsh) xs r1 = Inr r'"
    by auto
  have "bt_get r' x = bt_get r1 x" using Cons.IH [OF rest] Cons.prems by simp
  then show ?case
    using resolve_slot_Inr [OF r1 Cons.prems(2)] Cons.IH [OF rest] Cons.prems(2,3) by auto
qed

section \<open>Properties\<close>

text \<open>
  C23. The queue hash binds the whole queue: two withdrawal queues with the same hash are the same
  queue, in the same order, provided the link hashes evaluated for the two queues do not collide
  with one another and none of them is the zero hash of the empty queue.
\<close>

theorem queue_hash_binding:
  assumes "queue_hash kec enc ws = queue_hash kec enc ws'"
    and "links_distinct (hash_with_tail kec enc) (chain_links (hash_with_tail kec enc) ws 0)
           (chain_links (hash_with_tail kec enc) ws' 0)"
    and "links_avoid (hash_with_tail kec enc) 0 (chain_links (hash_with_tail kec enc) ws 0)"
    and "links_avoid (hash_with_tail kec enc) 0 (chain_links (hash_with_tail kec enc) ws' 0)"
  shows "ws = ws'"
  using wq.chain_binding [of kec enc ws 0 ws'] assms by (simp add: queue_hash_def)

text \<open>
  C24. Recovery after a crash in the middle of a slot: when the portal has processed the first
  \<open>k\<close> withdrawals of a batch, so that the slot holds the hash of the rest, the offset found is
  exactly \<open>k\<close>.
\<close>

theorem find_processed_offset_exact:
  assumes "k \<le> length ws"
    and "links_distinct (hash_with_tail kec enc) (chain_links (hash_with_tail kec enc) ws 0)
           (chain_links (hash_with_tail kec enc) ws 0)"
    and "links_avoid (hash_with_tail kec enc) 0 (chain_links (hash_with_tail kec enc) ws 0)"
  shows "find_processed_offset kec enc ws (queue_hash kec enc (drop k ws)) = Some k"
proof -
  let ?cur = "queue_hash kec enc (drop k ws)"
  have bind: "drop i ws = drop k ws" if "queue_hash kec enc (drop i ws) = ?cur" for i
    using wq.chain_binding [of kec enc "drop i ws" 0 "drop k ws"] that assms(2,3)
    by (simp add: links_distinct_mono [OF _ links_drop links_drop]
        links_avoid_mono [OF _ links_drop] flip: queue_hash_def)
  have "find_processed_offset kec enc ws ?cur \<noteq> None"
    using find_loop_complete [of k "length ws" ws kec enc ?cur] assms(1)
    by (cases "k = length ws") (auto simp: find_processed_offset_def)
  then obtain j where j: "find_processed_offset kec enc ws ?cur = Some j" by auto
  with find_processed_offset_sound [OF j] have "drop j ws = drop k ws" "j \<le> length ws"
    using bind by auto
  moreover from this have "length ws - j = length ws - k" by (metis length_drop)
  ultimately show ?thesis using j assms(1) by simp
qed


section \<open>Witnesses\<close>

text \<open>
  A concrete instance: the encoding has one byte more than the tail's value, and the hash counts
  bytes, so a chain of \<open>n\<close> links hashes to \<open>n\<close>.
\<close>

definition count_bytes :: keccak where
  "count_bytes bs = of_nat (length bs)"

definition unary_enc :: withdrawal_enc where
  "unary_enc w t = replicate (Suc (unat t)) 0"

definition sample_withdrawal :: "u128 \<Rightarrow> Withdrawal" where
  "sample_withdrawal a = \<lparr>wd_token = 1, wd_senderTag = 2, wd_to = 3, wd_amount = a, wd_memo = 0,
     wd_gasLimit = 0, wd_fallbackNonce = 1, wd_callbackData = [], wd_encryptedSender = []\<rparr>"

definition sample_event :: "b256 \<Rightarrow> BatchSubmitted" where
  "sample_event h = \<lparr>bs_withdrawalBatchIndex = 1, bs_withdrawalQueueIndex = 4,
     bs_nextProcessedDepositQueueHash = 0, bs_nextBlockHash = 0, bs_withdrawalQueueHash = h,
     bs_lastProcessedDepositNumber = 0, bs_lastProcessedEnabledTokenCount = 0\<rparr>"

lemma sample_link: "hash_with_tail count_bytes unary_enc w t = of_nat (Suc (unat t))"
  by (simp add: hash_with_tail_def count_bytes_def unary_enc_def)

theorem queue_hash_binding_witness:
  "let ws = [sample_withdrawal 5, sample_withdrawal 6] in
   queue_hash count_bytes unary_enc ws = 2 \<and> ws = map sample_withdrawal [5, 6]"
proof -
  have "[sample_withdrawal 5, sample_withdrawal 6] = map sample_withdrawal [5, 6]"
    by (rule queue_hash_binding [of count_bytes unary_enc])
      (simp_all add: links_distinct_def links_avoid_def sample_link)
  then show ?thesis by (simp add: sample_link)
qed

theorem find_processed_offset_exact_witness:
  "let ws = map sample_withdrawal [5, 6, 7] in
   find_processed_offset count_bytes unary_enc ws (queue_hash count_bytes unary_enc (drop 1 ws))
     = Some 1"
  using find_processed_offset_exact [of 1 "map sample_withdrawal [5, 6, 7]" count_bytes unary_enc]
  by (simp add: links_distinct_def links_avoid_def sample_link)


end
