(* ===== verification/Zone_Effects.thy ===== *)
theory Zone_Effects
  imports Zone_Prelude
begin

text \<open>
  Fallible stateful code: a computation takes the context and returns a result together with the
  context it leaves, on the error paths too. A precompile that fails has usually written some of
  its storage already; the EVM reverts those writes, while the execution-local L1 bookkeeping
  stays. Keeping the context on both paths makes the difference visible in the model.
\<close>

named_theorems preserves_intros \<open>which computations respect a relation on contexts\<close>

type_synonym ('c, 'e, 'a) eff = "'c \<Rightarrow> ('e + 'a) \<times> 'c"

definition ereturn :: "'a \<Rightarrow> ('c, 'e, 'a) eff" where
  "ereturn x c = (Inr x, c)"

definition efail :: "'e \<Rightarrow> ('c, 'e, 'a) eff" where
  "efail e c = (Inl e, c)"

definition ebind :: "('c, 'e, 'a) eff \<Rightarrow> ('a \<Rightarrow> ('c, 'e, 'b) eff) \<Rightarrow> ('c, 'e, 'b) eff" where
  "ebind m f c = (case m c of (Inl e, c') \<Rightarrow> (Inl e, c') | (Inr x, c') \<Rightarrow> f x c')"

definition eseq :: "('c, 'e, 'a) eff \<Rightarrow> ('c, 'e, 'b) eff \<Rightarrow> ('c, 'e, 'b) eff" where
  "eseq m n = ebind m (\<lambda>_. n)"

definition echeck :: "bool \<Rightarrow> 'e \<Rightarrow> ('c, 'e, unit) eff" where
  "echeck b e = (if b then ereturn () else efail e)"

definition eget :: "('c \<Rightarrow> 'a) \<Rightarrow> ('c, 'e, 'a) eff" where
  "eget f c = (Inr (f c), c)"

definition emodify :: "('c \<Rightarrow> 'c) \<Rightarrow> ('c, 'e, unit) eff" where
  "emodify f c = (Inr (), f c)"

definition elift :: "'e + 'a \<Rightarrow> ('c, 'e, 'a) eff" where
  "elift r c = (r, c)"

definition emap_err :: "('e \<Rightarrow> 'f) \<Rightarrow> ('c, 'e, 'a) eff \<Rightarrow> ('c, 'f, 'a) eff" where
  "emap_err f m c = (case m c of (r, c') \<Rightarrow> (map_err f r, c'))"

text \<open>A computation on a part of the context, given by how the part is read and replaced.\<close>

definition ezoom ::
  "('c \<Rightarrow> 's) \<Rightarrow> ('s \<Rightarrow> 'c \<Rightarrow> 'c) \<Rightarrow> ('s, 'e, 'a) eff \<Rightarrow> ('c, 'e, 'a) eff" where
  "ezoom rd wr m c = (case m (rd c) of (r, s') \<Rightarrow> (r, wr s' c))"

fun efor :: "('x \<Rightarrow> ('c, 'e, unit) eff) \<Rightarrow> 'x list \<Rightarrow> ('c, 'e, unit) eff" where
  "efor f [] = ereturn ()"
| "efor f (x # xs) = eseq (f x) (efor f xs)"

text \<open>A loop that threads an accumulator.\<close>

fun efold :: "('x \<Rightarrow> 'a \<Rightarrow> ('c, 'e, 'a) eff) \<Rightarrow> 'x list \<Rightarrow> 'a \<Rightarrow> ('c, 'e, 'a) eff" where
  "efold f [] a = ereturn a"
| "efold f (x # xs) a = ebind (f x a) (efold f xs)"

section \<open>Evaluation\<close>

lemma eff_eval [simp]:
  "ereturn x c = (Inr x, c)"
  "efail e c = (Inl e, c)"
  "eget f c = (Inr (f c), c)"
  "emodify g c = (Inr (), g c)"
  "elift r c = (r, c)"
  by (simp_all add: ereturn_def efail_def eget_def emodify_def elift_def)

lemma ebind_cong_eval:
  "m c = (Inr x, c') \<Longrightarrow> ebind m f c = f x c'"
  "m c = (Inl e, c') \<Longrightarrow> ebind m f c = (Inl e, c')"
  by (simp_all add: ebind_def)

lemma ebind_ereturn [simp]: "ebind (ereturn x) f = f x"
  by (rule ext) (simp add: ebind_def)

lemma ebind_eget [simp]: "ebind (eget g) f c = f (g c) c"
  by (simp add: ebind_def)

lemma ebind_emodify [simp]: "ebind (emodify g) f c = f () (g c)"
  by (simp add: ebind_def)

lemma ebind_efail [simp]: "ebind (efail e) f = efail e"
  by (rule ext) (simp add: ebind_def)

lemma ebind_Inr [simp]:
  "ebind m f c = (Inr y, c') \<longleftrightarrow> (\<exists>x c1. m c = (Inr x, c1) \<and> f x c1 = (Inr y, c'))"
  by (auto simp: ebind_def split: prod.splits sum.splits)

lemma ebind_Inl:
  "ebind m f c = (Inl e, c') \<longleftrightarrow>
     m c = (Inl e, c') \<or> (\<exists>x c1. m c = (Inr x, c1) \<and> f x c1 = (Inl e, c'))"
  by (auto simp: ebind_def split: prod.splits sum.splits)

lemma eseq_Inr [simp]:
  "eseq m n c = (Inr y, c') \<longleftrightarrow> (\<exists>x c1. m c = (Inr x, c1) \<and> n c1 = (Inr y, c'))"
  by (simp add: eseq_def)

lemma eseq_Inl:
  "eseq m n c = (Inl e, c') \<longleftrightarrow>
     m c = (Inl e, c') \<or> (\<exists>x c1. m c = (Inr x, c1) \<and> n c1 = (Inl e, c'))"
  by (simp add: eseq_def ebind_Inl)

lemma echeck_Inr [simp]: "echeck b e c = (Inr u, c') \<longleftrightarrow> b \<and> c' = c"
  by (auto simp: echeck_def)

lemma echeck_Inl [simp]: "echeck b e c = (Inl e', c') \<longleftrightarrow> \<not> b \<and> e' = e \<and> c' = c"
  by (auto simp: echeck_def)

lemma echeck_eval [simp]:
  "echeck True e = ereturn ()"
  "echeck False e = efail e"
  by (simp_all add: echeck_def)

lemma emap_err_Inr [simp]: "emap_err f m c = (Inr y, c') \<longleftrightarrow> m c = (Inr y, c')"
  by (auto simp: emap_err_def split: prod.splits)

lemma ezoom_Inr [simp]:
  "ezoom rd wr m c = (Inr y, c') \<longleftrightarrow> (\<exists>s'. m (rd c) = (Inr y, s') \<and> c' = wr s' c)"
  by (auto simp: ezoom_def split: prod.splits)

lemma ezoom_Inl [simp]:
  "ezoom rd wr m c = (Inl y, c') \<longleftrightarrow> (\<exists>s'. m (rd c) = (Inl y, s') \<and> c' = wr s' c)"
  by (auto simp: ezoom_def split: prod.splits)

lemma emap_err_Inl [simp]:
  "emap_err f m c = (Inl y, c') \<longleftrightarrow> (\<exists>e. m c = (Inl e, c') \<and> y = f e)"
  by (auto simp: emap_err_def map_err_def split: prod.splits sum.splits)

section \<open>Invariants\<close>

text \<open>The context relation \<open>R\<close> holds between the contexts before and after a computation.\<close>

definition preserves :: "('c \<Rightarrow> 'c \<Rightarrow> bool) \<Rightarrow> ('c, 'e, 'a) eff \<Rightarrow> bool" where
  "preserves R m \<longleftrightarrow> (\<forall>c r c'. m c = (r, c') \<longrightarrow> R c c')"

lemma preservesD: "preserves R m \<Longrightarrow> m c = (r, c') \<Longrightarrow> R c c'"
  by (auto simp: preserves_def)

lemma preserves_ebind [preserves_intros]:
  assumes "transp R" and "preserves R m" and "\<And>x. preserves R (f x)"
  shows "preserves R (ebind m f)"
  unfolding preserves_def
proof (intro allI impI)
  fix c r c' assume run: "ebind m f c = (r, c')"
  obtain r1 c1 where m: "m c = (r1, c1)" by (cases "m c")
  show "R c c'"
  proof (cases r1)
    case (Inl e)
    then show ?thesis using run m assms(2) by (auto simp: ebind_def dest: preservesD)
  next
    case (Inr x)
    then have "f x c1 = (r, c')" using run m by (simp add: ebind_def)
    then show ?thesis
      using assms m by (meson preservesD transpD)
  qed
qed

lemma preserves_eseq [preserves_intros]:
  "transp R \<Longrightarrow> preserves R m \<Longrightarrow> preserves R n \<Longrightarrow> preserves R (eseq m n)"
  unfolding eseq_def by (rule preserves_ebind)

lemma preserves_efor:
  assumes "reflp R" and "transp R" and "\<And>x. x \<in> set xs \<Longrightarrow> preserves R (f x)"
  shows "preserves R (efor f xs)"
  using assms(3)
  by (induction xs) (auto simp: preserves_def [of R "ereturn ()"] intro: reflpD [OF assms(1)] assms(2) preserves_eseq)

lemma preserves_ereturn [preserves_intros]: "reflp R \<Longrightarrow> preserves R (ereturn x)"
  by (auto simp: preserves_def dest: reflpD)

lemma preserves_efail [preserves_intros]: "reflp R \<Longrightarrow> preserves R (efail x)"
  by (auto simp: preserves_def dest: reflpD)

lemma preserves_echeck [preserves_intros]: "reflp R \<Longrightarrow> preserves R (echeck b e)"
  by (auto simp: echeck_def intro: preserves_ereturn preserves_efail)

lemma preserves_eget [preserves_intros]: "reflp R \<Longrightarrow> preserves R (eget f)"
  by (auto simp: preserves_def dest: reflpD)

lemma preserves_elift [preserves_intros]: "reflp R \<Longrightarrow> preserves R (elift r)"
  by (auto simp: preserves_def dest: reflpD)

lemma preserves_emap_err [preserves_intros]: "preserves R m \<Longrightarrow> preserves R (emap_err f m)"
  by (auto simp: preserves_def emap_err_def split: prod.splits)

end
