(* ===== verification/Ecies.thy ===== *)
theory Ecies
  imports Withdrawal_Chain
begin

text \<open>
  Encryption of deposits and of withdrawal senders, and the Chaum-Pedersen proof of the shared
  secret (\<open>crates/precompiles/src/ecies.rs\<close>, \<open>chaum_pedersen.rs\<close>, \<open>aes_gcm.rs\<close>).

  Curve arithmetic, SHA-256, Keccak and AES-GCM come from third-party crates and are the record
  \<open>crypto_ops\<close>; the laws the code relies on (scalar multiplication is a module action, compressed
  points decode, decryption inverts encryption) are the named hypotheses \<open>curve_laws\<close>,
  \<open>point_laws\<close> and \<open>aes_laws\<close>. Random values are arguments. An affine point is its coordinates,
  \<open>None\<close> being the identity; a scalar is its canonical 32-byte representation.
\<close>

section \<open>Third-party operations\<close>

type_synonym scalar = b256
type_synonym affine_point = "(b256 \<times> b256) option"

record crypto_ops =
  co_sha256 :: "bytes \<Rightarrow> bytes"
  co_keccak :: keccak
  co_generator :: affine_point
  co_mul :: "affine_point \<Rightarrow> scalar \<Rightarrow> affine_point"
  co_sub :: "affine_point \<Rightarrow> affine_point \<Rightarrow> affine_point"
  co_scalar_add :: "scalar \<Rightarrow> scalar \<Rightarrow> scalar"
  co_scalar_mul :: "scalar \<Rightarrow> scalar \<Rightarrow> scalar"
  co_reduce :: "b256 \<Rightarrow> scalar"
  co_secret_key :: "bytes \<Rightarrow> scalar option"
  co_decode_point :: "bytes \<Rightarrow> affine_point option"
  co_compressed :: "affine_point \<Rightarrow> bytes"
  co_uncompressed :: "affine_point \<Rightarrow> bytes"
  co_compressed_x :: "affine_point \<Rightarrow> b256 option"
  co_aes_encrypt :: "bytes \<Rightarrow> bytes \<Rightarrow> bytes \<Rightarrow> bytes option"
  co_aes_decrypt :: "bytes \<Rightarrow> bytes \<Rightarrow> bytes \<Rightarrow> bytes \<Rightarrow> bytes \<Rightarrow> bytes option"

section \<open>Constants and byte layouts\<close>

definition ENCRYPTED_PAYLOAD_PLAINTEXT_SIZE :: nat where
  "ENCRYPTED_PAYLOAD_PLAINTEXT_SIZE = 64"

definition AUTHENTICATED_WITHDRAWAL_PLAINTEXT_SIZE :: nat where
  "AUTHENTICATED_WITHDRAWAL_PLAINTEXT_SIZE = 52"

definition COMPRESSED_PUBLIC_KEY_SIZE :: nat where
  "COMPRESSED_PUBLIC_KEY_SIZE = 33"

definition AUTHENTICATED_WITHDRAWAL_ENCRYPTED_SIZE :: nat where
  "AUTHENTICATED_WITHDRAWAL_ENCRYPTED_SIZE =
     COMPRESSED_PUBLIC_KEY_SIZE + 12 + AUTHENTICATED_WITHDRAWAL_PLAINTEXT_SIZE + 16"

definition ascii :: "string \<Rightarrow> bytes" where
  "ascii s = map of_char s"

definition build_plaintext :: "address \<Rightarrow> b256 \<Rightarrow> bytes" where
  "build_plaintext to memo = to_be_bytes 20 to @ to_be_bytes 32 memo @ replicate 12 0"

definition build_authenticated_withdrawal_plaintext :: "address \<Rightarrow> b256 \<Rightarrow> bytes" where
  "build_authenticated_withdrawal_plaintext sender tx_hash =
     authenticated_sender_plaintext sender tx_hash"

definition hkdf_info :: "address \<Rightarrow> u256 \<Rightarrow> b256 \<Rightarrow> address \<Rightarrow> bytes" where
  "hkdf_info portal key_index eph_pub_x sender =
     to_be_bytes 20 portal @ to_be_bytes 32 key_index @ to_be_bytes 32 eph_pub_x
       @ to_be_bytes 20 sender"

definition authenticated_withdrawal_hkdf_info :: "bytes \<Rightarrow> bytes" where
  "authenticated_withdrawal_hkdf_info eph_pubkey = ascii ''authenticated-withdrawal'' @ eph_pubkey"

definition authenticated_withdrawal_context ::
  "bytes \<Rightarrow> u32 \<Rightarrow> bytes \<Rightarrow> address \<Rightarrow> b256 \<Rightarrow> u64 \<Rightarrow> bytes" where
  "authenticated_withdrawal_context domain zone_id reveal_to sender tx_hash fallback_nonce =
     domain @ to_be_bytes 4 zone_id @ to_be_bytes 4 (of_nat (length reveal_to) :: u32) @ reveal_to
       @ to_be_bytes 20 sender @ to_be_bytes 32 tx_hash @ to_be_bytes 8 fallback_nonce"

section \<open>HMAC and HKDF\<close>

definition hmac_sha256 :: "crypto_ops \<Rightarrow> bytes \<Rightarrow> bytes \<Rightarrow> bytes" where
  "hmac_sha256 co key message =
     (let key_block = (if length key > 64 then co_sha256 co key @ replicate 32 0
                       else key @ replicate (64 - length key) 0);
          ipad = map (\<lambda>b. 0x36 XOR b) key_block;
          opad = map (\<lambda>b. 0x5c XOR b) key_block;
          inner_hash = co_sha256 co (ipad @ message)
      in co_sha256 co (opad @ inner_hash))"

definition hkdf_sha256 :: "crypto_ops \<Rightarrow> bytes \<Rightarrow> bytes \<Rightarrow> bytes \<Rightarrow> bytes" where
  "hkdf_sha256 co ikm salt info =
     (let prk = hmac_sha256 co salt ikm in hmac_sha256 co prk (info @ [1]))"

section \<open>Chaum-Pedersen proofs\<close>

record ChaumPedersenProof =
  cp_s :: b256
  cp_c :: b256

definition recover_point :: "crypto_ops \<Rightarrow> b256 \<Rightarrow> u8 \<Rightarrow> affine_point option" where
  "recover_point co x y_parity = co_decode_point co (y_parity # to_be_bytes 32 x)"

definition challenge_hash ::
  "crypto_ops \<Rightarrow> affine_point \<Rightarrow> affine_point \<Rightarrow> affine_point \<Rightarrow> affine_point \<Rightarrow> affine_point \<Rightarrow> scalar"
where
  "challenge_hash co ephemeral_pub sequencer_pub shared_secret r1 r2 =
     co_reduce co (co_keccak co (concat (map (co_uncompressed co)
       [co_generator co, ephemeral_pub, sequencer_pub, shared_secret, r1, r2])))"

definition cp_verify ::
  "crypto_ops \<Rightarrow> b256 \<Rightarrow> u8 \<Rightarrow> b256 \<Rightarrow> u8 \<Rightarrow> b256 \<Rightarrow> u8 \<Rightarrow> ChaumPedersenProof \<Rightarrow> bool" where
  "cp_verify co eph_x eph_par ss_x ss_par seq_x seq_par proof =
     (case recover_point co eph_x eph_par of None \<Rightarrow> False | Some ephemeral_pub \<Rightarrow>
     (case recover_point co ss_x ss_par of None \<Rightarrow> False | Some shared_secret_point \<Rightarrow>
     (case recover_point co seq_x seq_par of None \<Rightarrow> False | Some sequencer_pub \<Rightarrow>
      (let s = co_reduce co (cp_s proof); c = co_reduce co (cp_c proof);
           r1 = co_sub co (co_mul co (co_generator co) s) (co_mul co sequencer_pub c);
           r2 = co_sub co (co_mul co ephemeral_pub s) (co_mul co shared_secret_point c)
       in c = challenge_hash co ephemeral_pub sequencer_pub shared_secret_point r1 r2))))"

definition CP_NONCE_DOMAIN :: bytes where
  "CP_NONCE_DOMAIN = ascii ''tempo-zone-chaum-pedersen-nonce-v1''"

text \<open>
  The retry loop over the 32-bit counter: \<open>n\<close> counters are left, starting with \<open>counter\<close>.
\<close>

fun scalar_candidates :: "crypto_ops \<Rightarrow> bytes \<Rightarrow> bytes \<Rightarrow> nat \<Rightarrow> u32 \<Rightarrow> scalar option" where
  "scalar_candidates co key input n counter =
     (if n = 0 then None
      else case co_secret_key co (hmac_sha256 co key (input @ to_be_bytes 4 counter)) of
        Some k \<Rightarrow> Some k
      | None \<Rightarrow> scalar_candidates co key input (n - 1) (counter + 1))"

definition deterministic_cp_nonce ::
  "crypto_ops \<Rightarrow> scalar \<Rightarrow> affine_point \<Rightarrow> affine_point \<Rightarrow> affine_point \<Rightarrow> scalar option" where
  "deterministic_cp_nonce co priv_seq ephemeral_pub sequencer_pub shared_secret =
     scalar_candidates co (to_be_bytes 32 priv_seq)
       (CP_NONCE_DOMAIN @ co_compressed co ephemeral_pub @ co_compressed co sequencer_pub
          @ co_compressed co shared_secret)
       (2 ^ 32) 0"

definition generate_chaum_pedersen_proof ::
  "crypto_ops \<Rightarrow> scalar \<Rightarrow> affine_point \<Rightarrow> affine_point \<Rightarrow> affine_point \<Rightarrow> (scalar \<times> scalar) option"
where
  "generate_chaum_pedersen_proof co priv_seq ephemeral_pub shared_secret sequencer_pub =
     (case deterministic_cp_nonce co priv_seq ephemeral_pub sequencer_pub shared_secret of
        None \<Rightarrow> None
      | Some k \<Rightarrow>
          (let r1 = co_mul co (co_generator co) k; r2 = co_mul co ephemeral_pub k;
               c = challenge_hash co ephemeral_pub sequencer_pub shared_secret r1 r2;
               s = co_scalar_add co k (co_scalar_mul co c priv_seq)
           in Some (s, c)))"

section \<open>Deposits\<close>

record EcdhProofResult =
  ep_shared_secret :: b256
  ep_shared_secret_y_parity :: u8
  ep_cp_proof :: ChaumPedersenProof

record DecryptedDeposit =
  dd_proof :: EcdhProofResult
  dd_to :: address
  dd_memo :: b256

record EncryptedDepositArgs =
  ed_eph_pub_x :: b256
  ed_eph_pub_y_parity :: u8
  ed_ciphertext :: bytes
  ed_nonce :: bytes
  ed_tag :: bytes

definition compute_ecdh_proof :: "crypto_ops \<Rightarrow> scalar \<Rightarrow> b256 \<Rightarrow> u8 \<Rightarrow> EcdhProofResult option" where
  "compute_ecdh_proof co sequencer_privkey ephemeral_pub_x ephemeral_pub_y_parity =
     Option.bind (recover_point co ephemeral_pub_x ephemeral_pub_y_parity) (\<lambda>ephemeral_pub.
     let shared_secret_affine = co_mul co ephemeral_pub sequencer_privkey in
     Option.bind (co_compressed_x co shared_secret_affine) (\<lambda>shared_secret_x.
     let shared_secret_y_parity = hd (co_compressed co shared_secret_affine);
         sequencer_pub = co_mul co (co_generator co) sequencer_privkey in
     Option.bind (generate_chaum_pedersen_proof co sequencer_privkey ephemeral_pub
         shared_secret_affine sequencer_pub) (\<lambda>(s, c).
     Some \<lparr>ep_shared_secret = shared_secret_x,
           ep_shared_secret_y_parity = shared_secret_y_parity,
           ep_cp_proof = \<lparr>cp_s = s, cp_c = c\<rparr>\<rparr>)))"

text \<open>\<open>aes_gcm::decrypt\<close>: the plaintext and whether the tag verified.\<close>

definition aes_gcm_decrypt :: "crypto_ops \<Rightarrow> bytes \<Rightarrow> bytes \<Rightarrow> bytes \<Rightarrow> bytes \<Rightarrow> bytes \<Rightarrow> bytes \<times> bool" where
  "aes_gcm_decrypt co key nonce ciphertext aad tag =
     (case co_aes_decrypt co key nonce ciphertext aad tag of
        Some plaintext \<Rightarrow> (plaintext, True) | None \<Rightarrow> ([], False))"

definition decrypt_deposit ::
  "crypto_ops \<Rightarrow> scalar \<Rightarrow> b256 \<Rightarrow> u8 \<Rightarrow> bytes \<Rightarrow> bytes \<Rightarrow> bytes \<Rightarrow> address \<Rightarrow> u256 \<Rightarrow> address
   \<Rightarrow> DecryptedDeposit option" where
  "decrypt_deposit co sequencer_privkey ephemeral_pub_x ephemeral_pub_y_parity ciphertext nonce tag
     portal_address key_index sender =
     Option.bind (compute_ecdh_proof co sequencer_privkey ephemeral_pub_x ephemeral_pub_y_parity)
       (\<lambda>proof.
     let info = hkdf_info portal_address key_index ephemeral_pub_x sender;
         aes_key = hkdf_sha256 co (to_be_bytes 32 (ep_shared_secret proof)) (ascii ''ecies-aes-key'') info;
         (plaintext, valid) = aes_gcm_decrypt co aes_key nonce ciphertext [] tag in
     if \<not> valid \<or> length plaintext \<noteq> ENCRYPTED_PAYLOAD_PLAINTEXT_SIZE then None
     else Some \<lparr>dd_proof = proof,
                dd_to = from_be_bytes (take 20 plaintext),
                dd_memo = from_be_bytes (take 32 (drop 20 plaintext))\<rparr>)"

definition compressed_x_and_parity :: "crypto_ops \<Rightarrow> affine_point \<Rightarrow> b256 \<times> u8" where
  "compressed_x_and_parity co point =
     (the (co_compressed_x co point), hd (co_compressed co point))"

text \<open>The random ephemeral scalar and AES nonce are the arguments \<open>eph_scalar\<close> and \<open>nonce_bytes\<close>.\<close>

definition encrypt_deposit ::
  "crypto_ops \<Rightarrow> scalar \<Rightarrow> bytes \<Rightarrow> b256 \<Rightarrow> u8 \<Rightarrow> address \<Rightarrow> b256 \<Rightarrow> address \<Rightarrow> address \<Rightarrow> u256
   \<Rightarrow> EncryptedDepositArgs option" where
  "encrypt_deposit co eph_scalar nonce_bytes seq_pub_x seq_pub_y_parity to memo sender
     portal_address key_index =
     Option.bind (recover_point co seq_pub_x seq_pub_y_parity) (\<lambda>seq_pub.
     let eph_pub = co_mul co (co_generator co) eph_scalar;
         (eph_pub_x, eph_pub_y_parity) = compressed_x_and_parity co eph_pub;
         shared_affine = co_mul co seq_pub eph_scalar in
     Option.bind (co_compressed_x co shared_affine) (\<lambda>shared_secret_x.
     let info = hkdf_info portal_address key_index eph_pub_x sender;
         aes_key = hkdf_sha256 co (to_be_bytes 32 shared_secret_x) (ascii ''ecies-aes-key'') info in
     Option.bind (co_aes_encrypt co aes_key nonce_bytes (build_plaintext to memo)) (\<lambda>encrypted.
     Some \<lparr>ed_eph_pub_x = eph_pub_x, ed_eph_pub_y_parity = eph_pub_y_parity,
           ed_ciphertext = take (length encrypted - 16) encrypted,
           ed_nonce = nonce_bytes,
           ed_tag = drop (length encrypted - 16) encrypted\<rparr>)))"

section \<open>Authenticated withdrawals\<close>

definition decode_compressed_public_key :: "crypto_ops \<Rightarrow> bytes \<Rightarrow> affine_point option" where
  "decode_compressed_public_key co encoded =
     (if length encoded \<noteq> COMPRESSED_PUBLIC_KEY_SIZE then None
      else if \<not> (hd encoded = 2 \<or> hd encoded = 3) then None
      else recover_point co (from_be_bytes (tl encoded)) (hd encoded))"

definition encrypt_authenticated_withdrawal_with_material ::
  "crypto_ops \<Rightarrow> bytes \<Rightarrow> address \<Rightarrow> b256 \<Rightarrow> scalar \<Rightarrow> bytes \<Rightarrow> bytes option" where
  "encrypt_authenticated_withdrawal_with_material co reveal_to sender tx_hash eph_scalar nonce_bytes =
     Option.bind (decode_compressed_public_key co reveal_to) (\<lambda>reveal_pub.
     let eph_pubkey = co_compressed co (co_mul co (co_generator co) eph_scalar) in
     if length eph_pubkey \<noteq> 33 then None else
     Option.bind (co_compressed_x co (co_mul co reveal_pub eph_scalar)) (\<lambda>shared_secret_x.
     let info = authenticated_withdrawal_hkdf_info eph_pubkey;
         aes_key = hkdf_sha256 co (to_be_bytes 32 shared_secret_x)
                     (ascii ''authenticated-withdrawal-aes-key'') info in
     Option.bind (co_aes_encrypt co aes_key nonce_bytes
         (build_authenticated_withdrawal_plaintext sender tx_hash)) (\<lambda>encrypted.
     let ciphertext = take (length encrypted - 16) encrypted;
         tag = drop (length encrypted - 16) encrypted in
     Some (eph_pubkey @ nonce_bytes @ ciphertext @ tag))))"

definition AUTH_WITHDRAWAL_EPHEMERAL_DOMAIN :: bytes where
  "AUTH_WITHDRAWAL_EPHEMERAL_DOMAIN = ascii ''tempo-zone-authenticated-withdrawal-ephemeral-v2''"

definition AUTH_WITHDRAWAL_NONCE_DOMAIN :: bytes where
  "AUTH_WITHDRAWAL_NONCE_DOMAIN = ascii ''tempo-zone-authenticated-withdrawal-nonce-v2''"

definition AUTH_WITHDRAWAL_DERIVATION_KEY_DOMAIN :: bytes where
  "AUTH_WITHDRAWAL_DERIVATION_KEY_DOMAIN =
     ascii ''tempo-zone-authenticated-withdrawal-derivation-key-v1''"

definition authenticated_withdrawal_derivation_key :: "crypto_ops \<Rightarrow> scalar \<Rightarrow> bytes" where
  "authenticated_withdrawal_derivation_key co encryption_privkey =
     hmac_sha256 co (to_be_bytes 32 encryption_privkey) AUTH_WITHDRAWAL_DERIVATION_KEY_DOMAIN"

definition derive_authenticated_withdrawal_ephemeral_scalar ::
  "crypto_ops \<Rightarrow> bytes \<Rightarrow> u32 \<Rightarrow> bytes \<Rightarrow> address \<Rightarrow> b256 \<Rightarrow> u64 \<Rightarrow> scalar option" where
  "derive_authenticated_withdrawal_ephemeral_scalar co derivation_key zone_id reveal_to sender
     tx_hash fallback_nonce =
     scalar_candidates co derivation_key
       (authenticated_withdrawal_context AUTH_WITHDRAWAL_EPHEMERAL_DOMAIN zone_id reveal_to sender
          tx_hash fallback_nonce)
       (2 ^ 32) 0"

definition derive_authenticated_withdrawal_nonce ::
  "crypto_ops \<Rightarrow> bytes \<Rightarrow> u32 \<Rightarrow> bytes \<Rightarrow> address \<Rightarrow> b256 \<Rightarrow> u64 \<Rightarrow> bytes \<Rightarrow> bytes" where
  "derive_authenticated_withdrawal_nonce co derivation_key zone_id reveal_to sender tx_hash
     fallback_nonce eph_pubkey =
     take 12 (hmac_sha256 co derivation_key
       (authenticated_withdrawal_context AUTH_WITHDRAWAL_NONCE_DOMAIN zone_id reveal_to sender
          tx_hash fallback_nonce @ eph_pubkey))"

definition encrypt_authenticated_withdrawal_deterministic ::
  "crypto_ops \<Rightarrow> scalar \<Rightarrow> u32 \<Rightarrow> bytes \<Rightarrow> address \<Rightarrow> b256 \<Rightarrow> u64 \<Rightarrow> bytes option" where
  "encrypt_authenticated_withdrawal_deterministic co encryption_privkey zone_id reveal_to sender
     tx_hash fallback_nonce =
     (let derivation_key = authenticated_withdrawal_derivation_key co encryption_privkey in
      Option.bind (derive_authenticated_withdrawal_ephemeral_scalar co derivation_key zone_id
          reveal_to sender tx_hash fallback_nonce) (\<lambda>eph_scalar.
      let eph_pubkey = co_compressed co (co_mul co (co_generator co) eph_scalar) in
      if length eph_pubkey \<noteq> 33 then None else
      let nonce_bytes = derive_authenticated_withdrawal_nonce co derivation_key zone_id reveal_to
            sender tx_hash fallback_nonce eph_pubkey in
      encrypt_authenticated_withdrawal_with_material co reveal_to sender tx_hash eph_scalar
        nonce_bytes))"

definition decrypt_authenticated_withdrawal ::
  "crypto_ops \<Rightarrow> scalar \<Rightarrow> bytes \<Rightarrow> (address \<times> b256) option" where
  "decrypt_authenticated_withdrawal co reveal_privkey encrypted_sender =
     (if length encrypted_sender \<noteq> AUTHENTICATED_WITHDRAWAL_ENCRYPTED_SIZE then None else
      let parity = hd encrypted_sender in
      if parity \<noteq> 2 \<and> parity \<noteq> 3 then None else
      let eph_pub_x = from_be_bytes (take 32 (drop 1 encrypted_sender));
          nonce = take 12 (drop 33 encrypted_sender);
          ciphertext = take 52 (drop 45 encrypted_sender);
          tag = take 16 (drop 97 encrypted_sender) in
      Option.bind (recover_point co eph_pub_x parity) (\<lambda>eph_pub.
      Option.bind (co_compressed_x co (co_mul co eph_pub reveal_privkey)) (\<lambda>shared_secret_x.
      let eph_pubkey = parity # to_be_bytes 32 eph_pub_x;
          info = authenticated_withdrawal_hkdf_info eph_pubkey;
          aes_key = hkdf_sha256 co (to_be_bytes 32 shared_secret_x)
                      (ascii ''authenticated-withdrawal-aes-key'') info;
          (plaintext, valid) = aes_gcm_decrypt co aes_key nonce ciphertext [] tag in
      if \<not> valid \<or> length plaintext \<noteq> AUTHENTICATED_WITHDRAWAL_PLAINTEXT_SIZE then None
      else Some (from_be_bytes (take 20 plaintext), from_be_bytes (drop 20 plaintext)))))"

section \<open>The laws of the third-party operations\<close>

text \<open>Scalar multiplication is an action of the scalar field, whose elements are reduced.\<close>

definition curve_laws :: "crypto_ops \<Rightarrow> bool" where
  "curve_laws co \<longleftrightarrow>
     (\<forall>P a b. co_sub co (co_mul co P (co_scalar_add co a b)) (co_mul co P b) = co_mul co P a) \<and>
     (\<forall>P a b. co_mul co (co_mul co P a) b = co_mul co P (co_scalar_mul co a b)) \<and>
     (\<forall>a b. co_scalar_mul co a b = co_scalar_mul co b a) \<and>
     (\<forall>h. co_reduce co (co_reduce co h) = co_reduce co h) \<and>
     (\<forall>a b. co_reduce co (co_scalar_add co a b) = co_scalar_add co a b)"

text \<open>A point with an x coordinate compresses to a parity byte and it, and decodes back.\<close>

definition point_laws :: "crypto_ops \<Rightarrow> bool" where
  "point_laws co \<longleftrightarrow>
     (\<forall>P x. co_compressed_x co P = Some x \<longrightarrow>
        (\<exists>par. (par = 2 \<or> par = 3) \<and> co_compressed co P = par # to_be_bytes 32 x) \<and>
        co_decode_point co (co_compressed co P) = Some P)"

text \<open>Decrypting what was encrypted, split into ciphertext and 16-byte tag, gives the plaintext.\<close>

definition aes_laws :: "crypto_ops \<Rightarrow> bool" where
  "aes_laws co \<longleftrightarrow>
     (\<forall>k n p e. co_aes_encrypt co k n p = Some e \<longrightarrow>
        length e = length p + 16 \<and>
        co_aes_decrypt co k n (take (length p) e) [] (drop (length p) e) = Some p)"

lemma recover_compressed:
  assumes "point_laws co" and "co_compressed_x co P = Some x"
  shows "recover_point co x (hd (co_compressed co P)) = Some P"
    and "co_compressed co P = hd (co_compressed co P) # to_be_bytes 32 x"
    and "hd (co_compressed co P) = 2 \<or> hd (co_compressed co P) = 3"
proof -
  obtain par where par: "par = 2 \<or> par = 3" "co_compressed co P = par # to_be_bytes 32 x"
    and dec: "co_decode_point co (co_compressed co P) = Some P"
    using assms unfolding point_laws_def by blast
  then show "recover_point co x (hd (co_compressed co P)) = Some P"
    and "co_compressed co P = hd (co_compressed co P) # to_be_bytes 32 x"
    and "hd (co_compressed co P) = 2 \<or> hd (co_compressed co P) = 3"
    by (auto simp: recover_point_def)
qed

lemma mul_commute:
  "curve_laws co \<Longrightarrow> co_mul co (co_mul co P a) b = co_mul co (co_mul co P b) a"
  unfolding curve_laws_def by metis

section \<open>Properties\<close>

lemma cp_proof_complete:
  assumes laws: "curve_laws co" "point_laws co"
    and ecdh: "compute_ecdh_proof co priv eph_x eph_par = Some pr"
    and pub: "co_compressed_x co (co_mul co (co_generator co) priv) = Some seq_x"
  shows "cp_verify co eph_x eph_par (ep_shared_secret pr) (ep_shared_secret_y_parity pr)
           seq_x (hd (co_compressed co (co_mul co (co_generator co) priv))) (ep_cp_proof pr)"
proof -
  let ?pub = "co_mul co (co_generator co) priv"
  obtain E ss_x k where E: "recover_point co eph_x eph_par = Some E"
    and ss: "co_compressed_x co (co_mul co E priv) = Some ss_x"
    and k: "deterministic_cp_nonce co priv E ?pub (co_mul co E priv) = Some k"
    and pr: "pr = (let c = challenge_hash co E ?pub (co_mul co E priv)
                         (co_mul co (co_generator co) k) (co_mul co E k) in
        \<lparr>ep_shared_secret = ss_x, ep_shared_secret_y_parity = hd (co_compressed co (co_mul co E priv)),
         ep_cp_proof = \<lparr>cp_s = co_scalar_add co k (co_scalar_mul co c priv), cp_c = c\<rparr>\<rparr>)"
    using ecdh
    by (auto simp: compute_ecdh_proof_def generate_chaum_pedersen_proof_def Let_def
        bind_eq_Some_conv split: option.splits)
  have response: "co_sub co (co_mul co P (co_scalar_add co k (co_scalar_mul co c priv)))
      (co_mul co (co_mul co P priv) c) = co_mul co P k" for P c
    using laws(1) unfolding curve_laws_def by metis
  have red: "co_reduce co (challenge_hash co a b c d e) = challenge_hash co a b c d e" for a b c d e
    using laws(1) by (simp add: curve_laws_def challenge_hash_def)
  show ?thesis
    using E recover_compressed(1) [OF laws(2) ss] recover_compressed(1) [OF laws(2) pub] laws(1)
    by (simp add: cp_verify_def pr Let_def red response curve_laws_def)
qed

text \<open>
  C20. The sequencer can always prove its shared secret: for every ephemeral key for which the
  proof computation returns, the Chaum-Pedersen verifier accepts the proof against the
  sequencer's public key.
\<close>

theorem compute_ecdh_proof_verifies:
  assumes "curve_laws co" and "point_laws co"
    and "compute_ecdh_proof co priv eph_x eph_par = Some pr"
    and "co_compressed_x co (co_mul co (co_generator co) priv) \<noteq> None"
    and "compressed_x_and_parity co (co_mul co (co_generator co) priv) = (seq_x, seq_par)"
  shows "cp_verify co eph_x eph_par (ep_shared_secret pr) (ep_shared_secret_y_parity pr)
           seq_x seq_par (ep_cp_proof pr)"
  using cp_proof_complete [OF assms(1-3)] assms(4,5) by (auto simp: compressed_x_and_parity_def)

lemma decrypt_encrypt_deposit:
  assumes laws: "curve_laws co" "point_laws co" "aes_laws co"
    and pub: "co_compressed_x co (co_mul co (co_generator co) priv) = Some seq_x"
    and eph: "co_compressed_x co (co_mul co (co_generator co) e) \<noteq> None"
    and enc: "encrypt_deposit co e nonce seq_x (hd (co_compressed co (co_mul co (co_generator co) priv)))
                to memo sender portal key_index = Some a"
    and ecdh: "compute_ecdh_proof co priv (ed_eph_pub_x a) (ed_eph_pub_y_parity a) = Some pr"
  shows "decrypt_deposit co priv (ed_eph_pub_x a) (ed_eph_pub_y_parity a) (ed_ciphertext a)
           (ed_nonce a) (ed_tag a) portal key_index sender =
         Some \<lparr>dd_proof = pr, dd_to = to, dd_memo = memo\<rparr>"
proof -
  let ?G = "co_generator co"
  obtain eph_x where eph_x: "co_compressed_x co (co_mul co ?G e) = Some eph_x" using eph by auto
  note E = recover_compressed [OF laws(2) eph_x] and S = recover_compressed [OF laws(2) pub]
  obtain ss c where ss: "co_compressed_x co (co_mul co (co_mul co ?G priv) e) = Some ss"
    and c: "co_aes_encrypt co (hkdf_sha256 co (to_be_bytes 32 ss) (ascii ''ecies-aes-key'')
        (hkdf_info portal key_index eph_x sender)) nonce (build_plaintext to memo) = Some c"
    and a: "a = \<lparr>ed_eph_pub_x = eph_x, ed_eph_pub_y_parity = hd (co_compressed co (co_mul co ?G e)),
      ed_ciphertext = take (length c - 16) c, ed_nonce = nonce, ed_tag = drop (length c - 16) c\<rparr>"
    using enc S(1)
    by (auto simp: encrypt_deposit_def compressed_x_and_parity_def eph_x Let_def
        bind_eq_Some_conv)
  have "ep_shared_secret pr = ss"
    using ecdh E(1) ss mul_commute [OF laws(1), of ?G e priv]
    by (auto simp: a compute_ecdh_proof_def Let_def bind_eq_Some_conv)
  moreover have "length (build_plaintext to memo) = 64"
    by (simp add: build_plaintext_def)
  moreover have "length c = 80" "co_aes_decrypt co (hkdf_sha256 co (to_be_bytes 32 ss)
      (ascii ''ecies-aes-key'') (hkdf_info portal key_index eph_x sender)) nonce (take 64 c) []
      (drop 64 c) = Some (build_plaintext to memo)"
    using laws(3) c calculation(2) unfolding aes_laws_def by fastforce+
  ultimately show ?thesis
    using ecdh
    by (simp add: decrypt_deposit_def a aes_gcm_decrypt_def ENCRYPTED_PAYLOAD_PLAINTEXT_SIZE_def)
      (simp add: build_plaintext_def)
qed

text \<open>
  C21. Deposits decrypt: what a depositor encrypts to the sequencer's public key, the sequencer
  decrypts to the same recipient and memo, for any ephemeral key and nonce, as soon as the proof
  of the shared secret can be computed.
\<close>

theorem encrypt_deposit_round_trip:
  assumes "curve_laws co" and "point_laws co" and "aes_laws co"
    and "co_compressed_x co (co_mul co (co_generator co) priv) \<noteq> None"
    and "compressed_x_and_parity co (co_mul co (co_generator co) priv) = (seq_x, seq_par)"
    and "co_compressed_x co (co_mul co (co_generator co) e) \<noteq> None"
    and "encrypt_deposit co e nonce seq_x seq_par to memo sender portal key_index = Some a"
    and "compute_ecdh_proof co priv (ed_eph_pub_x a) (ed_eph_pub_y_parity a) = Some pr"
  shows "\<exists>d. decrypt_deposit co priv (ed_eph_pub_x a) (ed_eph_pub_y_parity a) (ed_ciphertext a)
           (ed_nonce a) (ed_tag a) portal key_index sender = Some d
         \<and> dd_to d = to \<and> dd_memo d = memo"
  using decrypt_encrypt_deposit [OF assms(1-3) _ assms(6) _ assms(8)] assms(4,5,7)
  by (auto simp: compressed_x_and_parity_def)

text \<open>
  C22. A revealed sender decrypts: the encrypted sender attached to an authenticated withdrawal has
  the fixed size the outbox requires, and the holder of the reveal key recovers from it the sender
  and the transaction hash.
\<close>

theorem authenticated_withdrawal_round_trip:
  assumes laws: "curve_laws co" "point_laws co" "aes_laws co"
    and pub: "co_compressed_x co (co_mul co (co_generator co) priv) \<noteq> None"
    and eph: "co_compressed_x co (co_mul co (co_generator co) e) \<noteq> None"
    and nonce: "length nonce = 12"
    and enc: "encrypt_authenticated_withdrawal_with_material co
                (co_compressed co (co_mul co (co_generator co) priv)) sender tx_hash e nonce = Some out"
  shows "length out = AUTHENTICATED_WITHDRAWAL_ENCRYPTED_SIZE
    \<and> decrypt_authenticated_withdrawal co priv out = Some (sender, tx_hash)"
proof -
  let ?G = "co_generator co"
  obtain eph_x where eph_x: "co_compressed_x co (co_mul co ?G e) = Some eph_x" using eph by auto
  obtain seq_x where seq_x: "co_compressed_x co (co_mul co ?G priv) = Some seq_x" using pub by auto
  obtain par where par: "hd (co_compressed co (co_mul co ?G e)) = par" by blast
  note E = recover_compressed [OF laws(2) eph_x, unfolded par]
    and S = recover_compressed [OF laws(2) seq_x]
  let ?eph = "par # to_be_bytes 32 eph_x"
  let ?p = "authenticated_sender_plaintext sender tx_hash"
  have reveal: "decode_compressed_public_key co (co_compressed co (co_mul co ?G priv))
      = Some (co_mul co ?G priv)"
    using S(1,3) by (subst S(2)) (simp add: decode_compressed_public_key_def COMPRESSED_PUBLIC_KEY_SIZE_def)
  obtain ss c where ss: "co_compressed_x co (co_mul co (co_mul co ?G e) priv) = Some ss"
    and c: "co_aes_encrypt co (hkdf_sha256 co (to_be_bytes 32 ss)
        (ascii ''authenticated-withdrawal-aes-key'') (authenticated_withdrawal_hkdf_info ?eph))
        nonce ?p = Some c"
    and out: "out = ?eph @ nonce @ take (length c - 16) c @ drop (length c - 16) c"
    using enc mul_commute [OF laws(1), of ?G e priv]
    by (auto simp: encrypt_authenticated_withdrawal_with_material_def reveal E(2)
        build_authenticated_withdrawal_plaintext_def Let_def bind_eq_Some_conv split: if_splits)
  have len: "length ?p = 52" by (simp add: authenticated_sender_plaintext_def)
  then have lc: "length c = 68" and dec: "co_aes_decrypt co (hkdf_sha256 co (to_be_bytes 32 ss)
        (ascii ''authenticated-withdrawal-aes-key'') (authenticated_withdrawal_hkdf_info ?eph))
        nonce (take 52 c) [] (drop 52 c) = Some ?p"
    using laws(3) c unfolding aes_laws_def by fastforce+
  have parts: "length out = 113" "hd out = par"
    "take 32 (drop 1 out) = to_be_bytes 32 eph_x" "take 12 (drop 33 out) = nonce"
    "take 52 (drop 45 out) = take 52 c" "take 16 (drop 97 out) = drop 52 c"
    using nonce lc by (simp_all add: out)
  show ?thesis
    using parts E(1,3) ss dec len lc
    by (simp add: decrypt_authenticated_withdrawal_def AUTHENTICATED_WITHDRAWAL_ENCRYPTED_SIZE_def
        COMPRESSED_PUBLIC_KEY_SIZE_def AUTHENTICATED_WITHDRAWAL_PLAINTEXT_SIZE_def
        aes_gcm_decrypt_def Let_def)
      (simp add: authenticated_sender_plaintext_def)
qed

section \<open>Witnesses\<close>

text \<open>
  An instance of the laws: the additive group of 256-bit words with generator one, where a point
  is its own x coordinate, and a cipher that appends a zero tag.
\<close>

fun toy_mul :: "affine_point \<Rightarrow> scalar \<Rightarrow> affine_point" where
  "toy_mul None s = None"
| "toy_mul (Some (x, y)) s = Some (x * s, 0)"

fun toy_sub :: "affine_point \<Rightarrow> affine_point \<Rightarrow> affine_point" where
  "toy_sub (Some (x, y)) (Some (x', y')) = Some (x - x', 0)"
| "toy_sub P Q = None"

definition toy_crypto :: crypto_ops where
  "toy_crypto =
     \<lparr>co_sha256 = (\<lambda>bs. replicate 32 1), co_keccak = (\<lambda>bs. 5), co_generator = Some (1, 0),
      co_mul = toy_mul, co_sub = toy_sub, co_scalar_add = (+), co_scalar_mul = (*),
      co_reduce = id, co_secret_key = (\<lambda>bs. Some 9),
      co_decode_point = (\<lambda>bs. Some (Some (from_be_bytes (tl bs), 0))),
      co_compressed = (\<lambda>P. case P of None \<Rightarrow> [0] | Some (x, y) \<Rightarrow> 2 # to_be_bytes 32 x),
      co_uncompressed = (\<lambda>P. [4]),
      co_compressed_x = (\<lambda>P. case P of Some (x, y) \<Rightarrow> if y = 0 then Some x else None | None \<Rightarrow> None),
      co_aes_encrypt = (\<lambda>k n p. Some (p @ replicate 16 0)),
      co_aes_decrypt = (\<lambda>k n c aad t. if t = replicate 16 0 then Some c else None)\<rparr>"

lemma toy_laws: "curve_laws toy_crypto" "point_laws toy_crypto" "aes_laws toy_crypto"
proof -
  have "toy_sub (toy_mul P (a + b)) (toy_mul P b) = toy_mul P a" for P a b
    by (cases P) (auto simp: distrib_left)
  moreover have "toy_mul (toy_mul P a) b = toy_mul P (a * b)" for P a b
    by (cases P) (auto simp: mult.assoc)
  ultimately show "curve_laws toy_crypto"
    by (simp add: curve_laws_def toy_crypto_def mult.commute)
  show "point_laws toy_crypto" "aes_laws toy_crypto"
    by (auto simp: point_laws_def aes_laws_def toy_crypto_def split: option.splits if_splits)
qed

lemma toy_scalar: "scalar_candidates toy_crypto key input n counter = (if n = 0 then None else Some 9)"
  by (simp add: toy_crypto_def)

lemma toy_proof:
  "compute_ecdh_proof toy_crypto 3 7 2 = Some \<lparr>ep_shared_secret = 21, ep_shared_secret_y_parity = 2,
     ep_cp_proof = \<lparr>cp_s = 24, cp_c = 5\<rparr>\<rparr>"
  by (simp add: compute_ecdh_proof_def generate_chaum_pedersen_proof_def deterministic_cp_nonce_def
      toy_scalar del: scalar_candidates.simps)
    (simp add: toy_crypto_def recover_point_def challenge_hash_def)

lemma toy_pub:
  "co_compressed_x toy_crypto (co_mul toy_crypto (co_generator toy_crypto) s) = Some s"
  "compressed_x_and_parity toy_crypto (co_mul toy_crypto (co_generator toy_crypto) s) = (s, 2)"
  by (simp_all add: toy_crypto_def compressed_x_and_parity_def)

theorem compute_ecdh_proof_verifies_witness:
  "cp_verify toy_crypto 7 2 21 2 3 2 \<lparr>cp_s = 24, cp_c = 5\<rparr>"
  using compute_ecdh_proof_verifies [OF toy_laws(1,2) toy_proof _ toy_pub(2)] by (simp add: toy_pub)

theorem encrypt_deposit_round_trip_witness:
  "\<exists>a d. encrypt_deposit toy_crypto 7 [1] 3 2 0xabc 0xdef 11 12 0 = Some a
     \<and> decrypt_deposit toy_crypto 3 (ed_eph_pub_x a) (ed_eph_pub_y_parity a) (ed_ciphertext a)
         (ed_nonce a) (ed_tag a) 12 0 11 = Some d \<and> dd_to d = 0xabc \<and> dd_memo d = 0xdef"
proof -
  obtain a where a: "encrypt_deposit toy_crypto 7 [1] 3 2 0xabc 0xdef 11 12 0 = Some a"
    and eph: "ed_eph_pub_x a = 7" "ed_eph_pub_y_parity a = 2"
    by (simp add: encrypt_deposit_def toy_crypto_def recover_point_def compressed_x_and_parity_def)
  show ?thesis
    using encrypt_deposit_round_trip [OF toy_laws _ toy_pub(2) _ a, unfolded eph, OF _ _ toy_proof]
      a eph toy_pub(1) by auto
qed

theorem authenticated_withdrawal_round_trip_witness:
  "\<exists>out. encrypt_authenticated_withdrawal_with_material toy_crypto
           (co_compressed toy_crypto (co_mul toy_crypto (co_generator toy_crypto) 3))
           0xabc 0xdef 7 (replicate 12 0) = Some out
     \<and> decrypt_authenticated_withdrawal toy_crypto 3 out = Some (0xabc, 0xdef)"
proof -
  obtain out where out: "encrypt_authenticated_withdrawal_with_material toy_crypto
           (co_compressed toy_crypto (co_mul toy_crypto (co_generator toy_crypto) 3))
           0xabc 0xdef 7 (replicate 12 0) = Some out"
    by (simp add: encrypt_authenticated_withdrawal_with_material_def toy_crypto_def
        decode_compressed_public_key_def COMPRESSED_PUBLIC_KEY_SIZE_def recover_point_def)
  show ?thesis
    using authenticated_withdrawal_round_trip [OF toy_laws _ _ _ out] out toy_pub(1) by simp
qed

end
