(* ===== verification/Zone_Context.thy ===== *)
theory Zone_Context
  imports Zone_Effects Ecies
begin

text \<open>
  What the zone precompiles share: their error and event types
  (\<open>crates/precompiles/src/error.rs\<close>, the ABI modules under \<open>crates/contracts/src/precompiles\<close>),
  the execution context a call runs in, and the third-party code the precompiles call, as a record
  of parameters.

  The context is an extensible record: the inbox and outbox theories add their own storage. Token
  and transfer-policy storage belongs to the upstream token precompiles and is the abstract
  component \<open>zc_tokens\<close>. Gas is charged here only for reads of L1 storage, which is the metering
  this repository implements; the metering of local storage is upstream code.
\<close>

section \<open>Errors\<close>

datatype L1StateError =
    StorageUnavailable address b256 u64 string
  | AnchorConflict u64 u64
  | AdvanceTempoConflict u64 u64

text \<open>A formatted message is kept as the value it formats.\<close>

datatype fatal_text = FatalText string | FatalL1 L1StateError

text \<open>
  The upstream error type: the values this repository constructs or inspects by name, and a
  constructor for all the others.
\<close>

datatype TempoPrecompileError =
    UnderOverflow
  | OutOfGas
  | Fatal fatal_text
  | TIP20Uninitialized
  | TIP20PolicyForbids
  | OtherTempo nat

datatype ZoneOutboxError =
    OutboxOnlySequencer
  | OnlyZoneInbox
  | InvalidFallbackRecipient
  | ZeroAmountWithdrawal
  | CallbackDataTooLarge
  | GasLimitTooHigh
  | InvalidCurrentTxHash
  | InvalidRevealTo
  | TransferFailed
  | TooManyWithdrawalsThisBlock
  | InvalidBlockNumber
  | InvalidWithdrawalCount u256 u256
  | InvalidEncryptedSenderCount u256 u256
  | InvalidEncryptedSenderLength u256 u256
  | GasFeeRateTooHigh

datatype ZonePortalError =
    TokenNotEnabled
  | PortalIsPaused
  | InvalidCallbackTarget
  | AccountNotAllowed address

datatype TempoStateError =
    InvalidRlpData
  | InvalidParentHash
  | InvalidTempoBlockNumber
  | InvalidTimestamp

datatype ZoneInboxError =
    InboxOnlySequencer
  | InvalidDepositQueueHash
  | InvalidTokenEnablementHash
  | MissingDecryptionData
  | ExtraDecryptionData
  | InvalidSharedSecretProof
  | InboxUnauthorized

datatype ZonePrecompileError =
    Tempo TempoPrecompileError
  | L1StateErr L1StateError
  | Portal ZonePortalError
  | Outbox ZoneOutboxError
  | TempoStateErr TempoStateError
  | Inbox ZoneInboxError
  | MalformedCalldata

section \<open>Events\<close>

datatype zone_event =
    WithdrawalRequestedEvent WithdrawalRequested
  | BatchFinalized b256 u64
  | TempoGasRateUpdated u128
  | MaxWithdrawalsPerBlockUpdated u32
  | TempoBlockFinalized b256 u64 b256
  | TokenEnabled address string string string
  | DepositProcessed b256 address address address u128 b256
  | DepositFailed b256 address address u128
  | WithdrawalBounceBackProcessed address address u128
  | WithdrawalBounceBackPending address address u128
  | RefundClaimed address address u128
  | TempoAdvanced b256 u64 u256 b256 u64 u64
  | LegacyTempoAdvanced b256 u64 u256 b256 u64

section \<open>Deposits\<close>

record DepositPayload =
  pay_ephemeralPubkeyX :: b256
  pay_ephemeralPubkeyYParity :: u8
  pay_ciphertext :: bytes
  pay_nonce :: bytes
  pay_tag :: bytes

record Deposit =
  dp_token :: address
  dp_sender :: address
  dp_amount :: u128
  dp_tempoRefundRecipient :: address
  dp_keyIndex :: u256
  dp_encrypted :: DepositPayload

record WithdrawalBounceBackDeposit =
  wb_token :: address
  wb_to :: address
  wb_amount :: u128

record EnabledToken =
  et_token :: address
  et_name :: string
  et_symbol :: string
  et_currency :: string

text \<open>The ABI enum as its byte: zero is a bounce-back, one a deposit, others do not decode.\<close>

datatype DepositType = BounceBackType | DepositKind | InvalidDepositType u8

record QueuedDeposit =
  qd_depositType :: DepositType
  qd_depositData :: bytes
  qd_rejected :: bool

record DecryptionData =
  dec_sharedSecret :: b256
  dec_sharedSecretYParity :: u8
  dec_cpProof :: ChaumPedersenProof

datatype DecodedQueuedDeposit =
    DecodedBounceBack WithdrawalBounceBackDeposit
  | DecodedDeposit Deposit

section \<open>Execution context\<close>

datatype Role = RoleNone | Sequencer | Account | CallbackGateway | PauseGuardian

fun role_u8 :: "Role \<Rightarrow> u8" where
  "role_u8 RoleNone = 0"
| "role_u8 Sequencer = 1"
| "role_u8 Account = 2"
| "role_u8 CallbackGateway = 3"
| "role_u8 PauseGuardian = 4"

text \<open>\<open>L1State\<close>: the anchor and the warm slots of the current transaction attempt.\<close>

record L1State =
  anchor :: "u64 option"
  access_set :: "(address \<times> b256) set"

text \<open>\<open>TempoState\<close>: the checkpoint in zone storage.\<close>

record TempoState =
  tempo_block_hash :: b256
  tempo_block_number :: u64

record 'w zone_ctx =
  zc_l1 :: L1State
  zc_gas :: u64
  zc_tempo :: TempoState
  zc_tokens :: 'w
  zc_events :: "zone_event list"

text \<open>A typed slot of an L1 account: where it is and how its word decodes.\<close>

type_synonym 'a l1slot = "b256 \<times> (b256 \<Rightarrow> TempoPrecompileError + 'a)"

text \<open>The storage layout of the \<open>ZonePortal\<close>, generated by an upstream crate.\<close>

record portal_layout =
  pl_token_enabled :: "address \<Rightarrow> bool l1slot"
  pl_pause_expiry :: "u64 l1slot"
  pl_is_access_enforced :: "bool l1slot"
  pl_is_gateway_enforced :: "bool l1slot"
  pl_role :: "address \<Rightarrow> u8 l1slot"
  pl_max_tempo_gas_rate :: "u128 l1slot"
  pl_token_enablement_hash :: "b256 l1slot"
  pl_enabled_tokens_len :: "u256 l1slot"
  pl_current_deposit_queue_hash :: "b256 l1slot"
  pl_encryption_key_x :: "nat \<Rightarrow> b256 l1slot"
  pl_encryption_key_y_parity :: "nat \<Rightarrow> u8 l1slot"

record TempoHeader =
  th_parent_hash :: b256
  th_number :: u64
  th_state_root :: b256
  th_timestamp :: u64
  th_timestamp_millis_part :: u64

text \<open>The upstream token and policy precompiles, over their own storage \<open>'w\<close>.\<close>

record 'w token_ops =
  tk_from_address :: "address \<Rightarrow> TempoPrecompileError + unit"
  tk_is_initialized :: "address \<Rightarrow> ('w, TempoPrecompileError, bool) eff"
  tk_transfer_from ::
    "address \<Rightarrow> address \<Rightarrow> address \<Rightarrow> address \<Rightarrow> u256 \<Rightarrow> ('w, TempoPrecompileError, bool) eff"
  tk_burn :: "address \<Rightarrow> address \<Rightarrow> u256 \<Rightarrow> ('w, TempoPrecompileError, unit) eff"
  tk_mint :: "address \<Rightarrow> address \<Rightarrow> address \<Rightarrow> u256 \<Rightarrow> ('w, TempoPrecompileError, unit) eff"
  tk_initialize ::
    "address \<Rightarrow> address \<Rightarrow> string \<Rightarrow> string \<Rightarrow> string \<Rightarrow> ('w, TempoPrecompileError, unit) eff"
  tk_grant_issuer :: "address \<Rightarrow> address \<Rightarrow> ('w, TempoPrecompileError, unit) eff"
  tk_transfer_policy :: "address \<Rightarrow> ('w, TempoPrecompileError, b256) eff"
  tk_set_transfer_policy :: "address \<Rightarrow> b256 \<Rightarrow> ('w, TempoPrecompileError, unit) eff"
  tk_validate_receive_policy ::
    "address \<Rightarrow> address \<Rightarrow> address \<Rightarrow> ('w, TempoPrecompileError, nat option) eff"
  tk_is_system_error :: "TempoPrecompileError \<Rightarrow> bool"

text \<open>What a call cannot change: the block, the hardfork, and the third-party code.\<close>

record 'w zone_env =
  ze_portal :: address
  ze_reader :: "address \<Rightarrow> b256 \<Rightarrow> u64 \<Rightarrow> L1StateError + b256"
  ze_layout :: portal_layout
  ze_deduct_gas :: "u64 \<Rightarrow> u64 \<Rightarrow> TempoPrecompileError + u64"
  ze_warm_cost :: u64
  ze_cold_cost :: u64
  ze_block_number :: u64
  ze_timestamp :: u64
  ze_timestamp_millis :: u256
  ze_is_t13 :: bool
  ze_keccak :: keccak
  ze_withdrawal_enc :: withdrawal_enc
  ze_decode_header :: "bytes \<Rightarrow> (TempoHeader \<times> bytes) option"
  ze_decode_bounce_back :: "bytes \<Rightarrow> WithdrawalBounceBackDeposit option"
  ze_decode_deposit :: "bytes \<Rightarrow> Deposit option"
  ze_deposit_enc :: "DecodedQueuedDeposit \<Rightarrow> b256 \<Rightarrow> bytes"
  ze_enabled_token_enc :: "b256 \<Rightarrow> EnabledToken \<Rightarrow> bytes"
  ze_sinc :: "u256 \<Rightarrow> u256 \<Rightarrow> TempoPrecompileError + u256"
  ze_load_u128 :: "u256 \<Rightarrow> TempoPrecompileError + u128"
  ze_crypto :: crypto_ops
  ze_tokens :: "'w token_ops"

section \<open>Addresses\<close>

definition TEMPO_STATE_ADDRESS :: address where
  "TEMPO_STATE_ADDRESS = 0x1c00000000000000000000000000000000000000"

definition ZONE_INBOX_ADDRESS :: address where
  "ZONE_INBOX_ADDRESS = 0x1c00000000000000000000000000000000000001"

definition ZONE_OUTBOX_ADDRESS :: address where
  "ZONE_OUTBOX_ADDRESS = 0x1c00000000000000000000000000000000000002"

definition ZONE_FEE_MANAGER_ADDRESS :: address where
  "ZONE_FEE_MANAGER_ADDRESS = 0xfeec000000000000000000000000000000000001"

section \<open>Laws of the token precompiles\<close>

text \<open>
  The laws the value properties rely on, for a measure \<open>supply\<close> of the token storage: a transfer
  and a query keep every supply, a burn lowers and a mint raises one supply by the amount.
\<close>

definition token_supply_laws :: "'w token_ops \<Rightarrow> ('w \<Rightarrow> address \<Rightarrow> nat) \<Rightarrow> bool" where
  "token_supply_laws ops supply \<longleftrightarrow>
     (\<forall>t w b w'. tk_is_initialized ops t w = (Inr b, w') \<longrightarrow> supply w' = supply w) \<and>
     (\<forall>t a b w r w'. tk_validate_receive_policy ops t a b w = (r, w') \<longrightarrow> supply w' = supply w) \<and>
     (\<forall>t s a b n w r w'. tk_transfer_from ops t s a b n w = (Inr r, w') \<longrightarrow> supply w' = supply w) \<and>
     (\<forall>t a n w w'. tk_burn ops t a n w = (Inr (), w') \<longrightarrow>
        (\<forall>t'. supply w' t' + (if t' = t then unat n else 0) = supply w t')) \<and>
     (\<forall>t s b n w w'. tk_mint ops t s b n w = (Inr (), w') \<longrightarrow>
        (\<forall>t'. supply w' t' = supply w t' + (if t' = t then unat n else 0)))"

lemma token_supply_lawsD:
  assumes "token_supply_laws ops supply"
  shows "tk_is_initialized ops t w = (Inr ok, w') \<Longrightarrow> supply w' = supply w"
    and "tk_validate_receive_policy ops t a b w = (r, w') \<Longrightarrow> supply w' = supply w"
    and "tk_transfer_from ops t s a b n w = (Inr ok, w') \<Longrightarrow> supply w' = supply w"
    and "tk_burn ops t a n w = (Inr (), w') \<Longrightarrow>
           supply w' t' + (if t' = t then unat n else 0) = supply w t'"
    and "tk_mint ops t s b n w = (Inr (), w') \<Longrightarrow>
           supply w' t' = supply w t' + (if t' = t then unat n else 0)"
  using assms unfolding token_supply_laws_def by metis+

section \<open>Helpers\<close>

definition emit_event :: "zone_event \<Rightarrow> (('w, 'x) zone_ctx_scheme, 'e, unit) eff" where
  "emit_event ev = emodify (\<lambda>c. c\<lparr>zc_events := zc_events c @ [ev]\<rparr>)"

text \<open>A call into the upstream token code, with its error lifted.\<close>

definition on_tokens ::
  "('w, TempoPrecompileError, 'a) eff \<Rightarrow> (('w, 'x) zone_ctx_scheme, ZonePrecompileError, 'a) eff"
where
  "on_tokens m = emap_err Tempo (ezoom zc_tokens (\<lambda>w c. c\<lparr>zc_tokens := w\<rparr>) m)"

lemma emit_event_run [simp]:
  "emit_event ev c = (Inr (), c\<lparr>zc_events := zc_events c @ [ev]\<rparr>)"
  by (simp add: emit_event_def)

lemma on_tokens_Inr [simp]:
  "on_tokens m c = (Inr y, c') \<longleftrightarrow> (\<exists>w. m (zc_tokens c) = (Inr y, w) \<and> c' = c\<lparr>zc_tokens := w\<rparr>)"
  by (simp add: on_tokens_def)

end
