(* ===== verification/Op_System.thy ===== *)
theory Op_System
  imports Main
begin

text \<open>
  Sequences of operations. A component that is driven from outside, one call after another, is an
  operation system: its invariant is kept by any sequence of calls as soon as every single call
  keeps it, and a preorder every call respects relates the two ends of any sequence. The locales
  are interpreted by the components that have such an interface.
\<close>

locale op_system =
  fixes exec :: "'o \<Rightarrow> 's \<Rightarrow> 's"
    and inv :: "'s \<Rightarrow> bool"
  assumes exec_inv: "inv s \<Longrightarrow> inv (exec op s)"
begin

lemma run_inv: "inv s \<Longrightarrow> inv (fold exec ops s)"
  by (induction ops arbitrary: s) (auto intro: exec_inv)

end

text \<open>
  An operation system whose calls also move the state up in a preorder, as long as the invariant
  holds.
\<close>

locale progress_system = op_system exec inv
  for exec :: "'o \<Rightarrow> 's \<Rightarrow> 's" and inv :: "'s \<Rightarrow> bool" +
  fixes below :: "'s \<Rightarrow> 's \<Rightarrow> bool"
  assumes below_refl: "below s s"
    and below_trans: "below s t \<Longrightarrow> below t u \<Longrightarrow> below s u"
    and exec_below: "inv s \<Longrightarrow> below s (exec op s)"
begin

lemma run_below: "inv s \<Longrightarrow> below s (fold exec ops s)"
proof (induction ops arbitrary: s)
  case Nil
  then show ?case by (simp add: below_refl)
next
  case (Cons op ops)
  then have "below (exec op s) (fold exec ops (exec op s))" by (simp add: exec_inv)
  then show ?case using exec_below [OF Cons.prems] by (auto intro: below_trans)
qed

end

end
