(* ===== verification/L1_State.thy ===== *)
theory L1_State
  imports Zone_Context Op_System
begin

text \<open>
  Anchored reads of Tempo L1 storage (\<open>crates/precompiles/src/storage.rs\<close>): the anchor of a
  transaction attempt, its selection by the first read or by checkpoint advancement, the
  cold/warm charge, and typed reads of the \<open>ZonePortal\<close>.

  The provider \<open>read_l1_storage\<close> of \<open>L1StorageReader\<close> is the parameter \<open>ze_reader\<close>; slots and
  their decoding come from the upstream storage layout (\<open>portal_layout\<close>).
\<close>

section \<open>The anchor\<close>

definition L1State_new :: L1State where
  "L1State_new = \<lparr>anchor = None, access_set = {}\<rparr>"

definition reset_transaction_state :: "L1State \<Rightarrow> L1State" where
  "reset_transaction_state l1 = l1\<lparr>anchor := None, access_set := {}\<rparr>"

definition set_anchor :: "u64 \<Rightarrow> (L1State, L1StateError, unit) eff" where
  "set_anchor new l1 =
     (case anchor l1 of
        None \<Rightarrow> (Inr (), l1\<lparr>anchor := Some new\<rparr>)
      | Some current \<Rightarrow>
          if current = new then (Inr (), l1) else (Inl (AnchorConflict current new), l1))"

definition advance_anchor :: "u64 \<Rightarrow> u64 \<Rightarrow> (L1State, L1StateError, unit) eff" where
  "advance_anchor from to l1 =
     (if to \<le> from then (Inl (AdvanceTempoConflict from to), l1)
      else case anchor l1 of
        Some current \<Rightarrow> (Inl (AnchorConflict current to), l1)
      | None \<Rightarrow> (Inr (), l1\<lparr>anchor := Some to\<rparr>))"

section \<open>Reads\<close>

definition read_l1_storage_unmetered ::
  "(address \<Rightarrow> b256 \<Rightarrow> u64 \<Rightarrow> L1StateError + b256) \<Rightarrow> address \<Rightarrow> b256 \<Rightarrow> u64
   \<Rightarrow> (L1State, L1StateError, b256) eff" where
  "read_l1_storage_unmetered reader account slot block_number =
     eseq (set_anchor block_number) (elift (reader account slot block_number))"

definition deduct_gas ::
  "'w zone_env \<Rightarrow> u64 \<Rightarrow> (('w, 'x) zone_ctx_scheme, TempoPrecompileError, unit) eff" where
  "deduct_gas env cost c =
     (case ze_deduct_gas env cost (zc_gas c) of
        Inl e \<Rightarrow> (Inl e, c) | Inr g \<Rightarrow> (Inr (), c\<lparr>zc_gas := g\<rparr>))"

definition on_l1 ::
  "(L1State, 'e, 'a) eff \<Rightarrow> (('w, 'x) zone_ctx_scheme, 'e, 'a) eff" where
  "on_l1 m = ezoom zc_l1 (\<lambda>l1 c. c\<lparr>zc_l1 := l1\<rparr>) m"

definition read_l1_storage ::
  "'w zone_env \<Rightarrow> address \<Rightarrow> b256 \<Rightarrow> u64
   \<Rightarrow> (('w, 'x) zone_ctx_scheme, TempoPrecompileError, b256) eff" where
  "read_l1_storage env account slot block_number =
     ebind (eget (\<lambda>c. if (account, slot) \<in> access_set (zc_l1 c)
                       then ze_warm_cost env else ze_cold_cost env)) (\<lambda>gas_cost.
     eseq (deduct_gas env gas_cost)
    (ebind (emap_err (\<lambda>e. Fatal (FatalL1 e))
             (on_l1 (read_l1_storage_unmetered (ze_reader env) account slot block_number))) (\<lambda>value.
     eseq (on_l1 (emodify (\<lambda>l1. l1\<lparr>access_set := insert (account, slot) (access_set l1)\<rparr>)))
          (ereturn value))))"

text \<open>
  \<open>L1Storage::load\<close>: the selected anchor, or the stored checkpoint for the first read. The store
  operation of the adapter only fails.
\<close>

definition l1_storage_load ::
  "'w zone_env \<Rightarrow> address \<Rightarrow> b256 \<Rightarrow> (('w, 'x) zone_ctx_scheme, TempoPrecompileError, b256) eff" where
  "l1_storage_load env account slot =
     ebind (eget (\<lambda>c. case anchor (zc_l1 c) of
                        Some a \<Rightarrow> a | None \<Rightarrow> tempo_block_number (zc_tempo c)))
       (read_l1_storage env account slot)"

definition l1_storage_store ::
  "b256 \<Rightarrow> b256 \<Rightarrow> (('w, 'x) zone_ctx_scheme, TempoPrecompileError, unit) eff" where
  "l1_storage_store slot value = efail (Fatal (FatalText ''L1 storage is read-only''))"

definition read_l1 ::
  "'w zone_env \<Rightarrow> address \<Rightarrow> 'a l1slot \<Rightarrow> (('w, 'x) zone_ctx_scheme, TempoPrecompileError, 'a) eff" where
  "read_l1 env account s =
     ebind (l1_storage_load env account (fst s)) (\<lambda>value. elift (snd s value))"

definition read_portal ::
  "'w zone_env \<Rightarrow> (portal_layout \<Rightarrow> 'a l1slot)
   \<Rightarrow> (('w, 'x) zone_ctx_scheme, ZonePrecompileError, 'a) eff" where
  "read_portal env select_slot =
     emap_err Tempo (read_l1 env (ze_portal env) (select_slot (ze_layout env)))"

definition read_portal_vec_len ::
  "'w zone_env \<Rightarrow> (portal_layout \<Rightarrow> u256 l1slot)
   \<Rightarrow> (('w, 'x) zone_ctx_scheme, ZonePrecompileError, nat) eff" where
  "read_portal_vec_len env select =
     ebind (read_portal env select) (\<lambda>len.
       if unat len < 2 ^ 64 then ereturn (unat len) else efail (Tempo UnderOverflow))"

definition has_portal_role ::
  "'w zone_env \<Rightarrow> address \<Rightarrow> Role \<Rightarrow> (('w, 'x) zone_ctx_scheme, ZonePrecompileError, bool) eff" where
  "has_portal_role env account expected =
     ebind (read_portal env (\<lambda>p. pl_role p account)) (\<lambda>r. ereturn (r = role_u8 expected))"

section \<open>What a read may change\<close>

text \<open>
  Reading L1 storage touches the L1 bookkeeping and the gas only, and an anchor once selected
  stays.
\<close>

definition l1_only :: "('w, 'x) zone_ctx_scheme \<Rightarrow> ('w, 'x) zone_ctx_scheme \<Rightarrow> bool" where
  "l1_only c c' \<longleftrightarrow> c' = c\<lparr>zc_l1 := zc_l1 c', zc_gas := zc_gas c'\<rparr> \<and>
     (\<forall>a. anchor (zc_l1 c) = Some a \<longrightarrow> anchor (zc_l1 c') = Some a)"

lemma l1_only_refl [simp]: "reflp l1_only"
  by (auto simp: reflp_def l1_only_def)

lemma l1_only_trans [simp]: "transp l1_only"
proof (rule transpI)
  fix c d e :: "('w, 'x) zone_ctx_scheme"
  assume cd: "l1_only c d" and de: "l1_only d e"
  have "e = d\<lparr>zc_l1 := zc_l1 e, zc_gas := zc_gas e\<rparr>" using de by (simp only: l1_only_def)
  also have "d = c\<lparr>zc_l1 := zc_l1 d, zc_gas := zc_gas d\<rparr>" using cd by (simp only: l1_only_def)
  finally have "e = c\<lparr>zc_l1 := zc_l1 e, zc_gas := zc_gas e\<rparr>" by simp
  then show "l1_only c e" using cd de unfolding l1_only_def by simp
qed

lemma l1_onlyD:
  assumes "l1_only c c'"
  shows "zc_tempo c' = zc_tempo c" and "zc_tokens c' = zc_tokens c" and "zc_events c' = zc_events c"
    and "zone_ctx.more c' = zone_ctx.more c"
proof -
  have e: "c' = c\<lparr>zc_l1 := zc_l1 c', zc_gas := zc_gas c'\<rparr>" using assms by (simp only: l1_only_def)
  show "zc_tempo c' = zc_tempo c" "zc_tokens c' = zc_tokens c" "zc_events c' = zc_events c"
    "zone_ctx.more c' = zone_ctx.more c"
    by (subst e, simp)+
qed

lemma set_anchor_keeps:
  "set_anchor n l1 = (r, l1') \<Longrightarrow> anchor l1 = Some a \<Longrightarrow> anchor l1' = Some a"
  by (auto simp: set_anchor_def split: if_splits)

lemma preserves_on_l1:
  assumes "\<And>l1 r l1' a. m l1 = (r, l1') \<Longrightarrow> anchor l1 = Some a \<Longrightarrow> anchor l1' = Some a"
  shows "preserves l1_only (on_l1 m)"
  using assms by (auto simp: preserves_def on_l1_def ezoom_def l1_only_def split: prod.splits)

lemma preserves_deduct_gas: "preserves l1_only (deduct_gas env cost)"
  by (auto simp: preserves_def deduct_gas_def l1_only_def split: sum.splits)

lemma preserves_read_l1_storage: "preserves l1_only (read_l1_storage env a s b)"
  unfolding read_l1_storage_def
  by (intro preserves_ebind preserves_eseq preserves_emap_err preserves_deduct_gas preserves_on_l1
      preserves_eget preserves_ereturn l1_only_refl l1_only_trans)
    (auto simp: read_l1_storage_unmetered_def eseq_def ebind_def split: prod.splits sum.splits
      dest: set_anchor_keeps)

lemma preserves_read_portal [preserves_intros]: "preserves l1_only (read_portal env sel)"
  unfolding read_portal_def read_l1_def l1_storage_load_def
  by (intro preserves_ebind preserves_emap_err preserves_eget preserves_elift
      preserves_read_l1_storage l1_only_refl l1_only_trans)

lemma preserves_has_portal_role [preserves_intros]: "preserves l1_only (has_portal_role env a r)"
  unfolding has_portal_role_def
  by (intro preserves_ebind preserves_ereturn preserves_read_portal l1_only_refl l1_only_trans)

lemma preserves_read_portal_vec_len [preserves_intros]: "preserves l1_only (read_portal_vec_len env sel)"
  unfolding read_portal_vec_len_def
  by (auto intro!: preserves_intros)

section \<open>One anchor per transaction\<close>

text \<open>
  The operations a transaction attempt performs on the shared state, and a run that records which
  of them succeeded. \<open>Reset\<close> is not among them: the EVM performs it between attempts.
\<close>

datatype l1_op = ReadAt address b256 u64 | Advance u64 u64

fun op_block :: "l1_op \<Rightarrow> u64" where
  "op_block (ReadAt _ _ b) = b"
| "op_block (Advance _ to) = to"

fun l1_op_exec ::
  "(address \<Rightarrow> b256 \<Rightarrow> u64 \<Rightarrow> L1StateError + b256) \<Rightarrow> l1_op \<Rightarrow> (L1State, L1StateError, b256) eff" where
  "l1_op_exec reader (ReadAt a s b) = read_l1_storage_unmetered reader a s b"
| "l1_op_exec reader (Advance from to) = eseq (advance_anchor from to) (ereturn 0)"

fun l1_run ::
  "(address \<Rightarrow> b256 \<Rightarrow> u64 \<Rightarrow> L1StateError + b256) \<Rightarrow> l1_op list \<Rightarrow> L1State \<Rightarrow> bool list \<times> L1State"
where
  "l1_run reader [] l1 = ([], l1)"
| "l1_run reader (op # ops) l1 =
     (case l1_op_exec reader op l1 of
        (r, l1') \<Rightarrow> (case l1_run reader ops l1' of (oks, l1'') \<Rightarrow> (is_ok r # oks, l1'')))"

lemma l1_op_exec_keeps:
  "l1_op_exec reader op l1 = (r, l1') \<Longrightarrow> anchor l1 = Some a \<Longrightarrow> anchor l1' = Some a"
  by (cases op)
    (auto simp: read_l1_storage_unmetered_def eseq_def ebind_def set_anchor_def advance_anchor_def
      split: if_splits prod.splits sum.splits)

lemma l1_op_exec_ok:
  "l1_op_exec reader op l1 = (Inr v, l1') \<Longrightarrow> anchor l1' = Some (op_block op)"
  by (cases op)
    (auto simp: read_l1_storage_unmetered_def set_anchor_def advance_anchor_def
      split: if_splits option.splits)

lemma l1_advance_ok:
  "l1_op_exec reader (Advance from to) l1 = (Inr v, l1') \<Longrightarrow> anchor l1 = None \<and> from < to"
  by (auto simp: advance_anchor_def split: if_splits option.splits)

interpretation l1_ops: progress_system
  "\<lambda>op l1. snd (l1_op_exec reader op l1)" "\<lambda>_. True"
  "\<lambda>l1 l1'. \<forall>a. anchor l1 = Some a \<longrightarrow> anchor l1' = Some a" for reader
  by unfold_locales (auto dest: l1_op_exec_keeps [OF prod.collapse [symmetric]])

lemma l1_run_state: "snd (l1_run reader ops l1) = fold (\<lambda>op l1. snd (l1_op_exec reader op l1)) ops l1"
  by (induction ops arbitrary: l1) (auto split: prod.splits, metis snd_conv)

lemma l1_run_length: "length (fst (l1_run reader ops l1)) = length ops"
  by (induction ops arbitrary: l1) (auto split: prod.splits, metis fst_conv)

lemma l1_run_anchor:
  assumes "i < length ops" and "fst (l1_run reader ops l1) ! i"
  shows "anchor (snd (l1_run reader ops l1)) = Some (op_block (ops ! i))"
  using assms
proof (induction ops arbitrary: l1 i)
  case Nil
  then show ?case by simp
next
  case (Cons op ops)
  obtain r l1' where r: "l1_op_exec reader op l1 = (r, l1')" by (cases "l1_op_exec reader op l1")
  have s: "snd (l1_run reader (op # ops) l1) = snd (l1_run reader ops l1')"
    and f: "fst (l1_run reader (op # ops) l1) = is_ok r # fst (l1_run reader ops l1')"
    by (auto simp: r split: prod.splits)
  show ?case
  proof (cases i)
    case 0
    then obtain v where "r = Inr v" using Cons.prems(2) f by (auto simp: is_ok_iff)
    then have "anchor l1' = Some (op_block op)" using l1_op_exec_ok r by simp
    then show ?thesis
      using l1_ops.run_below [of l1' reader ops] by (simp add: 0 s l1_run_state r del: l1_run.simps)
  next
    case (Suc j)
    then show ?thesis using Cons f by (simp add: s del: l1_run.simps)
  qed
qed

text \<open>
  C18. A transaction attempt sees one L1 block: all operations that succeed, reads and an
  advancement alike, name the same block, and an advancement succeeds only from a lower block
  and only if no earlier operation selected an anchor.
\<close>

theorem transaction_single_anchor:
  assumes "i < length ops" and "fst (l1_run reader ops L1State_new) ! i"
  shows "anchor (snd (l1_run reader ops L1State_new)) = Some (op_block (ops ! i)) \<and>
    (\<forall>from to. ops ! i = Advance from to \<longrightarrow>
       from < to \<and> anchor (snd (l1_run reader (take i ops) L1State_new)) = None)"
proof -
  have "a < b \<and> anchor (snd (l1_run reader (take i ops) l1)) = None"
    if "i < length ops" "fst (l1_run reader ops l1) ! i" "ops ! i = Advance a b" for a b l1
    using that
  proof (induction ops arbitrary: l1 i)
    case Nil
    then show ?case by simp
  next
    case (Cons op ops)
    then show ?case
      by (cases i) (auto simp: is_ok_iff simp del: l1_op_exec.simps split: prod.splits
          dest: l1_advance_ok, metis fst_conv, metis fst_conv snd_conv)
  qed
  then show ?thesis using l1_run_anchor [OF assms] assms by blast
qed

theorem transaction_single_anchor_witness:
  "fst (l1_run (\<lambda>_ _ b. Inr (ucast b)) [Advance 4 5, ReadAt 1 2 4, ReadAt 1 2 5] L1State_new)
     = [True, False, True] \<and>
   anchor (snd (l1_run (\<lambda>_ _ b. Inr (ucast b)) [Advance 4 5, ReadAt 1 2 4, ReadAt 1 2 5]
     L1State_new)) = Some 5"
proof -
  let ?ops = "[Advance 4 5, ReadAt 1 2 4, ReadAt 1 2 5]"
  have r: "fst (l1_run (\<lambda>_ _ b. Inr (ucast b)) ?ops L1State_new) = [True, False, True]"
    by (simp add: L1State_new_def advance_anchor_def read_l1_storage_unmetered_def set_anchor_def
        eseq_def ebind_def)
  show ?thesis
    using transaction_single_anchor [of 2 ?ops "\<lambda>_ _ b. Inr (ucast b)"] r
    by (simp del: l1_run.simps)
qed

end
