(* ===== verification/Sample_Env.thy ===== *)
theory Sample_Env
  imports Zone_Context
begin

text \<open>
  A concrete environment for the witnesses: a plain ledger as the token precompiles, a portal
  layout with one slot per field, a byte-counting hash, and a header encoding of one byte per
  field. It shows that the hypotheses of the properties can hold together; no property is about
  it.
\<close>

type_synonym ledger = "address \<Rightarrow> address \<Rightarrow> u256"

definition ledger_move :: "address \<Rightarrow> address \<Rightarrow> address \<Rightarrow> u256 \<Rightarrow> (ledger, TempoPrecompileError, bool) eff" where
  "ledger_move t a b n w =
     (if w t a < n \<or> (a \<noteq> b \<and> checked_add (w t b) n = None) then (Inl (OtherTempo 1), w)
      else let w1 = w(t := (w t)(a := w t a - n)) in
        (Inr True, w1(t := (w1 t)(b := w1 t b + n))))"

definition ledger_ops :: "ledger token_ops" where
  "ledger_ops =
     \<lparr>tk_from_address = (\<lambda>t. if t = 0 then Inl (OtherTempo 0) else Inr ()),
      tk_is_initialized = (\<lambda>t. ereturn True),
      tk_transfer_from = (\<lambda>t caller a b n. ledger_move t a b n),
      tk_burn = (\<lambda>t caller n w. if w t caller < n then (Inl (OtherTempo 2), w)
                  else (Inr (), w(t := (w t)(caller := w t caller - n)))),
      tk_mint = (\<lambda>t caller b n w. if checked_add (w t b) n = None then (Inl (OtherTempo 3), w)
                  else (Inr (), w(t := (w t)(b := w t b + n)))),
      tk_initialize = (\<lambda>t admin name symbol currency. ereturn ()),
      tk_grant_issuer = (\<lambda>t a. ereturn ()),
      tk_transfer_policy = (\<lambda>t. ereturn 1),
      tk_set_transfer_policy = (\<lambda>t p. ereturn ()),
      tk_validate_receive_policy = (\<lambda>t a b. ereturn (if b = 0 then Some 1 else None)),
      tk_is_system_error = (\<lambda>e. e = OutOfGas)\<rparr>"

definition sample_layout :: portal_layout where
  "sample_layout =
     \<lparr>pl_token_enabled = (\<lambda>t. (1, \<lambda>v. Inr (v \<noteq> 0))),
      pl_pause_expiry = (2, \<lambda>v. Inr (ucast v)),
      pl_is_access_enforced = (3, \<lambda>v. Inr (v \<noteq> 0)),
      pl_is_gateway_enforced = (4, \<lambda>v. Inr (v \<noteq> 0)),
      pl_role = (\<lambda>a. (5, \<lambda>v. Inr (ucast v))),
      pl_max_tempo_gas_rate = (6, \<lambda>v. Inr (ucast v)),
      pl_token_enablement_hash = (7, \<lambda>v. Inr v),
      pl_enabled_tokens_len = (8, \<lambda>v. Inr v),
      pl_current_deposit_queue_hash = (9, \<lambda>v. Inr v),
      pl_encryption_key_x = (\<lambda>i. (10, \<lambda>v. Inr v)),
      pl_encryption_key_y_parity = (\<lambda>i. (11, \<lambda>v. Inr (ucast v)))\<rparr>"

fun sample_decode_header :: "bytes \<Rightarrow> (TempoHeader \<times> bytes) option" where
  "sample_decode_header (p # n # rest) =
     Some (\<lparr>th_parent_hash = ucast p, th_number = ucast n, th_state_root = 0, th_timestamp = 0,
            th_timestamp_millis_part = 0\<rparr>, rest)"
| "sample_decode_header _ = None"

text \<open>A bounce-back is a nonce byte and an amount byte; a deposit is an amount and a payload.\<close>

fun sample_decode_bounce_back :: "bytes \<Rightarrow> WithdrawalBounceBackDeposit option" where
  "sample_decode_bounce_back [n, a] = Some \<lparr>wb_token = 1, wb_to = ucast n, wb_amount = ucast a\<rparr>"
| "sample_decode_bounce_back _ = None"

fun sample_decode_deposit :: "bytes \<Rightarrow> Deposit option" where
  "sample_decode_deposit (a # e # rest) =
     Some \<lparr>dp_token = 1, dp_sender = 11, dp_amount = ucast a, dp_tempoRefundRecipient = 13,
           dp_keyIndex = 0,
           dp_encrypted = \<lparr>pay_ephemeralPubkeyX = ucast e, pay_ephemeralPubkeyYParity = 2,
             pay_ciphertext = rest, pay_nonce = [], pay_tag = replicate 16 0\<rparr>\<rparr>"
| "sample_decode_deposit _ = None"

definition sample_env :: "(b256 \<Rightarrow> b256) \<Rightarrow> ledger zone_env" where
  "sample_env portal_slots =
     \<lparr>ze_portal = 77, ze_reader = (\<lambda>a s b. Inr (portal_slots s)), ze_layout = sample_layout,
      ze_deduct_gas = (\<lambda>cost g. if g < cost then Inl OutOfGas else Inr (g - cost)),
      ze_warm_cost = 100, ze_cold_cost = 2100, ze_block_number = 9, ze_timestamp = 50,
      ze_timestamp_millis = 50000, ze_is_t13 = True, ze_keccak = count_bytes,
      ze_withdrawal_enc = unary_enc, ze_decode_header = sample_decode_header,
      ze_decode_bounce_back = sample_decode_bounce_back,
      ze_decode_deposit = sample_decode_deposit,
      ze_deposit_enc = (\<lambda>d t. replicate (Suc (unat t)) 0),
      ze_enabled_token_enc = (\<lambda>t e. replicate (Suc (unat t)) 0),
      ze_sinc = (\<lambda>a b. ok_or (checked_add a b) UnderOverflow),
      ze_load_u128 = (\<lambda>v. Inr (ucast v)),
      ze_crypto = toy_crypto,
      ze_tokens = ledger_ops\<rparr>"

definition sample_ctx :: "ledger \<Rightarrow> ledger zone_ctx" where
  "sample_ctx w =
     \<lparr>zc_l1 = \<lparr>anchor = None, access_set = {}\<rparr>, zc_gas = 1000000,
      zc_tempo = \<lparr>tempo_block_hash = 3, tempo_block_number = 4\<rparr>, zc_tokens = w, zc_events = []\<rparr>"

text \<open>The ledger's supply of a token is the sum of its balances.\<close>

definition ledger_supply :: "ledger \<Rightarrow> address \<Rightarrow> nat" where
  "ledger_supply w t = (\<Sum>a\<in>UNIV. unat (w t a))"

lemma sum_upd:
  fixes g :: "address \<Rightarrow> u256"
  shows "(\<Sum>a\<in>UNIV. unat ((g(x := v)) a)) + unat (g x) = (\<Sum>a\<in>UNIV. unat (g a)) + unat v"
proof -
  have "(\<Sum>a\<in>UNIV. unat ((g(x := v)) a)) = unat v + (\<Sum>a\<in>UNIV - {x}. unat ((g(x := v)) a))"
    by (subst sum.remove [of UNIV x]) auto
  moreover have "(\<Sum>a\<in>UNIV - {x}. unat ((g(x := v)) a)) = (\<Sum>a\<in>UNIV - {x}. unat (g a))"
    by (rule sum.cong) auto
  moreover have "(\<Sum>a\<in>UNIV. unat (g a)) = unat (g x) + (\<Sum>a\<in>UNIV - {x}. unat (g a))"
    by (subst sum.remove [of UNIV x]) auto
  ultimately show ?thesis by simp
qed

lemma ledger_supply_upd:
  "ledger_supply (w(t := (w t)(x := v))) t' + (if t' = t then unat (w t x) else 0) =
   ledger_supply w t' + (if t' = t then unat v else 0)"
  using sum_upd [of "w t" x v] by (simp add: ledger_supply_def)

lemma ledger_burn_supply:
  assumes "tk_burn ledger_ops t a n w = (Inr (), w')"
  shows "ledger_supply w' t' + (if t' = t then unat n else 0) = ledger_supply w t'"
  using assms ledger_supply_upd [of w t a "w t a - n" t']
  by (auto simp: ledger_ops_def unat_sub word_less_nat_alt word_le_nat_alt not_less split: if_splits)

lemma ledger_mint_supply:
  assumes "tk_mint ledger_ops t caller b n w = (Inr (), w')"
  shows "ledger_supply w' t' = ledger_supply w t' + (if t' = t then unat n else 0)"
  using assms ledger_supply_upd [of w t b "w t b + n" t'] unat_checked_add [of "w t b" n]
  by (auto simp: ledger_ops_def split: if_splits)

lemma ledger_move_supply:
  assumes "ledger_move t a b n w = (Inr r, w')"
  shows "ledger_supply w' t' = ledger_supply w t'"
proof -
  define w1 where "w1 = w(t := (w t)(a := w t a - n))"
  have le: "n \<le> w t a" and w': "w' = w1(t := (w1 t)(b := w1 t b + n))"
    using assms by (auto simp: ledger_move_def w1_def Let_def not_less split: if_splits)
  have "ledger_supply w1 t' + (if t' = t then unat n else 0) = ledger_supply w t'"
    using ledger_supply_upd [of w t a "w t a - n" t'] le
    by (auto simp: w1_def unat_sub word_le_nat_alt)
  moreover have "unat (w1 t b + n) = unat (w1 t b) + unat n"
  proof (cases "a = b")
    case True
    then show ?thesis using le by (simp add: w1_def unat_sub word_le_nat_alt)
  next
    case False
    then have "checked_add (w t b) n \<noteq> None" using assms by (auto simp: ledger_move_def split: if_splits)
    then show ?thesis using False by (simp add: w1_def unat_checked_add)
  qed
  ultimately show ?thesis
    using ledger_supply_upd [of w1 t b "w1 t b + n" t'] by (auto simp: w' split: if_splits)
qed

lemma ledger_supply_laws: "token_supply_laws ledger_ops ledger_supply"
proof -
  have "tk_transfer_from ledger_ops t s a b n = ledger_move t a b n" for t s a b n
    by (simp add: ledger_ops_def)
  moreover have "snd (tk_is_initialized ledger_ops t w) = w"
    "snd (tk_validate_receive_policy ledger_ops t x y w) = w" for t w x y
    by (simp_all add: ledger_ops_def)
  ultimately show ?thesis
    unfolding token_supply_laws_def
    by (auto simp: ledger_burn_supply ledger_mint_supply intro: ledger_move_supply)
      (metis snd_conv)+
qed

lemmas sample_defs =
  sample_env_def sample_ctx_def sample_layout_def ledger_ops_def ledger_move_def count_bytes_def
  unary_enc_def

end
