(* ===== verification/Tempo_State.thy ===== *)
theory Tempo_State
  imports L1_State Sample_Env
begin

text \<open>
  The \<open>TempoState\<close> precompile (\<open>crates/precompiles/src/tempo_state.rs\<close>): the finalized Tempo
  checkpoint in zone storage and its advancement over a range of consecutive headers. RLP decoding
  of a header and the hash are parameters of the environment.
\<close>

section \<open>Operations\<close>

definition MAX_TEMPO_HEADERS_PER_ZONE_BLOCK :: nat where
  "MAX_TEMPO_HEADERS_PER_ZONE_BLOCK = 1024"

definition write_checkpoint ::
  "b256 \<Rightarrow> u64 \<Rightarrow> (('w, 'x) zone_ctx_scheme, 'e, unit) eff" where
  "write_checkpoint block_hash block_number =
     emodify (\<lambda>c. c\<lparr>zc_tempo :=
       (zc_tempo c)\<lparr>tempo_block_hash := block_hash, tempo_block_number := block_number\<rparr>\<rparr>)"

definition TempoState_initialize ::
  "'w zone_env \<Rightarrow> bytes \<Rightarrow> (('w, 'x) zone_ctx_scheme, TempoPrecompileError, unit) eff" where
  "TempoState_initialize env header_rlp =
     (case ze_decode_header env header_rlp of
        None \<Rightarrow> efail (Fatal (FatalText ''invalid Tempo genesis header RLP''))
      | Some (header, cursor) \<Rightarrow>
          if cursor \<noteq> []
          then efail (Fatal (FatalText ''invalid Tempo genesis header RLP: trailing bytes after header''))
          else write_checkpoint (ze_keccak env header_rlp) (th_number header))"

text \<open>\<open>alloy_rlp::decode_exact\<close>: a header with nothing behind it.\<close>

definition decode_exact :: "'w zone_env \<Rightarrow> bytes \<Rightarrow> TempoHeader option" where
  "decode_exact env rlp =
     (case ze_decode_header env rlp of
        Some (h, rest) \<Rightarrow> if rest = [] then Some h else None | None \<Rightarrow> None)"

text \<open>The loop variables of \<open>finalize_checkpoints\<close>.\<close>

record checkpoint_scan =
  cs_block_number :: u64
  cs_block_hash :: b256
  cs_state_root :: b256
  cs_timestamp :: u64
  cs_timestamp_millis_part :: u64

definition scan_header ::
  "'w zone_env \<Rightarrow> bytes \<Rightarrow> checkpoint_scan \<Rightarrow> ZonePrecompileError + checkpoint_scan" where
  "scan_header env header_rlp scan =
     rbind (ok_or (decode_exact env header_rlp) (TempoStateErr InvalidRlpData)) (\<lambda>header.
     rbind (check (th_parent_hash header = cs_block_hash scan) (TempoStateErr InvalidParentHash)) (\<lambda>_.
     rbind (check (checked_add (cs_block_number scan) 1 = Some (th_number header))
              (TempoStateErr InvalidTempoBlockNumber)) (\<lambda>_.
     Inr \<lparr>cs_block_number = th_number header,
          cs_block_hash = ze_keccak env header_rlp,
          cs_state_root = th_state_root header,
          cs_timestamp = th_timestamp header,
          cs_timestamp_millis_part = th_timestamp_millis_part header\<rparr>)))"

definition scan_timestamp_millis :: "checkpoint_scan \<Rightarrow> u256" where
  "scan_timestamp_millis scan =
     saturating_add (saturating_mul (ucast (cs_timestamp scan)) 1000)
       (ucast (cs_timestamp_millis_part scan))"

definition finalize_checkpoints ::
  "'w zone_env \<Rightarrow> bytes list \<Rightarrow> (('w, 'x) zone_ctx_scheme, ZonePrecompileError, unit) eff" where
  "finalize_checkpoints env headers =
     eseq (echeck (\<not> (headers = [] \<or> length headers > MAX_TEMPO_HEADERS_PER_ZONE_BLOCK))
             (TempoStateErr InvalidRlpData))
    (ebind (eget (tempo_block_number \<circ> zc_tempo)) (\<lambda>initial_block_number.
     ebind (eget (tempo_block_hash \<circ> zc_tempo)) (\<lambda>previous_block_hash.
     eseq (echeck (previous_block_hash \<noteq> 0) (TempoStateErr InvalidParentHash))
    (ebind (elift (try_fold (scan_header env) headers
              \<lparr>cs_block_number = initial_block_number, cs_block_hash = previous_block_hash,
               cs_state_root = 0, cs_timestamp = 0, cs_timestamp_millis_part = 0\<rparr>)) (\<lambda>scan.
     eseq (echeck (\<not> ze_timestamp_millis env < scan_timestamp_millis scan)
             (TempoStateErr InvalidTimestamp))
    (eseq (emap_err L1StateErr (on_l1 (advance_anchor initial_block_number (cs_block_number scan))))
    (eseq (write_checkpoint (cs_block_hash scan) (cs_block_number scan))
          (emit_event (TempoBlockFinalized (cs_block_hash scan) (cs_block_number scan)
             (cs_state_root scan))))))))))"

text \<open>\<open>apply_checkpoints\<close>: the public entry point; the first two guards revert.\<close>

datatype checkpoint_outcome = StaticCallNotAllowed | OnlyZoneInboxRevert | Applied "ZonePrecompileError + unit"

definition apply_checkpoints ::
  "'w zone_env \<Rightarrow> bool \<Rightarrow> address \<Rightarrow> bytes list
   \<Rightarrow> ('w, 'x) zone_ctx_scheme \<Rightarrow> checkpoint_outcome \<times> ('w, 'x) zone_ctx_scheme" where
  "apply_checkpoints env is_static sender headers c =
     (if is_static then (StaticCallNotAllowed, c)
      else if sender \<noteq> ZONE_INBOX_ADDRESS then (OnlyZoneInboxRevert, c)
      else case finalize_checkpoints env headers c of (r, c') \<Rightarrow> (Applied r, c'))"

section \<open>Linked headers\<close>

text \<open>
  The specification: header \<open>i\<close> of the range is well formed, names the hash of its predecessor
  (the stored checkpoint for the first) and has the next number.
\<close>

definition headers_linked :: "'w zone_env \<Rightarrow> b256 \<Rightarrow> u64 \<Rightarrow> bytes list \<Rightarrow> bool" where
  "headers_linked env hash number headers \<longleftrightarrow>
     (\<forall>i < length headers. \<exists>h. decode_exact env (headers ! i) = Some h
        \<and> th_parent_hash h = (if i = 0 then hash else ze_keccak env (headers ! (i - 1)))
        \<and> unat (th_number h) = unat number + i + 1)"

lemma headers_linked_Nil [simp]: "headers_linked env hash number []"
  by (simp add: headers_linked_def)

lemma headers_linked_Cons:
  "headers_linked env hash number (r # rs) \<longleftrightarrow>
     (\<exists>h. decode_exact env r = Some h \<and> th_parent_hash h = hash
        \<and> unat (th_number h) = unat number + 1
        \<and> headers_linked env (ze_keccak env r) (th_number h) rs)"
  (is "?L \<longleftrightarrow> ?R")
proof
  assume L: ?L
  then obtain h where h: "decode_exact env r = Some h" "th_parent_hash h = hash"
    "unat (th_number h) = unat number + 1"
    by (force simp: headers_linked_def dest: spec [of _ 0])
  have "headers_linked env (ze_keccak env r) (th_number h) rs"
    unfolding headers_linked_def
  proof (intro allI impI)
    fix i assume "i < length rs"
    then have "Suc i < length (r # rs)" by simp
    then show "\<exists>h'. decode_exact env (rs ! i) = Some h'
        \<and> th_parent_hash h' = (if i = 0 then ze_keccak env r else ze_keccak env (rs ! (i - 1)))
        \<and> unat (th_number h') = unat (th_number h) + i + 1"
      using L [unfolded headers_linked_def, rule_format, of "Suc i"] h(3)
      by (cases i) auto
  qed
  then show ?R using h by blast
next
  assume ?R
  then obtain h where h: "decode_exact env r = Some h" "th_parent_hash h = hash"
    "unat (th_number h) = unat number + 1"
    and rest: "headers_linked env (ze_keccak env r) (th_number h) rs" by blast
  show ?L
    unfolding headers_linked_def
  proof (intro allI impI)
    fix i assume i: "i < length (r # rs)"
    show "\<exists>h. decode_exact env ((r # rs) ! i) = Some h
        \<and> th_parent_hash h = (if i = 0 then hash else ze_keccak env ((r # rs) ! (i - 1)))
        \<and> unat (th_number h) = unat number + i + 1"
    proof (cases i)
      case 0
      then show ?thesis using h by auto
    next
      case (Suc j)
      then show ?thesis
        using rest [unfolded headers_linked_def, rule_format, of j] i h(3) by (cases j) auto
    qed
  qed
qed

lemma checked_succ_iff: "checked_add n (1 :: u64) = Some m \<longleftrightarrow> unat m = unat n + 1"
  using unsigned_less [of m, where 'a = nat]
  by (auto simp: checked_add_def unat_word_ariths word_unat_eq_iff)

lemma scan_header_Inr:
  "scan_header env r s = Inr t \<longleftrightarrow>
     (\<exists>h. decode_exact env r = Some h \<and> th_parent_hash h = cs_block_hash s
        \<and> unat (th_number h) = unat (cs_block_number s) + 1
        \<and> t = \<lparr>cs_block_number = th_number h, cs_block_hash = ze_keccak env r,
             cs_state_root = th_state_root h, cs_timestamp = th_timestamp h,
             cs_timestamp_millis_part = th_timestamp_millis_part h\<rparr>)"
  by (auto simp: scan_header_def checked_succ_iff)

lemma scan_headers_iff:
  "(\<exists>s'. try_fold (scan_header env) hs s = Inr s') \<longleftrightarrow>
     headers_linked env (cs_block_hash s) (cs_block_number s) hs"
proof (induction hs arbitrary: s)
  case Nil
  then show ?case by simp
next
  case (Cons r rs)
  have "(\<exists>s'. try_fold (scan_header env) (r # rs) s = Inr s') \<longleftrightarrow>
      (\<exists>t. scan_header env r s = Inr t \<and> (\<exists>s'. try_fold (scan_header env) rs t = Inr s'))"
    by auto
  then show ?case by (auto simp: Cons.IH headers_linked_Cons scan_header_Inr)
qed

lemma scan_headers_last:
  assumes "try_fold (scan_header env) hs s = Inr s'" and "hs \<noteq> []"
  shows "cs_block_hash s' = ze_keccak env (last hs) \<and>
    unat (cs_block_number s') = unat (cs_block_number s) + length hs \<and>
    (\<exists>h. decode_exact env (last hs) = Some h \<and> cs_block_number s' = th_number h
       \<and> cs_state_root s' = th_state_root h \<and> cs_timestamp s' = th_timestamp h
       \<and> cs_timestamp_millis_part s' = th_timestamp_millis_part h)"
  using assms
proof (induction hs arbitrary: s)
  case Nil
  then show ?case by simp
next
  case (Cons r rs)
  then obtain t where t: "scan_header env r s = Inr t" and rest: "try_fold (scan_header env) rs t = Inr s'"
    by auto
  from t have tn: "unat (cs_block_number t) = unat (cs_block_number s) + 1"
    by (auto simp: scan_header_Inr)
  show ?case
  proof (cases "rs = []")
    case True
    then show ?thesis using t rest tn by (auto simp: scan_header_Inr)
  next
    case False
    then show ?thesis using Cons.IH [OF rest] tn by simp
  qed
qed

section \<open>Properties\<close>

lemma finalize_checkpoints_Inr:
  assumes "finalize_checkpoints env headers c = (Inr (), c')"
  shows "\<exists>scan. try_fold (scan_header env) headers
        \<lparr>cs_block_number = tempo_block_number (zc_tempo c), cs_block_hash = tempo_block_hash (zc_tempo c),
         cs_state_root = 0, cs_timestamp = 0, cs_timestamp_millis_part = 0\<rparr> = Inr scan
      \<and> headers \<noteq> [] \<and> length headers \<le> 1024 \<and> tempo_block_hash (zc_tempo c) \<noteq> 0
      \<and> scan_timestamp_millis scan \<le> ze_timestamp_millis env
      \<and> anchor (zc_l1 c) = None
      \<and> c' = c\<lparr>zc_l1 := (zc_l1 c)\<lparr>anchor := Some (cs_block_number scan)\<rparr>,
              zc_tempo := \<lparr>tempo_block_hash = cs_block_hash scan, tempo_block_number = cs_block_number scan\<rparr>,
              zc_events := zc_events c @ [TempoBlockFinalized (cs_block_hash scan)
                 (cs_block_number scan) (cs_state_root scan)]\<rparr>"
  using assms
  by (auto simp: finalize_checkpoints_def write_checkpoint_def on_l1_def advance_anchor_def
      MAX_TEMPO_HEADERS_PER_ZONE_BLOCK_def not_less split: if_splits option.splits)

text \<open>
  C19. Checkpoint advancement is sound and complete for linked headers: it succeeds exactly when
  the range has between 1 and 1024 headers that extend the stored (non-zero) checkpoint one after
  the other, the final header's time is not after the zone block's, and no L1 read has selected
  an anchor. It then stores the hash and number of the last header, which is the old number plus
  the number of headers, and anchors the transaction there.
\<close>

theorem finalize_checkpoints_iff:
  "(\<exists>c'. finalize_checkpoints env headers c = (Inr (), c')
      \<and> zc_tempo c' = \<lparr>tempo_block_hash = ze_keccak env (last headers), tempo_block_number = th_number final\<rparr>
      \<and> anchor (zc_l1 c') = Some (th_number final)
      \<and> unat (th_number final) = unat (tempo_block_number (zc_tempo c)) + length headers
      \<and> decode_exact env (last headers) = Some final)
   \<longleftrightarrow>
   headers \<noteq> [] \<and> length headers \<le> 1024 \<and> tempo_block_hash (zc_tempo c) \<noteq> 0
   \<and> headers_linked env (tempo_block_hash (zc_tempo c)) (tempo_block_number (zc_tempo c)) headers
   \<and> decode_exact env (last headers) = Some final
   \<and> saturating_add (saturating_mul (ucast (th_timestamp final)) 1000)
       (ucast (th_timestamp_millis_part final)) \<le> ze_timestamp_millis env
   \<and> anchor (zc_l1 c) = None"
  (is "?L \<longleftrightarrow> ?R")
proof
  assume ?L
  then obtain c' where run: "finalize_checkpoints env headers c = (Inr (), c')"
    and final: "decode_exact env (last headers) = Some final" by blast
  from finalize_checkpoints_Inr [OF run] obtain scan where scan: "try_fold (scan_header env) headers
        \<lparr>cs_block_number = tempo_block_number (zc_tempo c), cs_block_hash = tempo_block_hash (zc_tempo c),
         cs_state_root = 0, cs_timestamp = 0, cs_timestamp_millis_part = 0\<rparr> = Inr scan"
    and rest: "headers \<noteq> []" "length headers \<le> 1024" "tempo_block_hash (zc_tempo c) \<noteq> 0"
      "scan_timestamp_millis scan \<le> ze_timestamp_millis env" "anchor (zc_l1 c) = None"
    by blast
  have "headers_linked env (tempo_block_hash (zc_tempo c)) (tempo_block_number (zc_tempo c)) headers"
    using scan_headers_iff [THEN iffD1, OF exI, OF scan] by simp
  then show ?R
    using rest scan_headers_last [OF scan rest(1)] final by (simp add: scan_timestamp_millis_def)
next
  assume R: ?R
  let ?s = "\<lparr>cs_block_number = tempo_block_number (zc_tempo c), cs_block_hash = tempo_block_hash (zc_tempo c),
         cs_state_root = 0, cs_timestamp = 0, cs_timestamp_millis_part = 0\<rparr>"
  obtain scan where scan: "try_fold (scan_header env) headers ?s = Inr scan"
    using scan_headers_iff [of env headers ?s] R by auto
  note last = scan_headers_last [OF scan]
  have adv: "\<not> cs_block_number scan \<le> tempo_block_number (zc_tempo c)"
    using last R by (auto simp: word_le_nat_alt)
  have "ze_timestamp_millis env \<ge> scan_timestamp_millis scan"
    using last R by (auto simp: scan_timestamp_millis_def)
  then have "\<exists>c'. finalize_checkpoints env headers c = (Inr (), c')"
    using R scan adv
    by (auto simp: finalize_checkpoints_def write_checkpoint_def on_l1_def ezoom_def emap_err_def
        eseq_def ebind_def advance_anchor_def MAX_TEMPO_HEADERS_PER_ZONE_BLOCK_def not_less)
  then obtain c' where run: "finalize_checkpoints env headers c = (Inr (), c')" ..
  then show ?L
    using finalize_checkpoints_Inr [OF run] scan last R by auto
qed

text \<open>
  A rejected advancement changes neither the checkpoint nor the anchor: on every error path
  the zone state and the L1 bookkeeping are exactly as before.
\<close>

lemma finalize_checkpoints_error:
  assumes "finalize_checkpoints env headers c = (Inl e, c')"
  shows "c' = c"
  using assms
  by (auto simp: finalize_checkpoints_def ebind_Inl eseq_Inl write_checkpoint_def on_l1_def
      advance_anchor_def split: if_splits option.splits)

lemma finalize_checkpoints_error_witness:
  "\<exists>e. finalize_checkpoints (sample_env id) [[3, 6]] (sample_ctx (\<lambda>_ _. 0))
     = (Inl e, sample_ctx (\<lambda>_ _. 0))"
proof -
  let ?c = "sample_ctx (\<lambda>_ _. 0)"
  obtain c' where r: "finalize_checkpoints (sample_env id) [[3, 6]] ?c
      = (Inl (TempoStateErr InvalidTempoBlockNumber), c')"
    by (simp add: finalize_checkpoints_def eseq_def ebind_def scan_header_def decode_exact_def
        sample_defs checked_add_def MAX_TEMPO_HEADERS_PER_ZONE_BLOCK_def)
  then show ?thesis using finalize_checkpoints_error [OF r] by auto
qed

end
