(* ===== verification/Zone_Outbox.thy ===== *)
theory Zone_Outbox
  imports Tempo_State
begin

text \<open>
  The \<open>ZoneOutbox\<close> precompile (\<open>crates/precompiles/src/outbox/mod.rs\<close>): withdrawal requests,
  the per-block cap, burning, the fallback-recipient registry, deposit bounce-backs and batch
  finalization. A computation that fails leaves the writes it made in the context; the EVM
  discards them (\<open>outbox_call\<close> below).
\<close>

section \<open>State\<close>

definition MAX_CALLBACK_DATA_SIZE :: nat where
  "MAX_CALLBACK_DATA_SIZE = 1024"

definition WITHDRAWAL_BASE_GAS :: u64 where
  "WITHDRAWAL_BASE_GAS = 50000"

definition MAX_WITHDRAWAL_GAS_LIMIT :: u64 where
  "MAX_WITHDRAWAL_GAS_LIMIT = 10000000"

record PendingWithdrawal =
  pw_token :: address
  pw_sender :: address
  pw_tx_hash :: b256
  pw_to :: address
  pw_amount :: u128
  pw_memo :: b256
  pw_gas_limit :: u64
  pw_fallback_nonce :: u64
  pw_callback_data :: bytes
  pw_reveal_to :: bytes

record ZoneOutbox =
  tempo_gas_rate :: u128
  next_withdrawal_index :: u64
  withdrawal_queue_hash :: b256
  withdrawal_batch_index :: u64
  max_withdrawals_per_block :: u32
  withdrawals_this_block :: u32
  current_block_number :: u64
  last_finalized_timestamp :: u64
  pending_withdrawals :: "PendingWithdrawal list"
  last_fallback_nonce :: u64
  fallback_recipients :: "u64 \<Rightarrow> address"

record 'w outbox_ctx = "'w zone_ctx" +
  zc_outbox :: ZoneOutbox

record requestWithdrawalCall =
  rq_token :: address
  rq_to :: address
  rq_amount :: u128
  rq_memo :: b256
  rq_gasLimit :: u64
  rq_zoneFallbackRecipient :: address
  rq_data :: bytes
  rq_revealTo :: bytes

record enqueueDepositBounceBackCall =
  eb_token :: address
  eb_amount :: u128
  eb_tempoRefundRecipient :: address

record finalizeWithdrawalBatchCall =
  fb_count :: u256
  fb_blockNumber :: u64
  fb_encryptedSenders :: "bytes list"

record LastBatch =
  lb_withdrawalQueueHash :: b256
  lb_withdrawalBatchIndex :: u64

type_synonym ('w, 'x, 'a) outbox_eff = "(('w, 'x) outbox_ctx_scheme, ZonePrecompileError, 'a) eff"

definition get_outbox :: "(ZoneOutbox \<Rightarrow> 'a) \<Rightarrow> ('w, 'x, 'a) outbox_eff" where
  "get_outbox f = eget (\<lambda>c. f (zc_outbox c))"

definition set_outbox :: "(ZoneOutbox \<Rightarrow> ZoneOutbox) \<Rightarrow> ('w, 'x, unit) outbox_eff" where
  "set_outbox f = emodify (\<lambda>c. c\<lparr>zc_outbox := f (zc_outbox c)\<rparr>)"

section \<open>Pending withdrawals\<close>

definition from_request ::
  "address \<Rightarrow> b256 \<Rightarrow> u64 \<Rightarrow> requestWithdrawalCall \<Rightarrow> PendingWithdrawal" where
  "from_request sender tx_hash fallback_nonce call =
     \<lparr>pw_token = rq_token call, pw_sender = sender, pw_tx_hash = tx_hash, pw_to = rq_to call,
      pw_amount = rq_amount call, pw_memo = rq_memo call, pw_gas_limit = rq_gasLimit call,
      pw_fallback_nonce = fallback_nonce, pw_callback_data = rq_data call,
      pw_reveal_to = rq_revealTo call\<rparr>"

definition from_bounce_back :: "enqueueDepositBounceBackCall \<Rightarrow> PendingWithdrawal" where
  "from_bounce_back call =
     \<lparr>pw_token = eb_token call, pw_sender = 0, pw_tx_hash = 0, pw_to = eb_tempoRefundRecipient call,
      pw_amount = eb_amount call, pw_memo = 0, pw_gas_limit = 0, pw_fallback_nonce = 0,
      pw_callback_data = [], pw_reveal_to = []\<rparr>"

definition requested_event :: "PendingWithdrawal \<Rightarrow> u64 \<Rightarrow> u128 \<Rightarrow> WithdrawalRequested" where
  "requested_event p index fee =
     \<lparr>wr_withdrawalIndex = index, wr_sender = pw_sender p, wr_token = pw_token p, wr_to = pw_to p,
      wr_amount = pw_amount p, wr_fee = fee, wr_memo = pw_memo p, wr_gasLimit = pw_gas_limit p,
      wr_fallbackNonce = pw_fallback_nonce p, wr_data = pw_callback_data p,
      wr_revealTo = pw_reveal_to p\<rparr>"

definition into_withdrawal ::
  "keccak \<Rightarrow> PendingWithdrawal \<Rightarrow> bytes \<Rightarrow> ZonePrecompileError + Withdrawal" where
  "into_withdrawal kec p encrypted_sender =
     (let expected = (if pw_reveal_to p = [] then 0 else AUTHENTICATED_WITHDRAWAL_ENCRYPTED_SIZE) in
      if length encrypted_sender \<noteq> expected
      then Inl (Outbox (InvalidEncryptedSenderLength (of_nat (length encrypted_sender))
             (of_nat expected)))
      else Inr \<lparr>wd_token = pw_token p,
                wd_senderTag = sender_tag kec (pw_sender p) (pw_tx_hash p) (pw_fallback_nonce p),
                wd_to = pw_to p, wd_amount = pw_amount p, wd_memo = pw_memo p,
                wd_gasLimit = pw_gas_limit p, wd_fallbackNonce = pw_fallback_nonce p,
                wd_callbackData = pw_callback_data p, wd_encryptedSender = encrypted_sender\<rparr>)"

section \<open>Operations\<close>

definition validate_gas_limit :: "u64 \<Rightarrow> ('c, ZonePrecompileError, unit) eff" where
  "validate_gas_limit gas_limit =
     echeck (\<not> gas_limit > MAX_WITHDRAWAL_GAS_LIMIT) (Outbox GasLimitTooHigh)"

definition ensure_sequencer :: "'w zone_env \<Rightarrow> address \<Rightarrow> ('w, 'x, unit) outbox_eff" where
  "ensure_sequencer env caller =
     (if caller \<noteq> 0
      then ebind (has_portal_role env caller Sequencer) (\<lambda>ok.
             echeck ok (Outbox OutboxOnlySequencer))
      else ereturn ())"

definition validate_withdrawal_policy ::
  "'w zone_env \<Rightarrow> address \<Rightarrow> address \<Rightarrow> u64 \<Rightarrow> ('w, 'x, unit) outbox_eff" where
  "validate_withdrawal_policy env token to gas_limit =
     ebind (read_portal env (\<lambda>p. pl_token_enabled p token)) (\<lambda>enabled.
     eseq (echeck enabled (Portal TokenNotEnabled))
    (ebind (read_portal env pl_pause_expiry) (\<lambda>pause_expiry.
     eseq (echeck (\<not> ze_timestamp env < pause_expiry) (Portal PortalIsPaused))
    (ebind (read_portal env pl_is_access_enforced) (\<lambda>access_enforced.
     ebind (read_portal env pl_is_gateway_enforced) (\<lambda>gateway_enforced.
     if gas_limit = 0
     then (if \<not> access_enforced \<and> \<not> gateway_enforced then ereturn ()
           else
             eseq (if gateway_enforced
                   then ebind (has_portal_role env to CallbackGateway) (\<lambda>is_gateway.
                          echeck (\<not> is_gateway) (Portal InvalidCallbackTarget))
                   else ereturn ())
                  (if access_enforced
                   then ebind (has_portal_role env to Account) (\<lambda>is_account.
                          echeck is_account (Portal (AccountNotAllowed to)))
                   else ereturn ()))
     else (if gateway_enforced
           then ebind (has_portal_role env to CallbackGateway) (\<lambda>is_gateway.
                  echeck is_gateway (Portal InvalidCallbackTarget))
           else ereturn ())))))))"

definition calculate_fee_unchecked :: "u64 \<Rightarrow> ('w, 'x, u128) outbox_eff" where
  "calculate_fee_unchecked gas_limit =
     (let gas = (ucast WITHDRAWAL_BASE_GAS + ucast gas_limit :: u128) in
      ebind (get_outbox tempo_gas_rate) (\<lambda>rate.
        elift (ok_or (checked_mul gas rate) (Tempo UnderOverflow))))"

definition calculate_withdrawal_fee :: "u64 \<Rightarrow> ('w, 'x, u128) outbox_eff" where
  "calculate_withdrawal_fee gas_limit =
     eseq (validate_gas_limit gas_limit) (calculate_fee_unchecked gas_limit)"

definition enforce_withdrawal_block_cap :: "'w zone_env \<Rightarrow> ('w, 'x, unit) outbox_eff" where
  "enforce_withdrawal_block_cap env =
     ebind (get_outbox max_withdrawals_per_block) (\<lambda>max.
     if max = 0 then ereturn ()
     else
       eseq (ebind (get_outbox current_block_number) (\<lambda>current.
               if ze_block_number env \<noteq> current
               then set_outbox (\<lambda>ob. ob\<lparr>current_block_number := ze_block_number env,
                                      withdrawals_this_block := 0\<rparr>)
               else ereturn ()))
      (ebind (get_outbox withdrawals_this_block) (\<lambda>withdrawals.
       eseq (echeck (\<not> withdrawals \<ge> max) (Outbox TooManyWithdrawalsThisBlock))
      (ebind (elift (ok_or (checked_add withdrawals 1) (Tempo UnderOverflow))) (\<lambda>next.
       set_outbox (\<lambda>ob. ob\<lparr>withdrawals_this_block := next\<rparr>))))))"

definition enqueue :: "PendingWithdrawal \<Rightarrow> u128 \<Rightarrow> ('w, 'x, unit) outbox_eff" where
  "enqueue pending fee =
     ebind (get_outbox next_withdrawal_index) (\<lambda>index.
     eseq (emit_event (WithdrawalRequestedEvent (requested_event pending index fee)))
    (eseq (set_outbox (\<lambda>ob. ob\<lparr>pending_withdrawals := pending_withdrawals ob @ [pending]\<rparr>))
    (ebind (elift (ok_or (checked_add index 1) (Tempo UnderOverflow))) (\<lambda>next.
     set_outbox (\<lambda>ob. ob\<lparr>next_withdrawal_index := next\<rparr>)))))"

definition transfer_and_burn ::
  "'w zone_env \<Rightarrow> address \<Rightarrow> address \<Rightarrow> u128 \<Rightarrow> ('w, 'x, unit) outbox_eff" where
  "transfer_and_burn env token owner amount =
     ebind (on_tokens (tk_transfer_from (ze_tokens env) token ZONE_OUTBOX_ADDRESS owner
              ZONE_OUTBOX_ADDRESS (ucast amount))) (\<lambda>transferred.
     eseq (echeck transferred (Outbox TransferFailed))
          (on_tokens (tk_burn (ze_tokens env) token ZONE_OUTBOX_ADDRESS (ucast amount))))"

definition request_withdrawal ::
  "'w zone_env \<Rightarrow> address \<Rightarrow> address \<Rightarrow> b256 \<Rightarrow> requestWithdrawalCall \<Rightarrow> ('w, 'x, unit) outbox_eff"
where
  "request_withdrawal env caller fee_payer current_tx_hash call =
     eseq (echeck (rq_zoneFallbackRecipient call \<noteq> 0) (Outbox InvalidFallbackRecipient))
    (eseq (echeck (rq_amount call \<noteq> 0) (Outbox ZeroAmountWithdrawal))
    (eseq (echeck (\<not> length (rq_data call) > MAX_CALLBACK_DATA_SIZE) (Outbox CallbackDataTooLarge))
    (eseq (validate_gas_limit (rq_gasLimit call))
    (eseq (echeck (current_tx_hash \<noteq> 0) (Outbox InvalidCurrentTxHash))
    (eseq (elift (map_err Tempo (tk_from_address (ze_tokens env) (rq_token call))))
    (ebind (on_tokens (tk_is_initialized (ze_tokens env) (rq_token call))) (\<lambda>initialized.
     eseq (echeck initialized (Tempo TIP20Uninitialized))
    (eseq (validate_withdrawal_policy env (rq_token call) (rq_to call) (rq_gasLimit call))
    (eseq (enforce_withdrawal_block_cap env)
    (eseq (echeck (\<not> (rq_revealTo call \<noteq> [] \<and>
                      decode_compressed_public_key (ze_crypto env) (rq_revealTo call) = None))
             (Outbox InvalidRevealTo))
    (ebind (calculate_fee_unchecked (rq_gasLimit call)) (\<lambda>fee.
     eseq (if caller = fee_payer
           then ebind (elift (ok_or (checked_add (rq_amount call) fee) (Tempo UnderOverflow))) (\<lambda>total.
                  transfer_and_burn env (rq_token call) caller total)
           else eseq (transfer_and_burn env (rq_token call) caller (rq_amount call))
                     (if fee \<noteq> 0 then transfer_and_burn env (rq_token call) fee_payer fee
                      else ereturn ()))
    (ebind (get_outbox last_fallback_nonce) (\<lambda>last.
     ebind (elift (ok_or (checked_add last 1) (Tempo UnderOverflow))) (\<lambda>fallback_nonce.
     eseq (set_outbox (\<lambda>ob. ob\<lparr>last_fallback_nonce := fallback_nonce\<rparr>))
    (eseq (set_outbox (\<lambda>ob. ob\<lparr>fallback_recipients :=
             (fallback_recipients ob)(fallback_nonce := rq_zoneFallbackRecipient call)\<rparr>))
          (enqueue (from_request caller current_tx_hash fallback_nonce call) fee)))))))))))))))))"

definition enqueue_deposit_bounce_back ::
  "address \<Rightarrow> enqueueDepositBounceBackCall \<Rightarrow> ('w, 'x, unit) outbox_eff" where
  "enqueue_deposit_bounce_back caller call =
     eseq (echeck (caller = ZONE_INBOX_ADDRESS) (Outbox OnlyZoneInbox))
          (enqueue (from_bounce_back call) 0)"

definition consume_fallback_recipient :: "address \<Rightarrow> u64 \<Rightarrow> ('w, 'x, address) outbox_eff" where
  "consume_fallback_recipient caller nonce =
     eseq (echeck (caller = ZONE_INBOX_ADDRESS) (Outbox OnlyZoneInbox))
    (ebind (get_outbox (\<lambda>ob. fallback_recipients ob nonce)) (\<lambda>recipient.
     eseq (echeck (recipient \<noteq> 0) (Outbox InvalidFallbackRecipient))
    (eseq (set_outbox (\<lambda>ob. ob\<lparr>fallback_recipients := (fallback_recipients ob)(nonce := 0)\<rparr>))
          (ereturn recipient))))"

text \<open>The loop of \<open>finalize_withdrawal_batch\<close>, from the newest pending withdrawal to the oldest.\<close>

definition batch_hash ::
  "'w zone_env \<Rightarrow> PendingWithdrawal list \<Rightarrow> bytes list \<Rightarrow> ZonePrecompileError + b256" where
  "batch_hash env pending encrypted_senders =
     try_fold (\<lambda>(p, encrypted_sender) hash.
         rbind (into_withdrawal (ze_keccak env) p encrypted_sender) (\<lambda>w.
           Inr (hash_with_tail (ze_keccak env) (ze_withdrawal_enc env) w hash)))
       (rev (zip pending encrypted_senders)) 0"

definition finalize_withdrawal_batch ::
  "'w zone_env \<Rightarrow> address \<Rightarrow> finalizeWithdrawalBatchCall \<Rightarrow> ('w, 'x, b256) outbox_eff" where
  "finalize_withdrawal_batch env caller call =
     eseq (echeck (caller = 0) (Outbox OutboxOnlySequencer))
    (eseq (echeck (fb_blockNumber call = ze_block_number env) (Outbox InvalidBlockNumber))
    (ebind (get_outbox (\<lambda>ob. length (pending_withdrawals ob))) (\<lambda>count.
     eseq (echeck (fb_count call = of_nat count)
             (Outbox (InvalidWithdrawalCount (fb_count call) (of_nat count))))
    (eseq (echeck (length (fb_encryptedSenders call) = count)
             (Outbox (InvalidEncryptedSenderCount (of_nat (length (fb_encryptedSenders call)))
                (of_nat count))))
    (ebind (if count > 0
            then ebind (get_outbox pending_withdrawals) (\<lambda>pending.
                   ebind (elift (batch_hash env pending (fb_encryptedSenders call))) (\<lambda>hash.
                   eseq (set_outbox (\<lambda>ob. ob\<lparr>pending_withdrawals := []\<rparr>)) (ereturn hash)))
            else ereturn 0) (\<lambda>queue_hash.
     ebind (get_outbox withdrawal_batch_index) (\<lambda>batch_index.
     ebind (elift (ok_or (checked_add batch_index 1) (Tempo UnderOverflow))) (\<lambda>next_batch_index.
     eseq (set_outbox (\<lambda>ob. ob\<lparr>withdrawal_batch_index := next_batch_index,
                              withdrawal_queue_hash := queue_hash,
                              last_finalized_timestamp := ze_timestamp env\<rparr>))
    (eseq (emit_event (BatchFinalized queue_hash next_batch_index))
          (ereturn queue_hash))))))))))"

definition set_tempo_gas_rate :: "'w zone_env \<Rightarrow> address \<Rightarrow> u128 \<Rightarrow> ('w, 'x, unit) outbox_eff" where
  "set_tempo_gas_rate env caller rate =
     eseq (ensure_sequencer env caller)
    (ebind (read_portal env pl_max_tempo_gas_rate) (\<lambda>max_tempo_gas_rate.
     eseq (echeck (\<not> rate > max_tempo_gas_rate) (Outbox GasFeeRateTooHigh))
    (eseq (set_outbox (\<lambda>ob. ob\<lparr>tempo_gas_rate := rate\<rparr>))
          (emit_event (TempoGasRateUpdated rate)))))"

definition set_max_withdrawals_per_block ::
  "'w zone_env \<Rightarrow> address \<Rightarrow> u32 \<Rightarrow> ('w, 'x, unit) outbox_eff" where
  "set_max_withdrawals_per_block env caller limit =
     eseq (ensure_sequencer env caller)
    (eseq (set_outbox (\<lambda>ob. ob\<lparr>max_withdrawals_per_block := limit\<rparr>))
          (emit_event (MaxWithdrawalsPerBlockUpdated limit)))"

definition pending_withdrawals_count :: "'w zone_env \<Rightarrow> address \<Rightarrow> ('w, 'x, u256) outbox_eff" where
  "pending_withdrawals_count env caller =
     eseq (ensure_sequencer env caller)
          (get_outbox (\<lambda>ob. of_nat (length (pending_withdrawals ob))))"

definition get_pending_withdrawals ::
  "'w zone_env \<Rightarrow> address \<Rightarrow> ('w, 'x, PendingWithdrawal list) outbox_eff" where
  "get_pending_withdrawals env caller =
     eseq (ensure_sequencer env caller) (get_outbox pending_withdrawals)"

definition last_batch :: "ZoneOutbox \<Rightarrow> LastBatch" where
  "last_batch ob =
     \<lparr>lb_withdrawalQueueHash = withdrawal_queue_hash ob,
      lb_withdrawalBatchIndex = withdrawal_batch_index ob\<rparr>"

lemma get_outbox_run [simp]: "get_outbox f c = (Inr (f (zc_outbox c)), c)"
  by (simp add: get_outbox_def)

lemma set_outbox_run [simp]: "set_outbox f c = (Inr (), c\<lparr>zc_outbox := f (zc_outbox c)\<rparr>)"
  by (simp add: set_outbox_def)

section \<open>What each step changes\<close>

lemma l1_only_outbox:
  fixes c c' :: "('w, 'x) outbox_ctx_scheme"
  assumes "l1_only c c'"
  shows "zc_outbox c' = zc_outbox c"
proof -
  have e: "c' = c\<lparr>zc_l1 := zc_l1 c', zc_gas := zc_gas c'\<rparr>" using assms by (simp only: l1_only_def)
  show ?thesis by (subst e) simp
qed

lemma preserves_ensure_sequencer:
  "preserves l1_only (ensure_sequencer env caller :: ('w, 'x, unit) outbox_eff)"
  unfolding ensure_sequencer_def
  by (auto intro!: preserves_intros)

lemma preserves_validate_withdrawal_policy:
  "preserves l1_only (validate_withdrawal_policy env token to gas :: ('w, 'x, unit) outbox_eff)"
  unfolding validate_withdrawal_policy_def
  by (auto intro!: preserves_intros)

lemma transfer_and_burn_Inr:
  assumes "transfer_and_burn env token owner amount c = (Inr (), c')"
  obtains w1 w2 where
    "tk_transfer_from (ze_tokens env) token ZONE_OUTBOX_ADDRESS owner ZONE_OUTBOX_ADDRESS
       (ucast amount) (zc_tokens c) = (Inr True, w1)"
    "tk_burn (ze_tokens env) token ZONE_OUTBOX_ADDRESS (ucast amount) w1 = (Inr (), w2)"
    "c' = c\<lparr>zc_tokens := w2\<rparr>"
  using assms by (auto simp: transfer_and_burn_def)

lemma enforce_cap_Inr:
  assumes "enforce_withdrawal_block_cap env c = (Inr (), c')"
  obtains b n where
    "c' = c\<lparr>zc_outbox := (zc_outbox c)\<lparr>current_block_number := b, withdrawals_this_block := n\<rparr>\<rparr>"
    "max_withdrawals_per_block (zc_outbox c) = 0 \<Longrightarrow>
       b = current_block_number (zc_outbox c) \<and> n = withdrawals_this_block (zc_outbox c)"
    "max_withdrawals_per_block (zc_outbox c) \<noteq> 0 \<Longrightarrow> b = ze_block_number env \<and>
       n \<le> max_withdrawals_per_block (zc_outbox c) \<and>
       unat n = (if current_block_number (zc_outbox c) = ze_block_number env
                 then unat (withdrawals_this_block (zc_outbox c)) else 0) + 1"
proof (cases "max_withdrawals_per_block (zc_outbox c) = 0")
  case True
  then show ?thesis
    using assms that [where b = "current_block_number (zc_outbox c)" and n = "withdrawals_this_block (zc_outbox c)"]
    by (simp add: enforce_withdrawal_block_cap_def)
next
  case False
  define old where "old = (if current_block_number (zc_outbox c) = ze_block_number env
     then withdrawals_this_block (zc_outbox c) else 0)"
  obtain n where n: "checked_add old 1 = Some n" "\<not> old \<ge> max_withdrawals_per_block (zc_outbox c)"
    and c': "c' = c\<lparr>zc_outbox := (zc_outbox c)\<lparr>current_block_number := ze_block_number env,
                                         withdrawals_this_block := n\<rparr>\<rparr>"
    using assms False
    by (cases "current_block_number (zc_outbox c) = ze_block_number env")
      (auto simp: enforce_withdrawal_block_cap_def old_def)
  have "unat n = unat old + 1" using checked_add_Some(2) [OF n(1)] by simp
  moreover from this n(2) have "n \<le> max_withdrawals_per_block (zc_outbox c)"
    by (simp add: word_le_nat_alt)
  ultimately show ?thesis
    using that [OF c'] False by (simp add: old_def)
qed

lemma enqueue_Inr:
  assumes "enqueue p fee c = (Inr (), c')"
  shows "c' = c\<lparr>zc_events := zc_events c @
             [WithdrawalRequestedEvent (requested_event p (next_withdrawal_index (zc_outbox c)) fee)],
           zc_outbox := (zc_outbox c)\<lparr>
             pending_withdrawals := pending_withdrawals (zc_outbox c) @ [p],
             next_withdrawal_index := next_withdrawal_index (zc_outbox c) + 1\<rparr>\<rparr>
    \<and> unat (next_withdrawal_index (zc_outbox c)) + 1 < 2 ^ 64"
  using assms unsigned_less [of "next_withdrawal_index (zc_outbox c)", where 'a = nat]
  by (auto simp: enqueue_def checked_add_def split: if_splits)

lemma batch_hash_queue_hash:
  assumes "batch_hash env ps encs = Inr h" and "length encs = length ps"
  obtains ws where "length ws = length ps"
    "\<And>i. i < length ps \<Longrightarrow> into_withdrawal (ze_keccak env) (ps ! i) (encs ! i) = Inr (ws ! i)"
    "h = queue_hash (ze_keccak env) (ze_withdrawal_enc env) ws"
proof -
  have "\<exists>ws. length ws = length ps \<and>
      (\<forall>i < length ps. into_withdrawal (ze_keccak env) (ps ! i) (encs ! i) = Inr (ws ! i)) \<and>
      h = queue_hash (ze_keccak env) (ze_withdrawal_enc env) ws"
    using assms
  proof (induction ps arbitrary: encs h)
    case Nil
    then show ?case by (simp add: batch_hash_def)
  next
    case (Cons p ps)
    then obtain e es where encs: "encs = e # es" by (cases encs) auto
    from Cons.prems obtain h1 w where h1: "batch_hash env ps es = Inr h1"
      and w: "into_withdrawal (ze_keccak env) p e = Inr w"
      and h: "h = hash_with_tail (ze_keccak env) (ze_withdrawal_enc env) w h1"
      by (auto simp: encs batch_hash_def try_fold_append)
    from Cons.IH [OF h1] Cons.prems(2) obtain ws where "length ws = length ps"
      "\<forall>i < length ps. into_withdrawal (ze_keccak env) (ps ! i) (es ! i) = Inr (ws ! i)"
      "h1 = queue_hash (ze_keccak env) (ze_withdrawal_enc env) ws" by (auto simp: encs)
    then show ?case
      using w h by (intro exI [of _ "w # ws"]) (auto simp: encs nth_Cons split: nat.splits)
  qed
  then show ?thesis using that by blast
qed

section \<open>Requests\<close>

text \<open>The token movements of a request: what the caller and the fee payer lose is burned.\<close>

definition charge ::
  "'w zone_env \<Rightarrow> address \<Rightarrow> address \<Rightarrow> address \<Rightarrow> u128 \<Rightarrow> u128 \<Rightarrow> ('w, 'x, unit) outbox_eff" where
  "charge env token caller fee_payer amount fee =
     (if caller = fee_payer
      then ebind (elift (ok_or (checked_add amount fee) (Tempo UnderOverflow))) (\<lambda>total.
             transfer_and_burn env token caller total)
      else eseq (transfer_and_burn env token caller amount)
                (if fee \<noteq> 0 then transfer_and_burn env token fee_payer fee else ereturn ()))"

lemma charge_Inr:
  assumes "charge env token caller fee_payer amount fee c = (Inr (), c')"
  shows "\<exists>w. c' = c\<lparr>zc_tokens := w\<rparr>"
  using assms by (auto simp: charge_def elim!: transfer_and_burn_Inr split: if_splits)

lemma request_withdrawal_Inr:
  fixes c c' :: "('w, 'x) outbox_ctx_scheme"
  assumes "request_withdrawal env caller fee_payer tx_hash call c = (Inr (), c')"
  obtains b n fee nonce w0 w1 and c1 :: "('w, 'x) outbox_ctx_scheme" where
    "rq_zoneFallbackRecipient call \<noteq> 0" "rq_amount call \<noteq> 0"
    "length (rq_data call) \<le> 1024" "rq_gasLimit call \<le> 10000000" "tx_hash \<noteq> 0"
    "rq_revealTo call = [] \<or> decode_compressed_public_key (ze_crypto env) (rq_revealTo call) \<noteq> None"
    "tk_is_initialized (ze_tokens env) (rq_token call) (zc_tokens c) = (Inr True, w0)"
    "zc_tokens c1 = w0"
    "charge env (rq_token call) caller fee_payer (rq_amount call) fee c1 = (Inr (), c1\<lparr>zc_tokens := w1\<rparr>)"
    "zc_tokens c' = w1"
    "checked_mul (50000 + ucast (rq_gasLimit call)) (tempo_gas_rate (zc_outbox c)) = Some fee"
    "checked_add (last_fallback_nonce (zc_outbox c)) 1 = Some nonce"
    "unat (next_withdrawal_index (zc_outbox c)) + 1 < 2 ^ 64"
    "max_withdrawals_per_block (zc_outbox c) = 0 \<Longrightarrow>
       b = current_block_number (zc_outbox c) \<and> n = withdrawals_this_block (zc_outbox c)"
    "max_withdrawals_per_block (zc_outbox c) \<noteq> 0 \<Longrightarrow> b = ze_block_number env \<and>
       n \<le> max_withdrawals_per_block (zc_outbox c) \<and>
       unat n = (if current_block_number (zc_outbox c) = ze_block_number env
                 then unat (withdrawals_this_block (zc_outbox c)) else 0) + 1"
    "zc_outbox c' = (zc_outbox c)\<lparr>current_block_number := b, withdrawals_this_block := n,
       last_fallback_nonce := nonce,
       fallback_recipients := (fallback_recipients (zc_outbox c))(nonce := rq_zoneFallbackRecipient call),
       pending_withdrawals := pending_withdrawals (zc_outbox c) @ [from_request caller tx_hash nonce call],
       next_withdrawal_index := next_withdrawal_index (zc_outbox c) + 1\<rparr>"
    "zc_events c' = zc_events c @ [WithdrawalRequestedEvent
       (requested_event (from_request caller tx_hash nonce call) (next_withdrawal_index (zc_outbox c)) fee)]"
proof -
  obtain w0 c2 c3 c4 c5 fee nonce where
    guards: "rq_zoneFallbackRecipient call \<noteq> 0" "rq_amount call \<noteq> 0"
      "length (rq_data call) \<le> 1024" "rq_gasLimit call \<le> 10000000" "tx_hash \<noteq> 0"
      "rq_revealTo call = [] \<or> decode_compressed_public_key (ze_crypto env) (rq_revealTo call) \<noteq> None"
    and w0: "tk_is_initialized (ze_tokens env) (rq_token call) (zc_tokens c) = (Inr True, w0)"
    and pol: "validate_withdrawal_policy env (rq_token call) (rq_to call) (rq_gasLimit call)
        (c\<lparr>zc_tokens := w0\<rparr>) = (Inr (), c2)"
    and cap: "enforce_withdrawal_block_cap env c2 = (Inr (), c3)"
    and fee: "calculate_fee_unchecked (rq_gasLimit call) c3 = (Inr fee, c4)"
    and chg: "charge env (rq_token call) caller fee_payer (rq_amount call) fee c4 = (Inr (), c5)"
    and nonce: "checked_add (last_fallback_nonce (zc_outbox c5)) 1 = Some nonce"
    and enq: "enqueue (from_request caller tx_hash nonce call) fee
        (c5\<lparr>zc_outbox := (zc_outbox c5)\<lparr>last_fallback_nonce := nonce,
           fallback_recipients := (fallback_recipients (zc_outbox c5))
             (nonce := rq_zoneFallbackRecipient call)\<rparr>\<rparr>) = (Inr (), c')"
    using assms
    by (auto simp: request_withdrawal_def charge_def [symmetric] validate_gas_limit_def not_less
        MAX_CALLBACK_DATA_SIZE_def MAX_WITHDRAWAL_GAS_LIMIT_def)
  have l1: "l1_only (c\<lparr>zc_tokens := w0\<rparr>) c2"
    using preservesD [OF preserves_validate_withdrawal_policy pol] .
  have o2: "zc_outbox c2 = zc_outbox c" "zc_tokens c2 = w0" "zc_events c2 = zc_events c"
    using l1_only_outbox [OF l1] l1_onlyD(2,3) [OF l1] by simp_all
  from enforce_cap_Inr [OF cap] obtain b n where
    c3: "c3 = c2\<lparr>zc_outbox := (zc_outbox c2)\<lparr>current_block_number := b, withdrawals_this_block := n\<rparr>\<rparr>"
    and b0: "max_withdrawals_per_block (zc_outbox c2) = 0 \<Longrightarrow>
       b = current_block_number (zc_outbox c2) \<and> n = withdrawals_this_block (zc_outbox c2)"
    and b1: "max_withdrawals_per_block (zc_outbox c2) \<noteq> 0 \<Longrightarrow> b = ze_block_number env \<and>
       n \<le> max_withdrawals_per_block (zc_outbox c2) \<and>
       unat n = (if current_block_number (zc_outbox c2) = ze_block_number env
                 then unat (withdrawals_this_block (zc_outbox c2)) else 0) + 1"
    by blast
  have c4: "c4 = c3" and fee': "checked_mul (50000 + ucast (rq_gasLimit call))
      (tempo_gas_rate (zc_outbox c)) = Some fee"
    using fee by (auto simp: calculate_fee_unchecked_def c3 o2 WITHDRAWAL_BASE_GAS_def)
  obtain w1 where c5: "c5 = c4\<lparr>zc_tokens := w1\<rparr>" using charge_Inr [OF chg] by blast
  note e = enqueue_Inr [OF enq]
  show ?thesis
    by (rule that [OF guards w0 _ chg [unfolded c5] _ fee' _ _ _ _ _ _])
      (use nonce b0 b1 e in \<open>auto simp: c5 c4 c3 o2\<close>)
qed

section \<open>Sequences of calls\<close>

datatype outbox_op =
    RequestWithdrawal address address b256 requestWithdrawalCall
  | EnqueueDepositBounceBack address enqueueDepositBounceBackCall
  | ConsumeFallbackRecipient address u64
  | FinalizeWithdrawalBatch address finalizeWithdrawalBatchCall
  | SetTempoGasRate address u128
  | SetMaxWithdrawalsPerBlock address u32

fun outbox_step :: "'w zone_env \<Rightarrow> outbox_op \<Rightarrow> ('w, 'x, unit) outbox_eff" where
  "outbox_step env (RequestWithdrawal caller payer tx call) = request_withdrawal env caller payer tx call"
| "outbox_step env (EnqueueDepositBounceBack caller call) = enqueue_deposit_bounce_back caller call"
| "outbox_step env (ConsumeFallbackRecipient caller nonce) =
     eseq (consume_fallback_recipient caller nonce) (ereturn ())"
| "outbox_step env (FinalizeWithdrawalBatch caller call) =
     eseq (finalize_withdrawal_batch env caller call) (ereturn ())"
| "outbox_step env (SetTempoGasRate caller rate) = set_tempo_gas_rate env caller rate"
| "outbox_step env (SetMaxWithdrawalsPerBlock caller limit) =
     set_max_withdrawals_per_block env caller limit"

text \<open>
  A call as the EVM performs it: a failed call is reverted, only the L1 bookkeeping and the gas
  remain. Successive calls may run in different blocks, so each brings its environment.
\<close>

fun outbox_call :: "'w zone_env \<times> outbox_op \<Rightarrow> ('w, 'x) outbox_ctx_scheme \<Rightarrow> ('w, 'x) outbox_ctx_scheme" where
  "outbox_call (env, op) c =
     (case outbox_step env op c of
        (Inr _, c') \<Rightarrow> c' | (Inl _, c') \<Rightarrow> c\<lparr>zc_l1 := zc_l1 c', zc_gas := zc_gas c'\<rparr>)"

text \<open>
  The invariant: registered fallback nonces are positive and were issued; every queued user
  withdrawal carries its own issued nonce, a transaction hash, a non-zero amount and bounded
  callback data and gas; every queued entry without a nonce is a deposit bounce-back.
\<close>

definition pending_ok :: "PendingWithdrawal \<Rightarrow> bool" where
  "pending_ok p \<longleftrightarrow>
     (if pw_fallback_nonce p = 0
      then pw_sender p = 0 \<and> pw_tx_hash p = 0 \<and> pw_gas_limit p = 0 \<and> pw_reveal_to p = []
      else pw_tx_hash p \<noteq> 0 \<and> pw_amount p \<noteq> 0 \<and> pw_gas_limit p \<le> MAX_WITHDRAWAL_GAS_LIMIT
        \<and> length (pw_callback_data p) \<le> MAX_CALLBACK_DATA_SIZE)"

definition outbox_inv :: "ZoneOutbox \<Rightarrow> bool" where
  "outbox_inv ob \<longleftrightarrow>
     (\<forall>n. fallback_recipients ob n \<noteq> 0 \<longrightarrow> n \<noteq> 0 \<and> n \<le> last_fallback_nonce ob) \<and>
     (\<forall>p \<in> set (pending_withdrawals ob). pw_fallback_nonce p \<le> last_fallback_nonce ob \<and> pending_ok p) \<and>
     distinct (filter (\<lambda>n. n \<noteq> 0) (map pw_fallback_nonce (pending_withdrawals ob)))"

text \<open>Counters never go back, and an issued nonce without recipient stays without.\<close>

definition outbox_below :: "ZoneOutbox \<Rightarrow> ZoneOutbox \<Rightarrow> bool" where
  "outbox_below ob ob' \<longleftrightarrow>
     last_fallback_nonce ob \<le> last_fallback_nonce ob' \<and>
     next_withdrawal_index ob \<le> next_withdrawal_index ob' \<and>
     withdrawal_batch_index ob \<le> withdrawal_batch_index ob' \<and>
     (\<forall>n. n \<le> last_fallback_nonce ob \<and> fallback_recipients ob n = 0 \<longrightarrow> fallback_recipients ob' n = 0)"

lemma checked_succ:
  fixes a b :: "'a::len word"
  assumes "checked_add a 1 = Some b"
  shows "a < b" and "b = a + 1" and "b \<noteq> 0"
  using checked_add_Some [OF assms] unat_1 [where 'a = 'a]
  by (auto simp: word_less_nat_alt unat_gt_0 [symmetric])

lemma request_inv:
  assumes "request_withdrawal env caller payer tx call c = (Inr (), c')" and "outbox_inv (zc_outbox c)"
  shows "outbox_inv (zc_outbox c') \<and> outbox_below (zc_outbox c) (zc_outbox c')"
  using assms(1)
proof (rule request_withdrawal_Inr)
  fix b n nonce
  assume g: "rq_amount call \<noteq> 0" "length (rq_data call) \<le> 1024" "rq_gasLimit call \<le> 10000000" "tx \<noteq> 0"
    and nonce: "checked_add (last_fallback_nonce (zc_outbox c)) 1 = Some nonce"
    and idx': "unat (next_withdrawal_index (zc_outbox c)) + 1 < 2 ^ 64"
    and ob: "zc_outbox c' = (zc_outbox c)\<lparr>current_block_number := b, withdrawals_this_block := n,
       last_fallback_nonce := nonce,
       fallback_recipients := (fallback_recipients (zc_outbox c))(nonce := rq_zoneFallbackRecipient call),
       pending_withdrawals := pending_withdrawals (zc_outbox c) @ [from_request caller tx nonce call],
       next_withdrawal_index := next_withdrawal_index (zc_outbox c) + 1\<rparr>"
  note lt = checked_succ [OF nonce]
  have idx: "next_withdrawal_index (zc_outbox c) \<le> next_withdrawal_index (zc_outbox c) + 1"
    using idx' by (simp add: word_le_nat_alt unat_word_ariths)
  have "outbox_inv (zc_outbox c')"
    using assms(2) lt g unfolding outbox_inv_def
    by (auto simp: ob from_request_def pending_ok_def MAX_WITHDRAWAL_GAS_LIMIT_def
        MAX_CALLBACK_DATA_SIZE_def)
  moreover have "outbox_below (zc_outbox c) (zc_outbox c')"
    using lt idx by (auto simp: outbox_below_def ob)
  ultimately show ?thesis ..
qed

lemma enqueue_inv:
  assumes "enqueue (from_bounce_back call) 0 c = (Inr (), c')" and "outbox_inv (zc_outbox c)"
  shows "outbox_inv (zc_outbox c') \<and> outbox_below (zc_outbox c) (zc_outbox c')"
proof -
  note e = enqueue_Inr [OF assms(1)]
  then have "next_withdrawal_index (zc_outbox c) \<le> next_withdrawal_index (zc_outbox c) + 1"
    by (simp add: word_le_nat_alt unat_word_ariths)
  then show ?thesis
    using assms(2) e [THEN conjunct1]
    by (auto simp: outbox_inv_def outbox_below_def from_bounce_back_def pending_ok_def)
qed

lemma finalize_Inr:
  assumes "finalize_withdrawal_batch env caller call c = (Inr h, c')"
  shows "caller = 0 \<and> fb_blockNumber call = ze_block_number env
    \<and> length (fb_encryptedSenders call) = length (pending_withdrawals (zc_outbox c))
    \<and> batch_hash env (pending_withdrawals (zc_outbox c)) (fb_encryptedSenders call) = Inr h
    \<and> unat (withdrawal_batch_index (zc_outbox c)) + 1 < 2 ^ 64
    \<and> c' = c\<lparr>zc_events := zc_events c @
              [BatchFinalized h (withdrawal_batch_index (zc_outbox c) + 1)],
            zc_outbox := (zc_outbox c)\<lparr>pending_withdrawals := [],
              withdrawal_batch_index := withdrawal_batch_index (zc_outbox c) + 1,
              withdrawal_queue_hash := h, last_finalized_timestamp := ze_timestamp env\<rparr>\<rparr>"
  using assms
  by (cases "pending_withdrawals (zc_outbox c) = []")
    (auto simp: finalize_withdrawal_batch_def batch_hash_def checked_add_def split: if_splits)

lemma setters_Inr:
  "set_tempo_gas_rate env caller rate c = (Inr (), c') \<Longrightarrow>
     zc_outbox c' = (zc_outbox c)\<lparr>tempo_gas_rate := rate\<rparr>"
  "set_max_withdrawals_per_block env caller limit c = (Inr (), c') \<Longrightarrow>
     zc_outbox c' = (zc_outbox c)\<lparr>max_withdrawals_per_block := limit\<rparr>"
  by (auto simp: set_tempo_gas_rate_def set_max_withdrawals_per_block_def
      dest!: preservesD [OF preserves_ensure_sequencer] preservesD [OF preserves_read_portal]
        l1_only_outbox)

lemma outbox_step_inv:
  assumes "outbox_step env op c = (Inr (), c')" and "outbox_inv (zc_outbox c)"
  shows "outbox_inv (zc_outbox c') \<and> outbox_below (zc_outbox c) (zc_outbox c')"
proof (cases op)
  case (RequestWithdrawal caller payer tx call)
  then show ?thesis using assms request_inv [of env caller payer tx call c c'] by simp
next
  case (EnqueueDepositBounceBack caller call)
  then show ?thesis using assms enqueue_inv [of call c c'] by (simp add: enqueue_deposit_bounce_back_def)
next
  case (ConsumeFallbackRecipient caller nonce)
  then show ?thesis
    using assms
    by (auto simp: consume_fallback_recipient_def outbox_inv_def outbox_below_def split: if_splits)
next
  case (FinalizeWithdrawalBatch caller call)
  then obtain h where "finalize_withdrawal_batch env caller call c = (Inr h, c')"
    using assms(1) by auto
  note f = finalize_Inr [OF this]
  then have "withdrawal_batch_index (zc_outbox c) \<le> withdrawal_batch_index (zc_outbox c) + 1"
    by (simp add: word_le_nat_alt unat_word_ariths)
  moreover have "zc_outbox c' = (zc_outbox c)\<lparr>pending_withdrawals := [],
      withdrawal_batch_index := withdrawal_batch_index (zc_outbox c) + 1,
      withdrawal_queue_hash := h, last_finalized_timestamp := ze_timestamp env\<rparr>"
    using f by simp
  ultimately show ?thesis using assms(2) by (auto simp: outbox_inv_def outbox_below_def)
next
  case (SetTempoGasRate caller rate)
  then show ?thesis
    using assms setters_Inr(1) by (fastforce simp: outbox_inv_def outbox_below_def)
next
  case (SetMaxWithdrawalsPerBlock caller limit)
  then show ?thesis
    using assms setters_Inr(2) by (fastforce simp: outbox_inv_def outbox_below_def)
qed

lemma outbox_below_refl [simp]: "outbox_below ob ob"
  by (simp add: outbox_below_def)

lemma outbox_call_inv:
  assumes "outbox_inv (zc_outbox c)"
  shows "outbox_inv (zc_outbox (outbox_call op c)) \<and>
    outbox_below (zc_outbox c) (zc_outbox (outbox_call op c))"
proof -
  obtain env o' where op: "op = (env, o')" by (cases op)
  obtain r c' where "outbox_step env o' c = (r, c')" by (cases "outbox_step env o' c")
  then show ?thesis using assms outbox_step_inv by (cases r) (auto simp: op)
qed

interpretation outbox_calls: progress_system
  outbox_call "\<lambda>c. outbox_inv (zc_outbox c)" "\<lambda>c c'. outbox_below (zc_outbox c) (zc_outbox c')"
proof unfold_locales
  fix s t u :: "('w, 'x) outbox_ctx_scheme"
  assume "outbox_below (zc_outbox s) (zc_outbox t)" "outbox_below (zc_outbox t) (zc_outbox u)"
  then show "outbox_below (zc_outbox s) (zc_outbox u)"
    unfolding outbox_below_def by (meson order_trans)
qed (simp_all add: outbox_call_inv)

section \<open>Properties\<close>


text \<open>
  C12. A fallback recipient is used at most once: after a bounce-back consumed the recipient of a
  nonce, no sequence of calls registers or consumes one for that nonce again, so a withdrawal
  cannot be refunded twice.
\<close>

theorem fallback_recipient_consumed_once:
  fixes c c' :: "('w, 'x) outbox_ctx_scheme"
  assumes "outbox_inv (zc_outbox c)"
    and "consume_fallback_recipient caller nonce c = (Inr recipient, c')"
  shows "recipient = fallback_recipients (zc_outbox c) nonce \<and> recipient \<noteq> 0 \<and>
    consume_fallback_recipient ZONE_INBOX_ADDRESS nonce (fold outbox_call ops c') =
      (Inl (Outbox InvalidFallbackRecipient), fold outbox_call ops c')"
proof -
  have r: "recipient = fallback_recipients (zc_outbox c) nonce" "recipient \<noteq> 0"
    and c': "c' = c\<lparr>zc_outbox := (zc_outbox c)\<lparr>fallback_recipients :=
               (fallback_recipients (zc_outbox c))(nonce := 0)\<rparr>\<rparr>"
    using assms(2) by (auto simp: consume_fallback_recipient_def)
  have inv: "outbox_inv (zc_outbox c')"
    using assms outbox_step_inv [of undefined "ConsumeFallbackRecipient caller nonce" c c'] by simp
  have "nonce \<le> last_fallback_nonce (zc_outbox c')"
    using assms(1) r by (auto simp: c' outbox_inv_def)
  then have "fallback_recipients (zc_outbox (fold outbox_call ops c')) nonce = 0"
    using outbox_calls.run_below [of c' ops] inv by (auto simp: outbox_below_def c')
  then show ?thesis
    using r by (simp add: consume_fallback_recipient_def eseq_def ebind_def)
qed

text \<open>
  C10. Finalizing a batch commits to the whole queue in order: the returned hash is the queue hash
  of the pending withdrawals, oldest outermost, each completed with its encrypted sender; the
  queue is emptied and the batch index advances by one without wrapping.
\<close>

theorem finalize_withdrawal_batch_commits:
  assumes "finalize_withdrawal_batch env caller call c = (Inr h, c')"
  shows "\<exists>ws. h = queue_hash (ze_keccak env) (ze_withdrawal_enc env) ws
    \<and> list_all2 (\<lambda>(p, enc) w. into_withdrawal (ze_keccak env) p enc = Inr w)
        (zip (pending_withdrawals (zc_outbox c)) (fb_encryptedSenders call)) ws
    \<and> length ws = length (pending_withdrawals (zc_outbox c))
    \<and> pending_withdrawals (zc_outbox c') = []
    \<and> last_batch (zc_outbox c') = \<lparr>lb_withdrawalQueueHash = h,
         lb_withdrawalBatchIndex = withdrawal_batch_index (zc_outbox c) + 1\<rparr>
    \<and> withdrawal_batch_index (zc_outbox c) < withdrawal_batch_index (zc_outbox c) + 1"
proof -
  note f = finalize_Inr [OF assms]
  from f obtain ws where "length ws = length (pending_withdrawals (zc_outbox c))"
    "\<And>i. i < length (pending_withdrawals (zc_outbox c)) \<Longrightarrow>
       into_withdrawal (ze_keccak env) (pending_withdrawals (zc_outbox c) ! i)
         (fb_encryptedSenders call ! i) = Inr (ws ! i)"
    "h = queue_hash (ze_keccak env) (ze_withdrawal_enc env) ws"
    by (auto elim: batch_hash_queue_hash)
  then show ?thesis
    using f by (intro exI [of _ ws])
      (auto simp: list_all2_conv_all_nth last_batch_def word_less_nat_alt unat_word_ariths)
qed

text \<open>
  C15. The sequencer reconstructs the committed withdrawals from public data: for every queue
  entry, rebuilding the withdrawal from its request event, the transaction hash and the encrypted
  sender gives exactly the withdrawal the outbox hashed. For a deposit bounce-back, which has no
  sender and no nonce, any transaction hash gives it.
\<close>

theorem reconstructed_withdrawal_matches:
  assumes "into_withdrawal kec p enc = Inr w"
    and "tx_hash = pw_tx_hash p \<or> pw_sender p = 0 \<and> pw_fallback_nonce p = 0"
  shows "from_requested_event kec (requested_event p index fee) tx_hash enc = w"
  using assms
  by (auto simp: into_withdrawal_def from_requested_event_def requested_event_def sender_tag_def
      Let_def split: if_splits)

text \<open>How many of a list of requests made in one block succeed.\<close>

fun accepted_requests ::
  "'w zone_env \<Rightarrow> (address \<times> address \<times> b256 \<times> requestWithdrawalCall) list
   \<Rightarrow> ('w, 'x) outbox_ctx_scheme \<Rightarrow> nat" where
  "accepted_requests env [] c = 0"
| "accepted_requests env ((caller, payer, tx, call) # rs) c =
     (case request_withdrawal env caller payer tx call c of
        (Inr _, c') \<Rightarrow> Suc (accepted_requests env rs c')
      | (Inl _, c') \<Rightarrow> accepted_requests env rs (c\<lparr>zc_l1 := zc_l1 c', zc_gas := zc_gas c'\<rparr>))"

lemma accepted_requests_bound:
  fixes c :: "('w, 'x) outbox_ctx_scheme"
  assumes "max_withdrawals_per_block (zc_outbox c) \<noteq> 0"
  shows "accepted_requests env rs c \<le> unat (max_withdrawals_per_block (zc_outbox c)) -
    (if current_block_number (zc_outbox c) = ze_block_number env
     then unat (withdrawals_this_block (zc_outbox c)) else 0)"
  using assms
proof (induction rs arbitrary: c)
  case Nil
  then show ?case by simp
next
  case (Cons r rs)
  obtain caller payer tx call where r: "r = (caller, payer, tx, call)" by (cases r)
  obtain res c' where run: "request_withdrawal env caller payer tx call c = (res, c')"
    by (cases "request_withdrawal env caller payer tx call c")
  show ?case
  proof (cases res)
    case (Inl e)
    then show ?thesis using Cons.IH [of "c\<lparr>zc_l1 := zc_l1 c', zc_gas := zc_gas c'\<rparr>"] Cons.prems
      by (auto simp: r run split: if_splits)
  next
    case (Inr u)
    with run have "request_withdrawal env caller payer tx call c = (Inr (), c')" by simp
    then show ?thesis
    proof (rule request_withdrawal_Inr)
      fix b n nonce
      assume cap: "max_withdrawals_per_block (zc_outbox c) \<noteq> 0 \<Longrightarrow> b = ze_block_number env \<and>
         n \<le> max_withdrawals_per_block (zc_outbox c) \<and>
         unat n = (if current_block_number (zc_outbox c) = ze_block_number env
                   then unat (withdrawals_this_block (zc_outbox c)) else 0) + 1"
        and ob: "zc_outbox c' = (zc_outbox c)\<lparr>current_block_number := b, withdrawals_this_block := n,
         last_fallback_nonce := nonce,
         fallback_recipients := (fallback_recipients (zc_outbox c))(nonce := rq_zoneFallbackRecipient call),
         pending_withdrawals := pending_withdrawals (zc_outbox c) @ [from_request caller tx nonce call],
         next_withdrawal_index := next_withdrawal_index (zc_outbox c) + 1\<rparr>"
      show ?thesis
        using Cons.IH [of c'] Cons.prems cap [OF Cons.prems]
        by (auto simp: r run Inr ob word_le_nat_alt split: if_splits)
    qed
  qed
qed

text \<open>
  C14. The per-block cap: of any requests made in one block, by any callers, at most the configured
  maximum succeed.
\<close>

theorem withdrawals_per_block_capped:
  assumes "max_withdrawals_per_block (zc_outbox c) \<noteq> 0"
  shows "accepted_requests env requests c \<le> unat (max_withdrawals_per_block (zc_outbox c))"
  using accepted_requests_bound [OF assms, of env requests] by simp

section \<open>Burned value\<close>

lemma transfer_and_burn_supply:
  assumes "token_supply_laws (ze_tokens env) supply"
    and "transfer_and_burn env token owner amount c = (Inr (), c')"
  shows "supply (zc_tokens c') t + (if t = token then unat amount else 0) = supply (zc_tokens c) t"
  using assms(2)
proof (rule transfer_and_burn_Inr)
  fix w1 w2
  assume move: "tk_transfer_from (ze_tokens env) token ZONE_OUTBOX_ADDRESS owner ZONE_OUTBOX_ADDRESS
       (ucast amount) (zc_tokens c) = (Inr True, w1)"
    and burn: "tk_burn (ze_tokens env) token ZONE_OUTBOX_ADDRESS (ucast amount) w1 = (Inr (), w2)"
    and c': "c' = c\<lparr>zc_tokens := w2\<rparr>"
  have "unat (ucast amount :: u256) = unat amount" by (simp add: unat_ucast_up)
  then show ?thesis
    using token_supply_lawsD(3) [OF assms(1) move] token_supply_lawsD(4) [OF assms(1) burn, of t]
    by (auto simp: c' split: if_splits)
qed

lemma charge_supply:
  assumes laws: "token_supply_laws (ze_tokens env) supply"
    and run: "charge env token caller fee_payer amount fee c = (Inr (), c')"
  shows "supply (zc_tokens c') t + (if t = token then unat amount + unat fee else 0) =
    supply (zc_tokens c) t"
proof (cases "caller = fee_payer")
  case True
  then obtain total where "checked_add amount fee = Some total"
    and "transfer_and_burn env token caller total c = (Inr (), c')"
    using run by (auto simp: charge_def)
  then show ?thesis
    using transfer_and_burn_supply [OF laws, of token caller total c c' t]
    by (auto dest: checked_add_Some(2))
next
  case False
  then obtain c1 where c1: "transfer_and_burn env token caller amount c = (Inr (), c1)"
    and rest: "(if fee \<noteq> 0 then transfer_and_burn env token fee_payer fee else ereturn ()) c1 = (Inr (), c')"
    using run by (auto simp: charge_def)
  show ?thesis
    using transfer_and_burn_supply [OF laws c1, of t] rest
      transfer_and_burn_supply [OF laws, of token fee_payer fee c1 c' t]
    by (cases "fee = 0") auto
qed

text \<open>The value of a token queued for withdrawal.\<close>

definition queued_value :: "ZoneOutbox \<Rightarrow> address \<Rightarrow> nat" where
  "queued_value ob t =
     sum_list (map (\<lambda>p. unat (pw_amount p)) (filter (\<lambda>p. pw_token p = t) (pending_withdrawals ob)))"

text \<open>
  C11. Burn before queue: a successful request removes exactly the withdrawn amount and the fee
  from the token's supply and queues exactly the amount, so supply plus queued value plus fee is
  unchanged; no other token is touched. The token precompile enters through the law that
  transfers keep the supply and a burn reduces it by the burned amount.
\<close>

theorem request_withdrawal_conserves_value:
  fixes c c' :: "('w, 'x) outbox_ctx_scheme"
  assumes "token_supply_laws (ze_tokens env) supply"
    and "request_withdrawal env caller fee_payer tx_hash call c = (Inr (), c')"
  shows "\<exists>fee. checked_mul (50000 + ucast (rq_gasLimit call)) (tempo_gas_rate (zc_outbox c)) = Some fee
    \<and> (\<forall>t. supply (zc_tokens c') t + queued_value (zc_outbox c') t + (if t = rq_token call then unat fee else 0)
         = supply (zc_tokens c) t + queued_value (zc_outbox c) t)"
  using assms(2)
proof (rule request_withdrawal_Inr)
  fix b n fee nonce w0 w1 and c1 :: "('w, 'x) outbox_ctx_scheme"
  assume init: "tk_is_initialized (ze_tokens env) (rq_token call) (zc_tokens c) = (Inr True, w0)"
    and c1: "zc_tokens c1 = w0"
    and chg: "charge env (rq_token call) caller fee_payer (rq_amount call) fee c1
        = (Inr (), c1\<lparr>zc_tokens := w1\<rparr>)"
    and c': "zc_tokens c' = w1"
    and fee: "checked_mul (50000 + ucast (rq_gasLimit call)) (tempo_gas_rate (zc_outbox c)) = Some fee"
    and ob: "zc_outbox c' = (zc_outbox c)\<lparr>current_block_number := b, withdrawals_this_block := n,
       last_fallback_nonce := nonce,
       fallback_recipients := (fallback_recipients (zc_outbox c))(nonce := rq_zoneFallbackRecipient call),
       pending_withdrawals := pending_withdrawals (zc_outbox c) @ [from_request caller tx_hash nonce call],
       next_withdrawal_index := next_withdrawal_index (zc_outbox c) + 1\<rparr>"
  have "supply w0 = supply (zc_tokens c)"
    using token_supply_lawsD(1) [OF assms(1) init] .
  then have "supply (zc_tokens c') t + queued_value (zc_outbox c') t + (if t = rq_token call then unat fee else 0)
      = supply (zc_tokens c) t + queued_value (zc_outbox c) t" for t
    using charge_supply [OF assms(1) chg, of t]
    by (auto simp: c1 c' ob queued_value_def from_request_def)
  then show ?thesis using fee by blast
qed

section \<open>Witnesses\<close>

definition sample_outbox :: ZoneOutbox where
  "sample_outbox =
     \<lparr>tempo_gas_rate = 2, next_withdrawal_index = 0, withdrawal_queue_hash = 0,
      withdrawal_batch_index = 0, max_withdrawals_per_block = 1, withdrawals_this_block = 0,
      current_block_number = 0, last_finalized_timestamp = 0, pending_withdrawals = [],
      last_fallback_nonce = 0, fallback_recipients = (\<lambda>_. 0)\<rparr>"

definition outbox_sample_ctx :: "ledger outbox_ctx" where
  "outbox_sample_ctx =
     \<lparr>zc_l1 = \<lparr>anchor = None, access_set = {}\<rparr>, zc_gas = 1000000,
      zc_tempo = \<lparr>tempo_block_hash = 3, tempo_block_number = 4\<rparr>,
      zc_tokens = (\<lambda>t a. if t = 1 \<and> a = 21 then 1000000 else 0), zc_events = [],
      zc_outbox = sample_outbox\<rparr>"

definition sample_call :: requestWithdrawalCall where
  "sample_call = \<lparr>rq_token = 1, rq_to = 31, rq_amount = 500, rq_memo = 0, rq_gasLimit = 0,
     rq_zoneFallbackRecipient = 41, rq_data = [], rq_revealTo = []\<rparr>"

definition open_portal :: "b256 \<Rightarrow> b256" where
  "open_portal s = (if s = 1 then 1 else 0)"

lemmas outbox_eval =
  sample_defs sample_outbox_def outbox_sample_ctx_def sample_call_def open_portal_def
  eseq_def ebind_def request_withdrawal_def validate_gas_limit_def validate_withdrawal_policy_def
  read_portal_def read_l1_def l1_storage_load_def read_l1_storage_def deduct_gas_def on_l1_def
  emap_err_def ezoom_def read_l1_storage_unmetered_def set_anchor_def on_tokens_def
  enforce_withdrawal_block_cap_def calculate_fee_unchecked_def transfer_and_burn_def enqueue_def
  MAX_CALLBACK_DATA_SIZE_def MAX_WITHDRAWAL_GAS_LIMIT_def WITHDRAWAL_BASE_GAS_def
  checked_add_def checked_mul_def checked_sub_def

lemma sample_request:
  "\<exists>c'. request_withdrawal (sample_env open_portal) 21 21 99 sample_call outbox_sample_ctx = (Inr (), c')"
  by (simp add: outbox_eval ZONE_OUTBOX_ADDRESS_def)

lemma sample_outbox_inv: "outbox_inv sample_outbox"
  by (simp add: outbox_inv_def sample_outbox_def)

lemma sample_ctx_outbox [simp]: "zc_outbox outbox_sample_ctx = sample_outbox"
  by (simp add: outbox_sample_ctx_def)

theorem request_withdrawal_conserves_value_witness:
  "\<exists>c'. request_withdrawal (sample_env open_portal) 21 21 99 sample_call outbox_sample_ctx = (Inr (), c')
     \<and> ledger_supply (zc_tokens c') 1 + queued_value (zc_outbox c') 1 + 100000 =
       ledger_supply (zc_tokens outbox_sample_ctx) 1"
proof -
  obtain c' where c': "request_withdrawal (sample_env open_portal) 21 21 99 sample_call
      outbox_sample_ctx = (Inr (), c')" using sample_request by blast
  have laws: "token_supply_laws (ze_tokens (sample_env open_portal)) ledger_supply"
    using ledger_supply_laws by (simp add: sample_env_def)
  from request_withdrawal_conserves_value [OF laws c'] obtain fee where
    fee: "checked_mul (50000 + ucast (rq_gasLimit sample_call)) (tempo_gas_rate sample_outbox) = Some fee"
    and all: "\<forall>t. ledger_supply (zc_tokens c') t + queued_value (zc_outbox c') t +
        (if t = rq_token sample_call then unat fee else 0)
      = ledger_supply (zc_tokens outbox_sample_ctx) t + queued_value sample_outbox t"
    by auto
  from fee have "fee = 100000" by (simp add: sample_call_def sample_outbox_def checked_mul_def)
  with all [rule_format, of 1] show ?thesis
    using c' by (simp add: sample_call_def queued_value_def sample_outbox_def)
qed


definition registered_ctx :: "ledger outbox_ctx" where
  "registered_ctx = outbox_sample_ctx\<lparr>zc_outbox := sample_outbox\<lparr>last_fallback_nonce := 1,
     fallback_recipients := (\<lambda>_. 0)(1 := 41)\<rparr>\<rparr>"

theorem fallback_recipient_consumed_once_witness:
  "\<exists>c'. consume_fallback_recipient ZONE_INBOX_ADDRESS 1 registered_ctx = (Inr 41, c') \<and>
     consume_fallback_recipient ZONE_INBOX_ADDRESS 1
       (fold outbox_call [(sample_env open_portal, SetMaxWithdrawalsPerBlock 0 5)] c') =
     (Inl (Outbox InvalidFallbackRecipient),
      fold outbox_call [(sample_env open_portal, SetMaxWithdrawalsPerBlock 0 5)] c')"
proof -
  obtain c' where c': "consume_fallback_recipient ZONE_INBOX_ADDRESS 1 registered_ctx = (Inr 41, c')"
    by (simp add: consume_fallback_recipient_def registered_ctx_def eseq_def ebind_def)
  have "outbox_inv (zc_outbox registered_ctx)"
    by (auto simp: registered_ctx_def outbox_inv_def sample_outbox_def split: if_splits)
  from fallback_recipient_consumed_once [OF this c'] c' show ?thesis by blast
qed

definition sample_bounce :: PendingWithdrawal where
  "sample_bounce = from_bounce_back \<lparr>eb_token = 1, eb_amount = 7, eb_tempoRefundRecipient = 8\<rparr>"

definition pending_ctx :: "ledger outbox_ctx" where
  "pending_ctx = outbox_sample_ctx\<lparr>zc_outbox := sample_outbox\<lparr>pending_withdrawals := [sample_bounce]\<rparr>\<rparr>"

theorem finalize_withdrawal_batch_commits_witness:
  "\<exists>c'. finalize_withdrawal_batch (sample_env open_portal) 0
          \<lparr>fb_count = 1, fb_blockNumber = 9, fb_encryptedSenders = [[]]\<rparr> pending_ctx = (Inr 1, c')
     \<and> pending_withdrawals (zc_outbox c') = []"
proof -
  obtain c' where c': "finalize_withdrawal_batch (sample_env open_portal) 0
      \<lparr>fb_count = 1, fb_blockNumber = 9, fb_encryptedSenders = [[]]\<rparr> pending_ctx = (Inr 1, c')"
    by (simp add: finalize_withdrawal_batch_def pending_ctx_def sample_bounce_def batch_hash_def
        into_withdrawal_def from_bounce_back_def sample_link hash_with_tail_def outbox_eval)
  from finalize_withdrawal_batch_commits [OF c'] c' show ?thesis by blast
qed

theorem reconstructed_withdrawal_matches_witness:
  "\<exists>w. into_withdrawal count_bytes sample_bounce [] = Inr w \<and>
     from_requested_event count_bytes (requested_event sample_bounce 0 0) 1234 [] = w"
proof -
  obtain w where w: "into_withdrawal count_bytes sample_bounce [] = Inr w"
    by (simp add: into_withdrawal_def sample_bounce_def from_bounce_back_def)
  have "pw_sender sample_bounce = 0 \<and> pw_fallback_nonce sample_bounce = 0"
    by (simp add: sample_bounce_def from_bounce_back_def)
  with reconstructed_withdrawal_matches [OF w, of 1234 0 0] w show ?thesis by blast
qed

theorem withdrawals_per_block_capped_witness:
  "accepted_requests (sample_env open_portal)
     [(21, 21, 99, sample_call), (21, 21, 98, sample_call)] outbox_sample_ctx \<le> 1"
  using withdrawals_per_block_capped [of outbox_sample_ctx "sample_env open_portal"
      "[(21, 21, 99, sample_call), (21, 21, 98, sample_call)]"]
  by (simp add: sample_outbox_def del: accepted_requests.simps)

end
