(* ===== verification/Zone_Inbox.thy ===== *)
theory Zone_Inbox
  imports Zone_Outbox
begin

text \<open>
  The \<open>ZoneInbox\<close> precompile (\<open>crates/precompiles/src/inbox/mod.rs\<close>): advancing the Tempo
  checkpoint, enabling tokens, consuming the deposit queue, bounce-backs in both directions and
  refunds. A refund is one 256-bit storage word that the code increments as such and reads as a
  128-bit value; both accesses are upstream storage operations (\<open>ze_sinc\<close>, \<open>ze_load_u128\<close>).
\<close>

section \<open>State\<close>

record ZoneInbox =
  processed_deposit_queue_hash :: b256
  processed_deposit_number :: u64
  withdrawal_bounce_backs :: "address \<Rightarrow> address \<Rightarrow> u256"
  processed_token_enablement_hash :: b256
  processed_enabled_token_count :: u64

record 'w inbox_ctx = "'w outbox_ctx" +
  zc_inbox :: ZoneInbox

type_synonym ('w, 'x, 'a) inbox_eff = "(('w, 'x) inbox_ctx_scheme, ZonePrecompileError, 'a) eff"

definition get_inbox :: "(ZoneInbox \<Rightarrow> 'a) \<Rightarrow> ('w, 'x, 'a) inbox_eff" where
  "get_inbox f = eget (\<lambda>c. f (zc_inbox c))"

definition set_inbox :: "(ZoneInbox \<Rightarrow> ZoneInbox) \<Rightarrow> ('w, 'x, unit) inbox_eff" where
  "set_inbox f = emodify (\<lambda>c. c\<lparr>zc_inbox := f (zc_inbox c)\<rparr>)"

record advanceTempoCall =
  at_header :: bytes
  at_deposits :: "QueuedDeposit list"
  at_decryptions :: "DecryptionData list"
  at_enabledTokens :: "EnabledToken list"

section \<open>Decoding and hashing\<close>

definition decode_deposit :: "'w zone_env \<Rightarrow> QueuedDeposit \<Rightarrow> ZonePrecompileError + DecodedQueuedDeposit" where
  "decode_deposit env queued =
     (case qd_depositType queued of
        BounceBackType \<Rightarrow>
          rbind (ok_or (ze_decode_bounce_back env (qd_depositData queued)) MalformedCalldata)
            (\<lambda>d. Inr (DecodedBounceBack d))
      | DepositKind \<Rightarrow>
          rbind (ok_or (ze_decode_deposit env (qd_depositData queued)) MalformedCalldata)
            (\<lambda>d. Inr (DecodedDeposit d))
      | InvalidDepositType _ \<Rightarrow> Inl MalformedCalldata)"

definition decode_deposits ::
  "'w zone_env \<Rightarrow> QueuedDeposit list \<Rightarrow> ZonePrecompileError + DecodedQueuedDeposit list" where
  "decode_deposits env deposits = try_map (decode_deposit env) deposits"

definition deposit_hash_with_tail :: "'w zone_env \<Rightarrow> DecodedQueuedDeposit \<Rightarrow> b256 \<Rightarrow> b256" where
  "deposit_hash_with_tail env d tail = ze_keccak env (ze_deposit_enc env d tail)"

definition hash_with_previous :: "'w zone_env \<Rightarrow> EnabledToken \<Rightarrow> b256 \<Rightarrow> b256" where
  "hash_with_previous env t previous_hash = ze_keccak env (ze_enabled_token_enc env previous_hash t)"

section \<open>Deposits\<close>

definition CP_VERIFY_GAS :: u64 where
  "CP_VERIFY_GAS = 6000"

definition cp_charge_gas :: "'w zone_env \<Rightarrow> ('w, 'x, unit) inbox_eff" where
  "cp_charge_gas env = emap_err Tempo (deduct_gas env CP_VERIFY_GAS)"

definition AES_GCM_BASE_GAS :: u64 where
  "AES_GCM_BASE_GAS = 1000"

definition AES_GCM_PER_BYTE_GAS :: u64 where
  "AES_GCM_PER_BYTE_GAS = 3"

definition aes_charge_gas :: "'w zone_env \<Rightarrow> nat \<Rightarrow> nat \<Rightarrow> ('w, 'x, unit) inbox_eff" where
  "aes_charge_gas env ciphertext_len aad_len =
     (let len = (of_nat (min (ciphertext_len + aad_len) (2 ^ 64 - 1)) :: u64) in
      ebind (elift (ok_or (checked_add AES_GCM_BASE_GAS (saturating_mul AES_GCM_PER_BYTE_GAS len))
               (Tempo UnderOverflow))) (\<lambda>gas.
      emap_err Tempo (deduct_gas env gas)))"

definition recover_encrypted_payload ::
  "'w zone_env \<Rightarrow> Deposit \<Rightarrow> DecryptionData \<Rightarrow> b256 \<times> u8 \<Rightarrow> ('w, 'x, (address \<times> b256) option) inbox_eff"
where
  "recover_encrypted_payload env deposit decryption key =
     eseq (cp_charge_gas env)
    (if \<not> cp_verify (ze_crypto env)
            (pay_ephemeralPubkeyX (dp_encrypted deposit))
            (pay_ephemeralPubkeyYParity (dp_encrypted deposit))
            (dec_sharedSecret decryption) (dec_sharedSecretYParity decryption)
            (fst key) (snd key) (dec_cpProof decryption)
     then ereturn None
     else
       let info = hkdf_info (ze_portal env) (dp_keyIndex deposit)
                    (pay_ephemeralPubkeyX (dp_encrypted deposit)) (dp_sender deposit);
           aes_key = hkdf_sha256 (ze_crypto env) (to_be_bytes 32 (dec_sharedSecret decryption))
                       (ascii ''ecies-aes-key'') info
       in eseq (aes_charge_gas env (length (pay_ciphertext (dp_encrypted deposit))) 0)
         (case aes_gcm_decrypt (ze_crypto env) aes_key (pay_nonce (dp_encrypted deposit))
                 (pay_ciphertext (dp_encrypted deposit)) [] (pay_tag (dp_encrypted deposit)) of
            (plaintext, valid) \<Rightarrow>
              if \<not> valid \<or> length plaintext \<noteq> ENCRYPTED_PAYLOAD_PLAINTEXT_SIZE then ereturn None
              else ereturn (Some (from_be_bytes (take 20 plaintext),
                                  from_be_bytes (take 32 (drop 20 plaintext))))))"

definition read_encryption_key :: "'w zone_env \<Rightarrow> u256 \<Rightarrow> ('w, 'x, b256 \<times> u8) inbox_eff" where
  "read_encryption_key env key_index =
     (if \<not> unat key_index < 2 ^ 64 then efail (Tempo UnderOverflow)
      else
        ebind (read_portal env (\<lambda>p. pl_encryption_key_x p (unat key_index))) (\<lambda>x.
        eseq (echeck (x \<noteq> 0) (Inbox InvalidSharedSecretProof))
       (ebind (read_portal env (\<lambda>p. pl_encryption_key_y_parity p (unat key_index))) (\<lambda>y_parity.
        ereturn (x, y_parity)))))"

text \<open>\<open>ensure_logic_err\<close>: an ordinary token error becomes \<open>false\<close>, a system error propagates.\<close>

definition catch_logic_err :: "'w zone_env \<Rightarrow> ('w, 'x, bool) inbox_eff \<Rightarrow> ('w, 'x, bool) inbox_eff" where
  "catch_logic_err env m c =
     (case m c of
        (Inl (Tempo e), c') \<Rightarrow>
          if tk_is_system_error (ze_tokens env) e then (Inl (Tempo e), c') else (Inr False, c')
      | r \<Rightarrow> r)"

text \<open>A storage checkpoint that is committed on success and otherwise rolls the token storage back.\<close>

definition with_checkpoint :: "('w, 'x, bool) inbox_eff \<Rightarrow> ('w, 'x, bool) inbox_eff" where
  "with_checkpoint m c =
     (case m c of
        (Inr True, c') \<Rightarrow> (Inr True, c')
      | (r, c') \<Rightarrow> (r, c'\<lparr>zc_tokens := zc_tokens c\<rparr>))"

definition try_mint :: "'w zone_env \<Rightarrow> address \<Rightarrow> address \<Rightarrow> u128 \<Rightarrow> ('w, 'x, bool) inbox_eff" where
  "try_mint env token to amount =
     ebind (catch_logic_err env
              (ebind (on_tokens (tk_validate_receive_policy (ze_tokens env) token ZONE_INBOX_ADDRESS to))
                 (\<lambda>reason. ereturn (reason = None)))) (\<lambda>can_receive.
     if \<not> can_receive then ereturn False
     else with_checkpoint (catch_logic_err env
            (eseq (elift (map_err Tempo (tk_from_address (ze_tokens env) token)))
            (eseq (on_tokens (tk_mint (ze_tokens env) token ZONE_INBOX_ADDRESS to (ucast amount)))
                  (ereturn True)))))"

definition fail_deposit :: "b256 \<Rightarrow> Deposit \<Rightarrow> ('w, 'x, unit) inbox_eff" where
  "fail_deposit current_hash deposit =
     eseq (enqueue_deposit_bounce_back ZONE_INBOX_ADDRESS
             \<lparr>eb_token = dp_token deposit, eb_amount = dp_amount deposit,
              eb_tempoRefundRecipient = dp_tempoRefundRecipient deposit\<rparr>)
          (emit_event (DepositFailed current_hash (dp_sender deposit) (dp_token deposit)
             (dp_amount deposit)))"

definition process_deposit ::
  "'w zone_env \<Rightarrow> b256 \<Rightarrow> Deposit \<Rightarrow> DecryptionData \<Rightarrow> b256 \<times> u8 \<Rightarrow> ('w, 'x, unit) inbox_eff" where
  "process_deposit env current_hash deposit decryption key =
     ebind (recover_encrypted_payload env deposit decryption key) (\<lambda>payload.
     case payload of
       None \<Rightarrow> fail_deposit current_hash deposit
     | Some (to, memo) \<Rightarrow>
         ebind (try_mint env (dp_token deposit) to (dp_amount deposit)) (\<lambda>minted.
         if minted
         then emit_event (DepositProcessed current_hash (dp_sender deposit) to (dp_token deposit)
                (dp_amount deposit) memo)
         else fail_deposit current_hash deposit))"

definition process_withdrawal_bounce_back ::
  "'w zone_env \<Rightarrow> WithdrawalBounceBackDeposit \<Rightarrow> ('w, 'x, unit) inbox_eff" where
  "process_withdrawal_bounce_back env deposit =
     (let fallback_nonce = (from_be_bytes (drop 12 (to_be_bytes 20 (wb_to deposit))) :: u64) in
      ebind (consume_fallback_recipient ZONE_INBOX_ADDRESS fallback_nonce) (\<lambda>recipient.
      ebind (try_mint env (wb_token deposit) recipient (wb_amount deposit)) (\<lambda>minted.
      if minted
      then emit_event (WithdrawalBounceBackProcessed recipient (wb_token deposit) (wb_amount deposit))
      else
        ebind (get_inbox (\<lambda>ib. withdrawal_bounce_backs ib (wb_token deposit) recipient)) (\<lambda>slot.
        ebind (elift (map_err Tempo (ze_sinc env slot (ucast (wb_amount deposit))))) (\<lambda>slot'.
        eseq (set_inbox (\<lambda>ib. ib\<lparr>withdrawal_bounce_backs := (withdrawal_bounce_backs ib)
                (wb_token deposit := (withdrawal_bounce_backs ib (wb_token deposit))
                   (recipient := slot'))\<rparr>))
             (emit_event (WithdrawalBounceBackPending recipient (wb_token deposit)
                (wb_amount deposit))))))))"

section \<open>Tokens\<close>

definition enable_token :: "'w zone_env \<Rightarrow> EnabledToken \<Rightarrow> ('w, 'x, unit) inbox_eff" where
  "enable_token env enabled =
     (let ops = ze_tokens env; token = et_token enabled in
      ebind (on_tokens (tk_transfer_policy ops token)) (\<lambda>l1_policy.
      eseq (elift (map_err Tempo (tk_from_address ops token)))
     (eseq (on_tokens (tk_initialize ops token ZONE_INBOX_ADDRESS (et_name enabled)
              (et_symbol enabled) (et_currency enabled)))
     (eseq (on_tokens (tk_grant_issuer ops token ZONE_INBOX_ADDRESS))
     (eseq (on_tokens (tk_grant_issuer ops token ZONE_OUTBOX_ADDRESS))
     (eseq (on_tokens (tk_set_transfer_policy ops token l1_policy))
           (emit_event (TokenEnabled token (et_name enabled) (et_symbol enabled)
              (et_currency enabled)))))))))"

definition enable_tokens :: "'w zone_env \<Rightarrow> EnabledToken list \<Rightarrow> ('w, 'x, unit) inbox_eff" where
  "enable_tokens env tokens = efor (enable_token env) tokens"

section \<open>Advancing\<close>

text \<open>The body of the loop over the decoded deposits; it threads the hash and the decryptions.\<close>

definition process_queued ::
  "'w zone_env \<Rightarrow> DecodedQueuedDeposit \<Rightarrow> b256 \<times> DecryptionData list
   \<Rightarrow> ('w, 'x, b256 \<times> DecryptionData list) inbox_eff" where
  "process_queued env queued acc =
     (let current_hash = deposit_hash_with_tail env queued (fst acc) in
      case queued of
        DecodedBounceBack deposit \<Rightarrow>
          eseq (process_withdrawal_bounce_back env deposit) (ereturn (current_hash, snd acc))
      | DecodedDeposit deposit \<Rightarrow>
          (case snd acc of
             [] \<Rightarrow> efail (Inbox MissingDecryptionData)
           | decryption # rest \<Rightarrow>
               ebind (read_encryption_key env (dp_keyIndex deposit)) (\<lambda>key.
               eseq (process_deposit env current_hash deposit decryption key)
                    (ereturn (current_hash, rest)))))"

text \<open>
  The body of \<open>advance_tempo\<close> in the order of the source: the token enablements after the
  checkpoint (the result is the count reported by the event), the deposits with the check of the
  portal's queue head (the result is the new queue hash), and the state update.
\<close>

definition read_enablement_commitment ::
  "'w zone_env \<Rightarrow> u64 option \<Rightarrow> b256 \<Rightarrow> ('w, 'x, nat option) inbox_eff" where
  "read_enablement_commitment env previous_token_count next_token_enablement_hash =
     (if ze_portal env \<noteq> 0
      then ebind (read_portal env pl_token_enablement_hash) (\<lambda>portal_hash.
           eseq (echeck (portal_hash = next_token_enablement_hash) (Inbox InvalidTokenEnablementHash))
             (if previous_token_count = Some 0
              then ebind (read_portal_vec_len env pl_enabled_tokens_len) (\<lambda>len. ereturn (Some len))
              else ereturn None))
      else ereturn None)"

definition next_token_count ::
  "nat option \<Rightarrow> u64 \<Rightarrow> nat \<Rightarrow> ZonePrecompileError + u64" where
  "next_token_count portal_enabled_token_count previous enabled_token_count =
     (case portal_enabled_token_count of
        Some portal_count \<Rightarrow> ok_or (u64_of_usize portal_count) (Tempo UnderOverflow)
      | None \<Rightarrow>
          rbind (ok_or (u64_of_usize enabled_token_count) (Tempo UnderOverflow)) (\<lambda>n.
            ok_or (checked_add previous n) (Tempo UnderOverflow)))"

definition apply_token_enablements ::
  "'w zone_env \<Rightarrow> EnabledToken list \<Rightarrow> ('w, 'x, u64) inbox_eff" where
  "apply_token_enablements env tokens =
     ebind (get_inbox (\<lambda>ib. if ze_is_t13 env then Some (processed_enabled_token_count ib) else None))
       (\<lambda>previous_token_count.
     ebind (get_inbox (\<lambda>ib. fold (hash_with_previous env) tokens
              (processed_token_enablement_hash ib))) (\<lambda>next_token_enablement_hash.
     ebind (read_enablement_commitment env previous_token_count next_token_enablement_hash)
       (\<lambda>portal_enabled_token_count.
     eseq (enable_tokens env tokens)
    (eseq (if tokens \<noteq> []
           then set_inbox (\<lambda>ib. ib\<lparr>processed_token_enablement_hash := next_token_enablement_hash\<rparr>)
           else ereturn ())
          (case previous_token_count of
             None \<Rightarrow> ereturn 0
           | Some previous \<Rightarrow>
               ebind (elift (next_token_count portal_enabled_token_count previous (length tokens)))
                 (\<lambda>next.
               eseq (set_inbox (\<lambda>ib. ib\<lparr>processed_enabled_token_count := next\<rparr>))
                    (ereturn next)))))))"

definition process_deposit_queue ::
  "'w zone_env \<Rightarrow> DecodedQueuedDeposit list \<Rightarrow> DecryptionData list \<Rightarrow> ('w, 'x, b256) inbox_eff" where
  "process_deposit_queue env deposits decryptions =
     ebind (get_inbox processed_deposit_queue_hash) (\<lambda>initial_hash.
     ebind (efold (process_queued env) deposits (initial_hash, decryptions)) (\<lambda>acc.
     eseq (echeck (snd acc = []) (Inbox ExtraDecryptionData))
    (eseq (if ze_portal env \<noteq> 0
           then ebind (read_portal env pl_current_deposit_queue_hash) (\<lambda>tempo_current_hash.
                  echeck (tempo_current_hash = fst acc) (Inbox InvalidDepositQueueHash))
           else ereturn ())
          (ereturn (fst acc)))))"

definition advance_tempo ::
  "'w zone_env \<Rightarrow> address \<Rightarrow> advanceTempoCall \<Rightarrow> ('w, 'x, unit) inbox_eff" where
  "advance_tempo env caller call =
     eseq (echeck (caller = 0) (Inbox InboxOnlySequencer))
    (ebind (elift (ok_or (u64_of_usize (length (at_deposits call))) (Tempo UnderOverflow))) (\<lambda>deposit_count.
     ebind (elift (decode_deposits env (at_deposits call))) (\<lambda>deposits.
     eseq (finalize_checkpoints env [at_header call])
    (ebind (eget (\<lambda>c. tempo_block_number (zc_tempo c))) (\<lambda>tempo_block_number.
     ebind (apply_token_enablements env (at_enabledTokens call)) (\<lambda>processed_enabled_token_count.
     ebind (eget (\<lambda>c. tempo_block_hash (zc_tempo c))) (\<lambda>tempo_block_hash.
     ebind (process_deposit_queue env deposits (at_decryptions call)) (\<lambda>current_hash.
     eseq (set_inbox (\<lambda>ib. ib\<lparr>processed_deposit_queue_hash := current_hash\<rparr>))
    (ebind (get_inbox processed_deposit_number) (\<lambda>previous_number.
     ebind (elift (ok_or (checked_add previous_number deposit_count) (Tempo UnderOverflow)))
       (\<lambda>processed_number.
     eseq (set_inbox (\<lambda>ib. ib\<lparr>processed_deposit_number := processed_number\<rparr>))
          (if ze_is_t13 env
           then emit_event (TempoAdvanced tempo_block_hash tempo_block_number (ucast deposit_count)
                  current_hash processed_number processed_enabled_token_count)
           else emit_event (LegacyTempoAdvanced tempo_block_hash tempo_block_number
                  (ucast deposit_count) current_hash processed_number)))))))))))))"

definition advance_tempo_headers ::
  "'w zone_env \<Rightarrow> address \<Rightarrow> bytes list \<Rightarrow> ('w, 'x, unit) inbox_eff" where
  "advance_tempo_headers env caller headers =
     eseq (echeck (caller = 0) (Inbox InboxOnlySequencer)) (finalize_checkpoints env headers)"

section \<open>Refunds\<close>

definition claim_refund :: "'w zone_env \<Rightarrow> address \<Rightarrow> address \<Rightarrow> ('w, 'x, u128) inbox_eff" where
  "claim_refund env caller token =
     ebind (get_inbox (\<lambda>ib. withdrawal_bounce_backs ib token caller)) (\<lambda>slot.
     ebind (elift (map_err Tempo (ze_load_u128 env slot))) (\<lambda>amount.
     ebind (try_mint env token caller amount) (\<lambda>minted.
     eseq (echeck minted (Tempo TIP20PolicyForbids))
    (eseq (set_inbox (\<lambda>ib. ib\<lparr>withdrawal_bounce_backs := (withdrawal_bounce_backs ib)
             (token := (withdrawal_bounce_backs ib token)(caller := 0))\<rparr>))
    (eseq (emit_event (RefundClaimed caller token amount))
          (ereturn amount))))))"

definition view_refund ::
  "'w zone_env \<Rightarrow> address \<Rightarrow> address \<Rightarrow> address \<Rightarrow> ('w, 'x, u128) inbox_eff" where
  "view_refund env msg_sender token owner =
     ebind (if msg_sender \<noteq> owner
            then ebind (has_portal_role env msg_sender Sequencer) (\<lambda>ok. ereturn ok)
            else ereturn True) (\<lambda>authorized.
     eseq (echeck authorized (Inbox InboxUnauthorized))
    (ebind (get_inbox (\<lambda>ib. withdrawal_bounce_backs ib token owner)) (\<lambda>slot.
     elift (map_err Tempo (ze_load_u128 env slot)))))"

lemma get_inbox_run [simp]: "get_inbox f c = (Inr (f (zc_inbox c)), c)"
  by (simp add: get_inbox_def)

lemma set_inbox_run [simp]: "set_inbox f c = (Inr (), c\<lparr>zc_inbox := f (zc_inbox c)\<rparr>)"
  by (simp add: set_inbox_def)

section \<open>Hash chains\<close>

text \<open>The deposit queue and the token enablements, newest element outermost.\<close>

definition deposit_chain :: "'w zone_env \<Rightarrow> DecodedQueuedDeposit list \<Rightarrow> b256 \<Rightarrow> b256" where
  "deposit_chain env ds h = fold (deposit_hash_with_tail env) ds h"

interpretation deposits: append_chain "deposit_hash_with_tail env" "deposit_chain env" for env
  by unfold_locales (simp_all add: deposit_chain_def)

interpretation enablements: append_chain "hash_with_previous env" "fold (hash_with_previous env)" for env
  by unfold_locales simp_all

lemma efold_step:
  "efold f (x # xs) a c = (Inr b, c') \<longleftrightarrow>
     (\<exists>a1 c1. f x a c = (Inr a1, c1) \<and> efold f xs a1 c1 = (Inr b, c'))"
  by simp

text \<open>The number of user deposits, each of which needs one decryption.\<close>

fun user_deposits :: "DecodedQueuedDeposit list \<Rightarrow> nat" where
  "user_deposits [] = 0"
| "user_deposits (DecodedBounceBack _ # ds) = user_deposits ds"
| "user_deposits (DecodedDeposit _ # ds) = Suc (user_deposits ds)"

lemma process_queued_acc:
  assumes "process_queued env d (h, decs) c = (Inr (h', decs'), c')"
  shows "h' = deposit_hash_with_tail env d h \<and>
    length decs = (case d of DecodedBounceBack _ \<Rightarrow> 0 | DecodedDeposit _ \<Rightarrow> 1) + length decs'"
  using assms by (auto simp: process_queued_def Let_def split: DecodedQueuedDeposit.splits list.splits)

lemma process_queue_acc:
  assumes "efold (process_queued env) ds (h, decs) c = (Inr (h', decs'), c')"
  shows "h' = deposit_chain env ds h \<and> length decs = user_deposits ds + length decs'"
  using assms
proof (induction ds arbitrary: h decs c)
  case Nil
  then show ?case by (simp add: deposit_chain_def)
next
  case (Cons d ds)
  then obtain h1 decs1 c1 where "process_queued env d (h, decs) c = (Inr (h1, decs1), c1)"
    and rest: "efold (process_queued env) ds (h1, decs1) c1 = (Inr (h', decs'), c')"
    by auto
  from process_queued_acc [OF this(1)] Cons.IH [OF rest] show ?case
    by (cases d) (auto simp: deposit_chain_def)
qed

section \<open>What each step changes\<close>

lemma l1_only_inbox:
  fixes c c' :: "('w, 'x) inbox_ctx_scheme"
  assumes "l1_only c c'"
  shows "zc_inbox c' = zc_inbox c"
proof -
  have e: "c' = c\<lparr>zc_l1 := zc_l1 c', zc_gas := zc_gas c'\<rparr>" using assms by (simp only: l1_only_def)
  show ?thesis by (subst e) simp
qed

lemma preserves_recover_encrypted_payload:
  "preserves l1_only (recover_encrypted_payload env d dec key :: ('w, 'x, _) inbox_eff)"
  unfolding recover_encrypted_payload_def cp_charge_gas_def aes_charge_gas_def Let_def
  by (auto intro!: preserves_intros preserves_deduct_gas split: prod.splits)

lemma preserves_read_encryption_key:
  "preserves l1_only (read_encryption_key env i :: ('w, 'x, _) inbox_eff)"
  unfolding read_encryption_key_def by (auto intro!: preserves_intros)

lemma with_checkpoint_Inr:
  "with_checkpoint m c = (Inr b, c') \<longleftrightarrow>
     (\<exists>c1. m c = (Inr b, c1) \<and> c' = (if b then c1 else c1\<lparr>zc_tokens := zc_tokens c\<rparr>))"
  unfolding with_checkpoint_def by (cases "m c"; cases b) (auto split: sum.splits bool.splits)

lemma catch_logic_err_Inr:
  "catch_logic_err env m c = (Inr b, c') \<longleftrightarrow>
     m c = (Inr b, c') \<or>
     (\<not> b \<and> (\<exists>e. m c = (Inl (Tempo e), c') \<and> \<not> tk_is_system_error (ze_tokens env) e))"
  unfolding catch_logic_err_def
  by (cases "m c") (auto split: sum.splits ZonePrecompileError.splits)

lemma on_tokens_Inl:
  "on_tokens m c = (Inl e, c') \<longleftrightarrow>
     (\<exists>te w. m (zc_tokens c) = (Inl te, w) \<and> e = Tempo te \<and> c' = c\<lparr>zc_tokens := w\<rparr>)"
  by (auto simp: on_tokens_def)

text \<open>A mint attempt changes nothing but the token storage, and the supply only on success.\<close>

lemma try_mint_Inr:
  assumes laws: "token_supply_laws (ze_tokens env) supply"
    and run: "try_mint env token to amount c = (Inr b, c')"
  obtains w where "c' = c\<lparr>zc_tokens := w\<rparr>"
    "\<And>t. supply w t = supply (zc_tokens c) t + (if b \<and> t = token then unat amount else 0)"
proof -
  obtain can c1 where can: "catch_logic_err env
      (ebind (on_tokens (tk_validate_receive_policy (ze_tokens env) token ZONE_INBOX_ADDRESS to))
         (\<lambda>reason. ereturn (reason = None))) c = (Inr can, c1)"
    and rest: "(if \<not> can then ereturn False else with_checkpoint (catch_logic_err env
            (eseq (elift (map_err Tempo (tk_from_address (ze_tokens env) token)))
            (eseq (on_tokens (tk_mint (ze_tokens env) token ZONE_INBOX_ADDRESS to (ucast amount)))
                  (ereturn True))))) c1 = (Inr b, c')"
    using run by (auto simp: try_mint_def)
  from can obtain r w1 where w1: "tk_validate_receive_policy (ze_tokens env) token ZONE_INBOX_ADDRESS to
      (zc_tokens c) = (r, w1)" and c1: "c1 = c\<lparr>zc_tokens := w1\<rparr>"
    by (auto simp: catch_logic_err_Inr ebind_Inl on_tokens_Inl)
  have s1: "supply w1 = supply (zc_tokens c)" using token_supply_lawsD(2) [OF laws w1] .
  show ?thesis
  proof (cases b)
    case True
    then obtain w2 where mint: "tk_mint (ze_tokens env) token ZONE_INBOX_ADDRESS to (ucast amount) w1
        = (Inr (), w2)" and c': "c' = c\<lparr>zc_tokens := w2\<rparr>"
      using rest by (auto simp: with_checkpoint_Inr catch_logic_err_Inr c1 split: if_splits)
    have "unat (ucast amount :: u256) = unat amount" by (simp add: unat_ucast_up)
    then have "supply w2 t = supply (zc_tokens c) t + (if b \<and> t = token then unat amount else 0)" for t
      using token_supply_lawsD(5) [OF laws mint, of t] True by (auto simp: s1 split: if_splits)
    then show ?thesis using that [of w2] c' by blast
  next
    case False
    then have "c' = c\<lparr>zc_tokens := w1\<rparr>"
      using rest
      by (auto simp: with_checkpoint_Inr catch_logic_err_Inr eseq_Inl on_tokens_Inl c1 split: if_splits)
    then show ?thesis using that [of w1] False by (simp add: s1)
  qed
qed

section \<open>Value\<close>

definition parked_value :: "ZoneInbox \<Rightarrow> address \<Rightarrow> nat" where
  "parked_value ib t = (\<Sum>a\<in>UNIV. unat (withdrawal_bounce_backs ib t a))"

text \<open>What the zone owes in a token: its supply, the queued withdrawals and the parked refunds.\<close>

definition zone_value :: "('w \<Rightarrow> address \<Rightarrow> nat) \<Rightarrow> ('w, 'x) inbox_ctx_scheme \<Rightarrow> address \<Rightarrow> nat" where
  "zone_value supply c t =
     supply (zc_tokens c) t + queued_value (zc_outbox c) t + parked_value (zc_inbox c) t"

fun deposit_value :: "DecodedQueuedDeposit \<Rightarrow> address \<Rightarrow> nat" where
  "deposit_value (DecodedBounceBack d) t = (if wb_token d = t then unat (wb_amount d) else 0)"
| "deposit_value (DecodedDeposit d) t = (if dp_token d = t then unat (dp_amount d) else 0)"

text \<open>The storage increment is a checked addition.\<close>

definition sinc_law :: "'w zone_env \<Rightarrow> bool" where
  "sinc_law env \<longleftrightarrow> (\<forall>a b r. ze_sinc env a b = Inr r \<longrightarrow> unat r = unat a + unat b)"

text \<open>Setting a token up, granting its roles and mirroring its policy create no supply.\<close>

definition token_admin_laws :: "'w token_ops \<Rightarrow> ('w \<Rightarrow> address \<Rightarrow> nat) \<Rightarrow> bool" where
  "token_admin_laws ops supply \<longleftrightarrow>
     (\<forall>t w p w'. tk_transfer_policy ops t w = (Inr p, w') \<longrightarrow> supply w' = supply w) \<and>
     (\<forall>t p w w'. tk_set_transfer_policy ops t p w = (Inr (), w') \<longrightarrow> supply w' = supply w) \<and>
     (\<forall>t a n s u w w'. tk_initialize ops t a n s u w = (Inr (), w') \<longrightarrow> supply w' = supply w) \<and>
     (\<forall>t a w w'. tk_grant_issuer ops t a w = (Inr (), w') \<longrightarrow> supply w' = supply w)"

lemma token_admin_lawsD:
  assumes "token_admin_laws ops supply"
  shows "tk_transfer_policy ops t w = (Inr p, w') \<Longrightarrow> supply w' = supply w"
    and "tk_set_transfer_policy ops t p w = (Inr (), w') \<Longrightarrow> supply w' = supply w"
    and "tk_initialize ops t a n s u w = (Inr (), w') \<Longrightarrow> supply w' = supply w"
    and "tk_grant_issuer ops t a w = (Inr (), w') \<Longrightarrow> supply w' = supply w"
  using assms unfolding token_admin_laws_def by metis+

lemma fail_deposit_value:
  assumes "fail_deposit h d c = (Inr (), c')"
  shows "zone_value supply c' t = zone_value supply c t + (if dp_token d = t then unat (dp_amount d) else 0)"
proof -
  obtain c1 where e: "enqueue (from_bounce_back \<lparr>eb_token = dp_token d, eb_amount = dp_amount d,
        eb_tempoRefundRecipient = dp_tempoRefundRecipient d\<rparr>) 0 c = (Inr (), c1)"
    and c': "c' = c1\<lparr>zc_events := zc_events c1 @ [DepositFailed h (dp_sender d) (dp_token d) (dp_amount d)]\<rparr>"
    using assms by (auto simp: fail_deposit_def enqueue_deposit_bounce_back_def)
  from enqueue_Inr [OF e] show ?thesis
    by (auto simp: c' zone_value_def queued_value_def from_bounce_back_def)
qed

lemma process_deposit_value:
  assumes laws: "token_supply_laws (ze_tokens env) supply"
    and run: "process_deposit env h d dec key c = (Inr (), c')"
  shows "zone_value supply c' t = zone_value supply c t + (if dp_token d = t then unat (dp_amount d) else 0)"
proof -
  obtain p c1 where p: "recover_encrypted_payload env d dec key c = (Inr p, c1)"
    using run by (auto simp: process_deposit_def)
  have l1: "l1_only c c1" using preservesD [OF preserves_recover_encrypted_payload p] .
  have same: "zone_value supply c1 t = zone_value supply c t"
    using l1_only_inbox [OF l1] l1_only_outbox [OF l1] l1_onlyD(2) [OF l1] by (simp add: zone_value_def)
  show ?thesis
  proof (cases p)
    case None
    then have "fail_deposit h d c1 = (Inr (), c')" using run p by (auto simp: process_deposit_def)
    then show ?thesis using fail_deposit_value same by fastforce
  next
    case (Some pr)
    then obtain to memo where pr: "p = Some (to, memo)" by (cases pr) auto
    then obtain b c2 where b: "try_mint env (dp_token d) to (dp_amount d) c1 = (Inr b, c2)"
      and rest: "(if b then emit_event (DepositProcessed h (dp_sender d) to (dp_token d) (dp_amount d) memo)
                  else fail_deposit h d) c2 = (Inr (), c')"
      using run p by (auto simp: process_deposit_def)
    from try_mint_Inr [OF laws b] obtain w where w: "c2 = c1\<lparr>zc_tokens := w\<rparr>"
      "\<And>t. supply w t = supply (zc_tokens c1) t + (if b \<and> t = dp_token d then unat (dp_amount d) else 0)"
      by blast
    then show ?thesis
      using rest same fail_deposit_value [of h d c2 c' "supply" t] by (cases b) (auto simp: zone_value_def)
  qed
qed

lemma parked_upd:
  "parked_value (ib\<lparr>withdrawal_bounce_backs := (withdrawal_bounce_backs ib)
       (t := (withdrawal_bounce_backs ib t)(a := v))\<rparr>) t' + (if t' = t then unat (withdrawal_bounce_backs ib t a) else 0) =
   parked_value ib t' + (if t' = t then unat v else 0)"
  using sum_upd [of "withdrawal_bounce_backs ib t" a v] by (simp add: parked_value_def)

lemma process_bounce_back_value:
  assumes laws: "token_supply_laws (ze_tokens env) supply" and sinc: "sinc_law env"
    and run: "process_withdrawal_bounce_back env d c = (Inr (), c')"
  shows "zone_value supply c' t = zone_value supply c t + (if wb_token d = t then unat (wb_amount d) else 0)"
proof -
  define n where "n = (from_be_bytes (drop 12 (to_be_bytes 20 (wb_to d))) :: u64)"
  obtain r c1 b c2 where r: "consume_fallback_recipient ZONE_INBOX_ADDRESS n c = (Inr r, c1)"
    and b: "try_mint env (wb_token d) r (wb_amount d) c1 = (Inr b, c2)"
    and rest: "(if b then emit_event (WithdrawalBounceBackProcessed r (wb_token d) (wb_amount d))
      else ebind (get_inbox (\<lambda>ib. withdrawal_bounce_backs ib (wb_token d) r)) (\<lambda>slot.
        ebind (elift (map_err Tempo (ze_sinc env slot (ucast (wb_amount d))))) (\<lambda>slot'.
        eseq (set_inbox (\<lambda>ib. ib\<lparr>withdrawal_bounce_backs := (withdrawal_bounce_backs ib)
                (wb_token d := (withdrawal_bounce_backs ib (wb_token d))(r := slot'))\<rparr>))
             (emit_event (WithdrawalBounceBackPending r (wb_token d) (wb_amount d)))))) c2 = (Inr (), c')"
    using run by (auto simp: process_withdrawal_bounce_back_def n_def Let_def)
  have c1: "zone_value supply c1 t = zone_value supply c t"
    using r by (auto simp: consume_fallback_recipient_def zone_value_def queued_value_def)
  from try_mint_Inr [OF laws b] obtain w where w: "c2 = c1\<lparr>zc_tokens := w\<rparr>"
    "\<And>t. supply w t = supply (zc_tokens c1) t + (if b \<and> t = wb_token d then unat (wb_amount d) else 0)"
    by blast
  show ?thesis
  proof (cases b)
    case True
    then show ?thesis using rest w c1 by (auto simp: zone_value_def)
  next
    case False
    then obtain slot' where slot': "ze_sinc env (withdrawal_bounce_backs (zc_inbox c2) (wb_token d) r)
          (ucast (wb_amount d)) = Inr slot'"
      and c': "c' = c2\<lparr>zc_inbox := (zc_inbox c2)\<lparr>withdrawal_bounce_backs :=
            (withdrawal_bounce_backs (zc_inbox c2))(wb_token d :=
               (withdrawal_bounce_backs (zc_inbox c2) (wb_token d))(r := slot'))\<rparr>,
          zc_events := zc_events c2 @ [WithdrawalBounceBackPending r (wb_token d) (wb_amount d)]\<rparr>"
      using rest by auto
    have "unat slot' = unat (withdrawal_bounce_backs (zc_inbox c2) (wb_token d) r) + unat (wb_amount d)"
      using sinc slot' by (simp add: sinc_law_def unat_ucast_up)
    then have "parked_value (zc_inbox c') t = parked_value (zc_inbox c2) t +
        (if wb_token d = t then unat (wb_amount d) else 0)"
      using parked_upd [of "zc_inbox c2" "wb_token d" r slot' t] by (auto simp: c' split: if_splits)
    then show ?thesis using w False c1 by (simp add: c' zone_value_def)
  qed
qed

lemma process_queued_value:
  assumes laws: "token_supply_laws (ze_tokens env) supply" and sinc: "sinc_law env"
    and run: "process_queued env d acc c = (Inr acc', c')"
  shows "zone_value supply c' t = zone_value supply c t + deposit_value d t"
proof (cases d)
  case (DecodedBounceBack x)
  then show ?thesis
    using run process_bounce_back_value [OF laws sinc] by (fastforce simp: process_queued_def Let_def)
next
  case (DecodedDeposit x)
  then obtain dec key c1 where key: "read_encryption_key env (dp_keyIndex x) c = (Inr key, c1)"
    and p: "process_deposit env (deposit_hash_with_tail env d (fst acc)) x dec key c1 = (Inr (), c')"
    using run by (auto simp: process_queued_def Let_def split: list.splits)
  have l1: "l1_only c c1" using preservesD [OF preserves_read_encryption_key key] .
  have "zone_value supply c1 t = zone_value supply c t"
    using l1_only_inbox [OF l1] l1_only_outbox [OF l1] l1_onlyD(2) [OF l1] by (simp add: zone_value_def)
  then show ?thesis using process_deposit_value [OF laws p] DecodedDeposit by simp
qed

lemma process_queue_value:
  assumes laws: "token_supply_laws (ze_tokens env) supply" and sinc: "sinc_law env"
    and "efold (process_queued env) ds acc c = (Inr acc', c')"
  shows "zone_value supply c' t = zone_value supply c t + sum_list (map (\<lambda>d. deposit_value d t) ds)"
  using assms(3)
proof (induction ds arbitrary: acc c)
  case Nil
  then show ?case by simp
next
  case (Cons d ds)
  then obtain acc1 c1 where d: "process_queued env d acc c = (Inr acc1, c1)"
    and rest: "efold (process_queued env) ds acc1 c1 = (Inr acc', c')" by auto
  show ?case
    using Cons.IH [OF rest] process_queued_value [OF laws sinc d, of t] by simp
qed

lemma enable_token_value:
  assumes laws: "token_admin_laws (ze_tokens env) supply"
    and run: "enable_token env e c = (Inr (), c')"
  shows "supply (zc_tokens c') = supply (zc_tokens c) \<and> zc_outbox c' = zc_outbox c \<and>
    zc_inbox c' = zc_inbox c \<and> zc_tempo c' = zc_tempo c \<and> zc_l1 c' = zc_l1 c"
  using run token_admin_lawsD [OF laws]
  by (auto simp: enable_token_def Let_def)

lemma enable_tokens_value:
  assumes laws: "token_admin_laws (ze_tokens env) supply"
    and run: "efor (enable_token env) es c = (Inr (), c')"
  shows "supply (zc_tokens c') = supply (zc_tokens c) \<and> zc_outbox c' = zc_outbox c \<and>
    zc_inbox c' = zc_inbox c \<and> zc_tempo c' = zc_tempo c \<and> zc_l1 c' = zc_l1 c"
  using run
proof (induction es arbitrary: c)
  case Nil
  then show ?case by simp
next
  case (Cons e es)
  then obtain c1 where e: "enable_token env e c = (Inr (), c1)"
    and rest: "efor (enable_token env) es c1 = (Inr (), c')" by auto
  show ?case using enable_token_value [OF laws e] Cons.IH [OF rest] by simp
qed

section \<open>A successful advancement\<close>

lemma portal_read_at:
  fixes c c' :: "('w, 'x) zone_ctx_scheme"
  assumes "read_portal env sel c = (Inr v, c')" and "anchor (zc_l1 c) = Some b"
  shows "\<exists>word. ze_reader env (ze_portal env) (fst (sel (ze_layout env))) b = Inr word
    \<and> snd (sel (ze_layout env)) word = Inr v"
  using assms
  by (auto simp: read_portal_def read_l1_def l1_storage_load_def read_l1_storage_def
      read_l1_storage_unmetered_def on_l1_def deduct_gas_def set_anchor_def split: sum.splits if_splits)

lemma read_enablement_commitment_Inr:
  fixes c c' :: "('w, 'x) inbox_ctx_scheme"
  assumes "read_enablement_commitment env prev h c = (Inr r, c')"
  shows "l1_only c c' \<and> (ze_portal env \<noteq> 0 \<longrightarrow> (\<forall>b. anchor (zc_l1 c) = Some b \<longrightarrow>
    (\<exists>word. ze_reader env (ze_portal env) (fst (pl_token_enablement_hash (ze_layout env))) b = Inr word
      \<and> snd (pl_token_enablement_hash (ze_layout env)) word = Inr h)))"
proof -
  have "preserves l1_only (read_enablement_commitment env prev h :: ('w, 'x, _) inbox_eff)"
    unfolding read_enablement_commitment_def by (auto intro!: preserves_intros)
  moreover have "ze_portal env \<noteq> 0 \<Longrightarrow> \<exists>c1. read_portal env pl_token_enablement_hash c = (Inr h, c1)"
    using assms by (auto simp: read_enablement_commitment_def)
  ultimately show ?thesis
    using preservesD [of l1_only _ c] assms portal_read_at [of env pl_token_enablement_hash c h] by blast
qed

lemma apply_token_enablements_Inr:
  fixes c c' :: "('w, 'x) inbox_ctx_scheme"
  assumes laws: "token_admin_laws (ze_tokens env) supply"
    and run: "apply_token_enablements env tokens c = (Inr n, c')"
  shows "supply (zc_tokens c') = supply (zc_tokens c) \<and> zc_outbox c' = zc_outbox c \<and>
    zc_tempo c' = zc_tempo c \<and>
    (\<forall>b. anchor (zc_l1 c) = Some b \<longrightarrow> anchor (zc_l1 c') = Some b) \<and>
    zc_inbox c' = (zc_inbox c)\<lparr>processed_token_enablement_hash :=
        fold (hash_with_previous env) tokens (processed_token_enablement_hash (zc_inbox c)),
        processed_enabled_token_count := processed_enabled_token_count (zc_inbox c')\<rparr>"
proof -
  define prev where "prev = (if ze_is_t13 env then Some (processed_enabled_token_count (zc_inbox c)) else None)"
  define h where "h = fold (hash_with_previous env) tokens (processed_token_enablement_hash (zc_inbox c))"
  obtain pc c1 c2 where rd: "read_enablement_commitment env prev h c = (Inr pc, c1)"
    and en: "efor (enable_token env) tokens c1 = (Inr (), c2)"
    and upd: "eseq (if tokens \<noteq> [] then set_inbox (\<lambda>ib. ib\<lparr>processed_token_enablement_hash := h\<rparr>)
           else ereturn ())
          (case prev of None \<Rightarrow> ereturn 0
           | Some previous \<Rightarrow>
               ebind (elift (next_token_count pc previous (length tokens))) (\<lambda>next.
               eseq (set_inbox (\<lambda>ib. ib\<lparr>processed_enabled_token_count := next\<rparr>)) (ereturn next))) c2
        = (Inr n, c')"
    using run unfolding apply_token_enablements_def enable_tokens_def
    by (simp cong: if_cong flip: prev_def h_def) blast
  have l1: "l1_only c c1" using read_enablement_commitment_Inr [OF rd] by blast
  note e = enable_tokens_value [OF laws en]
  have ib: "zc_inbox c2 = zc_inbox c" using e l1_only_inbox [OF l1] by simp
  have h0: "tokens = [] \<Longrightarrow> h = processed_token_enablement_hash (zc_inbox c)" by (simp add: h_def)
  have "zc_tokens c' = zc_tokens c2 \<and> zc_outbox c' = zc_outbox c2 \<and> zc_tempo c' = zc_tempo c2 \<and>
      zc_l1 c' = zc_l1 c2 \<and> zc_inbox c' = (zc_inbox c)\<lparr>processed_token_enablement_hash := h,
        processed_enabled_token_count := processed_enabled_token_count (zc_inbox c')\<rparr>"
    using upd h0 ib by (cases "tokens = []"; cases prev) auto
  moreover have "anchor (zc_l1 c2) = Some b" if "anchor (zc_l1 c) = Some b" for b
    using e l1 that by (simp add: l1_only_def)
  ultimately show ?thesis
    using e l1_onlyD(1,2) [OF l1] l1_only_outbox [OF l1] by (auto simp: h_def)
qed

lemma process_deposit_queue_Inr:
  fixes c c' :: "('w, 'x) inbox_ctx_scheme"
  assumes "process_deposit_queue env ds decs c = (Inr h, c')"
  obtains c1 where
    "efold (process_queued env) ds (processed_deposit_queue_hash (zc_inbox c), decs) c = (Inr (h, []), c1)"
    "l1_only c1 c'"
    "\<And>b. ze_portal env \<noteq> 0 \<Longrightarrow> anchor (zc_l1 c1) = Some b \<Longrightarrow>
       \<exists>word. ze_reader env (ze_portal env) (fst (pl_current_deposit_queue_hash (ze_layout env))) b = Inr word
         \<and> snd (pl_current_deposit_queue_hash (ze_layout env)) word = Inr h"
proof -
  obtain c1 where fld: "efold (process_queued env) ds (processed_deposit_queue_hash (zc_inbox c), decs) c
      = (Inr (h, []), c1)"
    and rd: "(if ze_portal env \<noteq> 0
           then ebind (read_portal env pl_current_deposit_queue_hash) (\<lambda>tempo_current_hash.
                  echeck (tempo_current_hash = h) (Inbox InvalidDepositQueueHash))
           else ereturn ()) c1 = (Inr (), c')"
    using assms by (cases "ze_portal env = 0") (auto simp: process_deposit_queue_def)
  show ?thesis
  proof (cases "ze_portal env = 0")
    case True
    then show ?thesis using that [OF fld] rd reflpD [OF l1_only_refl] by auto
  next
    case False
    then have r: "read_portal env pl_current_deposit_queue_hash c1 = (Inr h, c')" using rd by auto
    show ?thesis
      by (rule that [OF fld preservesD [OF preserves_read_portal r]])
        (use portal_read_at [OF r] in blast)
  qed
qed

section \<open>What processing the queue leaves alone\<close>

text \<open>
  Deposits touch the token storage, the outbox, the parked refunds, events and the L1 bookkeeping;
  the checkpoint, a selected anchor and the other inbox fields stay.
\<close>

definition queue_frame :: "('w, 'x) inbox_ctx_scheme \<Rightarrow> ('w, 'x) inbox_ctx_scheme \<Rightarrow> bool" where
  "queue_frame c c' \<longleftrightarrow>
     zc_tempo c' = zc_tempo c \<and>
     (\<forall>a. anchor (zc_l1 c) = Some a \<longrightarrow> anchor (zc_l1 c') = Some a) \<and>
     processed_deposit_queue_hash (zc_inbox c') = processed_deposit_queue_hash (zc_inbox c) \<and>
     processed_deposit_number (zc_inbox c') = processed_deposit_number (zc_inbox c) \<and>
     processed_token_enablement_hash (zc_inbox c') = processed_token_enablement_hash (zc_inbox c) \<and>
     last_batch (zc_outbox c') = last_batch (zc_outbox c)"

lemma queue_frame_refl [simp]: "reflp queue_frame"
  by (simp add: reflp_def queue_frame_def)

lemma queue_frame_trans [simp]: "transp queue_frame"
  by (rule transpI) (auto simp: queue_frame_def)

lemma l1_only_queue_frame:
  fixes c c' :: "('w, 'x) inbox_ctx_scheme"
  assumes "l1_only c c'"
  shows "queue_frame c c'"
  using l1_only_inbox [OF assms] l1_only_outbox [OF assms] l1_onlyD(1) [OF assms] assms
  by (simp add: queue_frame_def l1_only_def)

lemma preserves_mono: "preserves R m \<Longrightarrow> (\<And>c c'. R c c' \<Longrightarrow> S c c') \<Longrightarrow> preserves S m"
  by (auto simp: preserves_def)

lemma frame_steps:
  "preserves queue_frame (on_tokens m :: ('w, 'x, 'a) inbox_eff)"
  "preserves queue_frame (emit_event ev :: ('w, 'x, unit) inbox_eff)"
  "(\<And>ob. last_batch (f ob) = last_batch ob) \<Longrightarrow>
    preserves queue_frame (set_outbox f :: ('w, 'x inbox_ctx_ext, unit) outbox_eff)"
  "preserves queue_frame (get_outbox g :: ('w, 'x inbox_ctx_ext, 'b) outbox_eff)"
  "preserves queue_frame (get_inbox k :: ('w, 'x, 'b) inbox_eff)"
  by (auto simp: preserves_def queue_frame_def on_tokens_def emap_err_def ezoom_def split: prod.splits)

lemma frame_recover: "preserves queue_frame (recover_encrypted_payload env d dec key)"
  by (rule preserves_mono [OF preserves_recover_encrypted_payload l1_only_queue_frame])

lemma frame_key: "preserves queue_frame (read_encryption_key env i)"
  by (rule preserves_mono [OF preserves_read_encryption_key l1_only_queue_frame])

lemma frame_catch: "preserves queue_frame m \<Longrightarrow> preserves queue_frame (catch_logic_err env m)"
  by (auto simp: preserves_def catch_logic_err_def
      split: prod.splits sum.splits ZonePrecompileError.splits if_splits)

lemma frame_checkpoint: "preserves queue_frame m \<Longrightarrow> preserves queue_frame (with_checkpoint m)"
  by (auto simp: preserves_def with_checkpoint_def queue_frame_def
      split: prod.splits sum.splits bool.splits)

lemma frame_try_mint: "preserves queue_frame (try_mint env token to amount)"
  unfolding try_mint_def
  by (auto intro!: preserves_intros frame_steps frame_catch frame_checkpoint)

lemma frame_fail_deposit: "preserves queue_frame (fail_deposit h d)"
  unfolding fail_deposit_def enqueue_deposit_bounce_back_def enqueue_def
  by (auto intro!: preserves_intros frame_steps simp: last_batch_def)

lemma frame_set_refund:
  "preserves queue_frame (set_inbox (\<lambda>ib. ib\<lparr>withdrawal_bounce_backs := f ib\<rparr>))"
  by (auto simp: preserves_def queue_frame_def)

lemma frame_process_deposit: "preserves queue_frame (process_deposit env h d dec key)"
  unfolding process_deposit_def
  by (auto intro!: preserves_intros frame_steps frame_recover frame_try_mint frame_fail_deposit
      split: option.splits)

lemma frame_bounce_back: "preserves queue_frame (process_withdrawal_bounce_back env d)"
  unfolding process_withdrawal_bounce_back_def consume_fallback_recipient_def Let_def
  by (auto intro!: preserves_intros frame_steps frame_try_mint frame_set_refund simp: last_batch_def)

lemma frame_process_queued: "preserves queue_frame (process_queued env d acc)"
  unfolding process_queued_def Let_def
  by (auto intro!: preserves_intros frame_process_deposit frame_bounce_back frame_key
      split: DecodedQueuedDeposit.splits list.splits)

lemma frame_queue: "preserves queue_frame (efold (process_queued env) ds acc)"
  by (induction ds arbitrary: acc)
    (auto intro!: preserves_intros frame_process_queued)

section \<open>Properties\<close>

lemma trivial_admin_laws: "token_admin_laws ops (\<lambda>_ _. 0)"
  by (simp add: token_admin_laws_def)

lemma advance_tempo_Inr:
  fixes c c' :: "('w, 'x) inbox_ctx_scheme"
  assumes "advance_tempo env caller call c = (Inr (), c')"
  obtains n ds h count num and c1 c2 c3 :: "('w, 'x) inbox_ctx_scheme" where
    "caller = 0" "u64_of_usize (length (at_deposits call)) = Some n"
    "decode_deposits env (at_deposits call) = Inr ds"
    "finalize_checkpoints env [at_header call] c = (Inr (), c1)"
    "apply_token_enablements env (at_enabledTokens call) c1 = (Inr count, c2)"
    "process_deposit_queue env ds (at_decryptions call) c2 = (Inr h, c3)"
    "checked_add (processed_deposit_number (zc_inbox c3)) n = Some num"
    "zc_inbox c' = (zc_inbox c3)\<lparr>processed_deposit_queue_hash := h, processed_deposit_number := num\<rparr>"
    "zc_tokens c' = zc_tokens c3" "zc_outbox c' = zc_outbox c3" "zc_tempo c' = zc_tempo c3"
    "zc_l1 c' = zc_l1 c3"
  using assms by (cases "ze_is_t13 env") (auto simp: advance_tempo_def)

lemma enablement_update_fields:
  assumes "ib' = ib\<lparr>processed_token_enablement_hash := h, processed_enabled_token_count := n\<rparr>"
  shows "processed_deposit_queue_hash ib' = processed_deposit_queue_hash ib"
    and "processed_deposit_number ib' = processed_deposit_number ib"
    and "processed_token_enablement_hash ib' = h"
    and "withdrawal_bounce_backs ib' = withdrawal_bounce_backs ib"
  using assms by simp_all

text \<open>The checkpoint step leaves tokens, outbox and inbox alone.\<close>

lemma finalize_checkpoint_frame:
  fixes c c' :: "('w, 'x) inbox_ctx_scheme"
  assumes "finalize_checkpoints env headers c = (Inr (), c')"
  shows "zc_tokens c' = zc_tokens c \<and> zc_outbox c' = zc_outbox c \<and> zc_inbox c' = zc_inbox c \<and>
    anchor (zc_l1 c') = Some (tempo_block_number (zc_tempo c')) \<and>
    unat (tempo_block_number (zc_tempo c')) = unat (tempo_block_number (zc_tempo c)) + length headers"
  using finalize_checkpoints_Inr [OF assms] by (auto dest: scan_headers_last)

lemma advance_tempo_effect:
  assumes "advance_tempo env caller call c = (Inr (), c')"
  shows "\<exists>ds. decode_deposits env (at_deposits call) = Inr ds
    \<and> processed_deposit_queue_hash (zc_inbox c') = deposit_chain env ds (processed_deposit_queue_hash (zc_inbox c))
    \<and> unat (processed_deposit_number (zc_inbox c')) = unat (processed_deposit_number (zc_inbox c)) + length ds
    \<and> length (at_decryptions call) = user_deposits ds
    \<and> unat (tempo_block_number (zc_tempo c')) = unat (tempo_block_number (zc_tempo c)) + 1
    \<and> processed_token_enablement_hash (zc_inbox c') =
        fold (hash_with_previous env) (at_enabledTokens call) (processed_token_enablement_hash (zc_inbox c))
    \<and> (ze_portal env \<noteq> 0 \<longrightarrow> (\<exists>word.
         ze_reader env (ze_portal env) (fst (pl_current_deposit_queue_hash (ze_layout env)))
           (tempo_block_number (zc_tempo c')) = Inr word
         \<and> snd (pl_current_deposit_queue_hash (ze_layout env)) word
           = Inr (processed_deposit_queue_hash (zc_inbox c'))))"
  using assms
proof (rule advance_tempo_Inr)
  fix n ds h count num c1 c2 c3
  assume n: "u64_of_usize (length (at_deposits call)) = Some n"
    and ds: "decode_deposits env (at_deposits call) = Inr ds"
    and fin: "finalize_checkpoints env [at_header call] c = (Inr (), c1)"
    and tok: "apply_token_enablements env (at_enabledTokens call) c1 = (Inr count, c2)"
    and q: "process_deposit_queue env ds (at_decryptions call) c2 = (Inr h, c3)"
    and num: "checked_add (processed_deposit_number (zc_inbox c3)) n = Some num"
    and ib: "zc_inbox c' = (zc_inbox c3)\<lparr>processed_deposit_queue_hash := h, processed_deposit_number := num\<rparr>"
    and tempo: "zc_tempo c' = zc_tempo c3"
  note f = finalize_checkpoint_frame [OF fin]
    and t = apply_token_enablements_Inr [OF trivial_admin_laws tok]
  have len: "unat n = length ds"
    using u64_of_usize_Some [OF n] try_map_length [OF ds [unfolded decode_deposits_def]] by simp
  have ib2: "processed_deposit_queue_hash (zc_inbox c2) = processed_deposit_queue_hash (zc_inbox c)"
    "processed_deposit_number (zc_inbox c2) = processed_deposit_number (zc_inbox c)"
    "processed_token_enablement_hash (zc_inbox c2) = fold (hash_with_previous env) (at_enabledTokens call)
       (processed_token_enablement_hash (zc_inbox c))"
    using enablement_update_fields(1-3) [OF conjunct2 [OF conjunct2 [OF conjunct2 [OF conjunct2 [OF t]]]]]
      f by simp_all
  from q show ?thesis
  proof (rule process_deposit_queue_Inr)
    fix c4
    assume fld: "efold (process_queued env) ds (processed_deposit_queue_hash (zc_inbox c2),
          at_decryptions call) c2 = (Inr (h, []), c4)"
      and l1: "l1_only c4 c3"
      and rd: "\<And>b. ze_portal env \<noteq> 0 \<Longrightarrow> anchor (zc_l1 c4) = Some b \<Longrightarrow>
       \<exists>word. ze_reader env (ze_portal env) (fst (pl_current_deposit_queue_hash (ze_layout env))) b = Inr word
         \<and> snd (pl_current_deposit_queue_hash (ze_layout env)) word = Inr h"
    have frame: "queue_frame c2 c4" using preservesD [OF frame_queue fld] .
    have tempo': "zc_tempo c' = zc_tempo c1"
      using tempo l1_onlyD(1) [OF l1] frame t by (simp add: queue_frame_def)
    have a4: "anchor (zc_l1 c4) = Some (tempo_block_number (zc_tempo c'))"
      using f t frame tempo' by (simp add: queue_frame_def)
    show ?thesis
      using process_queue_acc [OF fld] ds len f ib ib2 frame l1_only_inbox [OF l1] tempo' rd [OF _ a4]
        checked_add_Some(2) [OF num]
      by (auto simp: queue_frame_def)
  qed
qed

lemma finalize_checkpoints_links:
  assumes "finalize_checkpoints env headers c = (Inr (), c')"
  shows "headers \<noteq> [] \<and> tempo_block_hash (zc_tempo c') = ze_keccak env (last headers)
    \<and> headers_linked env (tempo_block_hash (zc_tempo c)) (tempo_block_number (zc_tempo c)) headers"
proof -
  from finalize_checkpoints_Inr [OF assms] obtain scan where
    scan: "try_fold (scan_header env) headers \<lparr>cs_block_number = tempo_block_number (zc_tempo c),
        cs_block_hash = tempo_block_hash (zc_tempo c), cs_state_root = 0, cs_timestamp = 0,
        cs_timestamp_millis_part = 0\<rparr> = Inr scan"
    and c': "tempo_block_hash (zc_tempo c') = cs_block_hash scan" "headers \<noteq> []" by auto
  then show ?thesis
    using scan_headers_iff [THEN iffD1, OF exI, OF scan] scan_headers_last [OF scan] by simp
qed

text \<open>An advance leaves the last finalized batch alone and stores the hash of the next header.\<close>

lemma advance_tempo_frame:
  assumes "advance_tempo env caller call c = (Inr (), c')"
  shows "caller = 0 \<and> last_batch (zc_outbox c') = last_batch (zc_outbox c)
    \<and> headers_linked env (tempo_block_hash (zc_tempo c)) (tempo_block_number (zc_tempo c)) [at_header call]
    \<and> tempo_block_hash (zc_tempo c') = ze_keccak env (at_header call)"
  using assms
proof (rule advance_tempo_Inr)
  fix n ds h count num c1 c2 c3
  assume fin: "finalize_checkpoints env [at_header call] c = (Inr (), c1)"
    and tok: "apply_token_enablements env (at_enabledTokens call) c1 = (Inr count, c2)"
    and q: "process_deposit_queue env ds (at_decryptions call) c2 = (Inr h, c3)"
    and rest: "zc_outbox c' = zc_outbox c3" "zc_tempo c' = zc_tempo c3" "caller = 0"
  have frame: "queue_frame c2 c3"
    using q
  proof (rule process_deposit_queue_Inr)
    fix c4
    assume fld: "efold (process_queued env) ds (processed_deposit_queue_hash (zc_inbox c2),
          at_decryptions call) c2 = (Inr (h, []), c4)" and "l1_only c4 c3"
    then show ?thesis
      using transpD [OF queue_frame_trans preservesD [OF frame_queue fld]] l1_only_queue_frame by blast
  qed
  show ?thesis
    using finalize_checkpoints_links [OF fin] frame rest
      finalize_checkpoint_frame [OF fin] apply_token_enablements_Inr [OF trivial_admin_laws tok]
    by (simp add: queue_frame_def)
qed


text \<open>
  C8. Deposits conserve value: what a successful \<open>advanceTempo\<close> adds to the zone's token supply,
  to the queued withdrawals (deposits that could not be minted) and to the parked refunds
  (bounced withdrawals that could not be minted) is, for every token, exactly the sum of the
  deposits consumed.
\<close>

theorem advance_tempo_conserves_value:
  assumes "token_supply_laws (ze_tokens env) supply" and "token_admin_laws (ze_tokens env) supply"
    and "sinc_law env" and "advance_tempo env caller call c = (Inr (), c')"
  shows "\<exists>ds. decode_deposits env (at_deposits call) = Inr ds
    \<and> (\<forall>t. zone_value supply c' t = zone_value supply c t + sum_list (map (\<lambda>d. deposit_value d t) ds))"
  using assms(4)
proof (rule advance_tempo_Inr)
  fix ds h count num c1 c2 c3
  assume ds: "decode_deposits env (at_deposits call) = Inr ds"
    and fin: "finalize_checkpoints env [at_header call] c = (Inr (), c1)"
    and tok: "apply_token_enablements env (at_enabledTokens call) c1 = (Inr count, c2)"
    and q: "process_deposit_queue env ds (at_decryptions call) c2 = (Inr h, c3)"
    and end_state: "zc_inbox c' = (zc_inbox c3)\<lparr>processed_deposit_queue_hash := h, processed_deposit_number := num\<rparr>"
      "zc_tokens c' = zc_tokens c3" "zc_outbox c' = zc_outbox c3"
  have v2: "zone_value supply c2 t = zone_value supply c t" for t
  proof -
    note a = apply_token_enablements_Inr [OF assms(2) tok]
    then have "withdrawal_bounce_backs (zc_inbox c2) = withdrawal_bounce_backs (zc_inbox c1)"
      using enablement_update_fields(4) [where ib' = "zc_inbox c2" and ib = "zc_inbox c1"] by blast
    then show ?thesis
      using finalize_checkpoint_frame [OF fin] a by (simp only: zone_value_def parked_value_def)
  qed
  from q obtain c4 where fld: "efold (process_queued env) ds (processed_deposit_queue_hash (zc_inbox c2),
          at_decryptions call) c2 = (Inr (h, []), c4)" and l1: "l1_only c4 c3"
    by (rule process_deposit_queue_Inr) blast
  have "zone_value supply c' t = zone_value supply c4 t" for t
    using l1_only_inbox [OF l1] l1_only_outbox [OF l1] l1_onlyD(2) [OF l1]
    by (simp add: zone_value_def parked_value_def end_state)
  then show ?thesis
    using ds v2 process_queue_value [OF assms(1,3) fld] by auto
qed

text \<open>
  A deposit ends in exactly one way. Either it is minted to the decrypted recipient, is
  reported as processed and nothing is queued; or it is reported as failed, one bounce-back of the
  same token and amount to the depositor's refund address is queued, and nothing is minted.
\<close>

lemma process_deposit_outcome:
  assumes laws: "token_supply_laws (ze_tokens env) supply"
    and run: "process_deposit env h d dec key c = (Inr (), c')"
  shows "(\<exists>to memo. last (zc_events c') = DepositProcessed h (dp_sender d) to (dp_token d) (dp_amount d) memo
            \<and> zc_outbox c' = zc_outbox c
            \<and> supply (zc_tokens c') (dp_token d) = supply (zc_tokens c) (dp_token d) + unat (dp_amount d))
       \<or> (last (zc_events c') = DepositFailed h (dp_sender d) (dp_token d) (dp_amount d)
            \<and> pending_withdrawals (zc_outbox c') = pending_withdrawals (zc_outbox c) @
                [from_bounce_back \<lparr>eb_token = dp_token d, eb_amount = dp_amount d,
                   eb_tempoRefundRecipient = dp_tempoRefundRecipient d\<rparr>]
            \<and> supply (zc_tokens c') = supply (zc_tokens c))"
proof -
  obtain p c1 where p: "recover_encrypted_payload env d dec key c = (Inr p, c1)"
    using run by (auto simp: process_deposit_def)
  have l1: "l1_only c c1" using preservesD [OF preserves_recover_encrypted_payload p] .
  have same: "zc_outbox c1 = zc_outbox c" "zc_tokens c1 = zc_tokens c"
    using l1_only_outbox [OF l1] l1_onlyD(2) [OF l1] by simp_all
  have failed: "last (zc_events c') = DepositFailed h (dp_sender d) (dp_token d) (dp_amount d)
      \<and> pending_withdrawals (zc_outbox c') = pending_withdrawals (zc_outbox c2) @
          [from_bounce_back \<lparr>eb_token = dp_token d, eb_amount = dp_amount d,
             eb_tempoRefundRecipient = dp_tempoRefundRecipient d\<rparr>]
      \<and> zc_tokens c' = zc_tokens c2" if "fail_deposit h d c2 = (Inr (), c')" for c2
    using that by (auto simp: fail_deposit_def enqueue_deposit_bounce_back_def dest!: enqueue_Inr)
  show ?thesis
  proof (cases p)
    case None
    then show ?thesis using run p failed [of c1] same by (auto simp: process_deposit_def)
  next
    case (Some pr)
    then obtain to memo where pr: "p = Some (to, memo)" by (cases pr) auto
    then obtain b c2 where b: "try_mint env (dp_token d) to (dp_amount d) c1 = (Inr b, c2)"
      and rest: "(if b then emit_event (DepositProcessed h (dp_sender d) to (dp_token d) (dp_amount d) memo)
                  else fail_deposit h d) c2 = (Inr (), c')"
      using run p by (auto simp: process_deposit_def)
    from try_mint_Inr [OF laws b] obtain w where w: "c2 = c1\<lparr>zc_tokens := w\<rparr>"
      "\<And>t. supply w t = supply (zc_tokens c1) t + (if b \<and> t = dp_token d then unat (dp_amount d) else 0)"
      by blast
    show ?thesis
    proof (cases b)
      case True
      then show ?thesis using rest w same by auto
    next
      case False
      then have "supply w = supply (zc_tokens c)" using w(2) same by auto
      then show ?thesis using rest False failed [of c2] w(1) same by simp
    qed
  qed
qed

text \<open>
  C16. An honest deposit reaches its recipient: when a deposit carries what the depositor encrypted
  to the sequencer's key and the sequencer supplies the proof it computes for it, the inbox
  recovers the depositor's recipient and memo. It never answers with a failed decryption.
\<close>

theorem honest_deposit_recovered:
  assumes co: "co = ze_crypto env"
    and laws: "curve_laws co" "point_laws co" "aes_laws co"
    and pub: "co_compressed_x co (co_mul co (co_generator co) priv) \<noteq> None"
    and key: "compressed_x_and_parity co (co_mul co (co_generator co) priv) = (seq_x, seq_par)"
    and eph: "co_compressed_x co (co_mul co (co_generator co) e) \<noteq> None"
    and enc: "encrypt_deposit co e nonce seq_x seq_par to memo (dp_sender d) (ze_portal env) (dp_keyIndex d)
                = Some a"
    and pay: "dp_encrypted d = \<lparr>pay_ephemeralPubkeyX = ed_eph_pub_x a,
                pay_ephemeralPubkeyYParity = ed_eph_pub_y_parity a, pay_ciphertext = ed_ciphertext a,
                pay_nonce = ed_nonce a, pay_tag = ed_tag a\<rparr>"
    and ecdh: "compute_ecdh_proof co priv (ed_eph_pub_x a) (ed_eph_pub_y_parity a) = Some pr"
    and dec: "dec = \<lparr>dec_sharedSecret = ep_shared_secret pr,
                dec_sharedSecretYParity = ep_shared_secret_y_parity pr, dec_cpProof = ep_cp_proof pr\<rparr>"
    and run: "recover_encrypted_payload env d dec (seq_x, seq_par) c = (Inr payload, c')"
  shows "payload = Some (to, memo)"
proof -
  have seq: "co_compressed_x co (co_mul co (co_generator co) priv) = Some seq_x"
    "seq_par = hd (co_compressed co (co_mul co (co_generator co) priv))"
    using pub key by (auto simp: compressed_x_and_parity_def)
  have ok: "cp_verify co (ed_eph_pub_x a) (ed_eph_pub_y_parity a) (ep_shared_secret pr)
      (ep_shared_secret_y_parity pr) seq_x seq_par (ep_cp_proof pr)"
    using cp_proof_complete [OF laws(1,2) ecdh seq(1)] seq(2) by simp
  have "decrypt_deposit co priv (ed_eph_pub_x a) (ed_eph_pub_y_parity a) (ed_ciphertext a) (ed_nonce a)
      (ed_tag a) (ze_portal env) (dp_keyIndex d) (dp_sender d)
      = Some \<lparr>dd_proof = pr, dd_to = to, dd_memo = memo\<rparr>"
    by (rule decrypt_encrypt_deposit [OF laws seq(1) eph _ ecdh]) (use enc seq(2) in simp)
  then show ?thesis
    using run ok ecdh
    by (auto simp: recover_encrypted_payload_def decrypt_deposit_def pay dec Let_def co
        split: prod.splits if_splits)
qed

text \<open>
  C17. The processed queue hash binds the deposits: two advancements from the same processed hash
  that reach the same hash consumed the same deposits in the same order, provided the link hashes
  they evaluate do not collide with one another and do not return to the starting hash.
\<close>

theorem processed_deposits_bound:
  assumes "advance_tempo env caller call c = (Inr (), c')"
    and "advance_tempo env caller2 call2 d = (Inr (), d')"
    and "processed_deposit_queue_hash (zc_inbox c) = h" and "processed_deposit_queue_hash (zc_inbox d) = h"
    and "processed_deposit_queue_hash (zc_inbox c') = processed_deposit_queue_hash (zc_inbox d')"
    and "decode_deposits env (at_deposits call) = Inr ds"
    and "decode_deposits env (at_deposits call2) = Inr es"
    and "links_distinct (deposit_hash_with_tail env)
           (chain_links (deposit_hash_with_tail env) (rev ds) h) (chain_links (deposit_hash_with_tail env) (rev es) h)"
    and "links_avoid (deposit_hash_with_tail env) h (chain_links (deposit_hash_with_tail env) (rev ds) h)"
    and "links_avoid (deposit_hash_with_tail env) h (chain_links (deposit_hash_with_tail env) (rev es) h)"
  shows "ds = es"
proof -
  have chain: "processed_deposit_queue_hash (zc_inbox y) = deposit_chain env zs h"
    if "advance_tempo env cl k x = (Inr (), y)" "processed_deposit_queue_hash (zc_inbox x) = h"
      "decode_deposits env (at_deposits k) = Inr zs" for cl k x y zs
    using that(1)
  proof (rule advance_tempo_Inr)
    fix ds h' num count c1 c2 c3
    assume r: "decode_deposits env (at_deposits k) = Inr ds"
      "finalize_checkpoints env [at_header k] x = (Inr (), c1)"
      "apply_token_enablements env (at_enabledTokens k) c1 = (Inr count, c2)"
      "process_deposit_queue env ds (at_decryptions k) c2 = (Inr h', c3)"
      "zc_inbox y = (zc_inbox c3)\<lparr>processed_deposit_queue_hash := h', processed_deposit_number := num\<rparr>"
    note t = apply_token_enablements_Inr [OF trivial_admin_laws r(3)]
    have "processed_deposit_queue_hash (zc_inbox c2) = h"
      using enablement_update_fields(1) [OF conjunct2 [OF conjunct2 [OF conjunct2 [OF conjunct2 [OF t]]]]]
        finalize_checkpoint_frame [OF r(2)] that(2) by simp
    with r(4) have "h' = deposit_chain env ds h"
      by (auto elim!: process_deposit_queue_Inr dest: process_queue_acc)
    then show ?thesis using r(1,5) that(3) by simp
  qed
  show ?thesis
    using deposits.append_binding [of env ds h es] chain [OF assms(1,3,6)] chain [OF assms(2,4,7)] assms(5,8-10)
    by simp
qed

text \<open>Reading a refund that fits 128 bits gives its value.\<close>

definition load_law :: "'w zone_env \<Rightarrow> bool" where
  "load_law env \<longleftrightarrow> (\<forall>v. unat v < 2 ^ 128 \<longrightarrow> ze_load_u128 env v = Inr (ucast v))"

text \<open>
  A refund is paid once: a successful claim mints exactly the parked amount, clears it, and
  leaves the zone's total value unchanged; claiming again mints nothing.
\<close>

lemma claim_refund_conserves_value:
  assumes laws: "token_supply_laws (ze_tokens env) supply" and load: "load_law env"
    and fits: "unat (withdrawal_bounce_backs (zc_inbox c) token caller) < 2 ^ 128"
    and run: "claim_refund env caller token c = (Inr amount, c')"
  shows "unat amount = unat (withdrawal_bounce_backs (zc_inbox c) token caller)
    \<and> withdrawal_bounce_backs (zc_inbox c') token caller = 0
    \<and> supply (zc_tokens c') token = supply (zc_tokens c) token + unat amount
    \<and> (\<forall>t. zone_value supply c' t = zone_value supply c t)"
proof -
  let ?slot = "withdrawal_bounce_backs (zc_inbox c) token caller"
  obtain c1 where amt: "ze_load_u128 env ?slot = Inr amount"
    and mint: "try_mint env token caller amount c = (Inr True, c1)"
    and c': "c' = c1\<lparr>zc_inbox := (zc_inbox c1)\<lparr>withdrawal_bounce_backs := (withdrawal_bounce_backs (zc_inbox c1))
             (token := (withdrawal_bounce_backs (zc_inbox c1) token)(caller := 0))\<rparr>,
           zc_events := zc_events c1 @ [RefundClaimed caller token amount]\<rparr>"
    using run by (auto simp: claim_refund_def)
  have "amount = ucast ?slot" using amt load fits by (simp add: load_law_def)
  then have slot: "unat amount = unat ?slot"
    using fits by (simp add: unsigned_ucast_eq take_bit_nat_eq_self_iff)
  from try_mint_Inr [OF laws mint] obtain w where w: "c1 = c\<lparr>zc_tokens := w\<rparr>"
    "\<And>t. supply w t = supply (zc_tokens c) t + (if True \<and> t = token then unat amount else 0)" by blast
  have parked: "parked_value (zc_inbox c') t + (if t = token then unat amount else 0) = parked_value (zc_inbox c) t" for t
    using parked_upd [of "zc_inbox c" token caller 0 t] by (simp add: c' w(1) slot cong: if_cong)
  have "zone_value supply c' t = zone_value supply c t" for t
    using parked [of t] by (auto simp: zone_value_def c' w)
  then show ?thesis using slot by (simp add: c' w)
qed

section \<open>Witnesses\<close>

definition sample_inbox :: ZoneInbox where
  "sample_inbox =
     \<lparr>processed_deposit_queue_hash = 0, processed_deposit_number = 0,
      withdrawal_bounce_backs = (\<lambda>t a. if t = 1 \<and> a = 51 then 30 else 0),
      processed_token_enablement_hash = 0, processed_enabled_token_count = 0\<rparr>"

definition inbox_sample_ctx :: "ledger inbox_ctx" where
  "inbox_sample_ctx =
     \<lparr>zc_l1 = \<lparr>anchor = None, access_set = {}\<rparr>, zc_gas = 1000000,
      zc_tempo = \<lparr>tempo_block_hash = 3, tempo_block_number = 4\<rparr>,
      zc_tokens = (\<lambda>t a. 0), zc_events = [],
      zc_outbox = sample_outbox, zc_inbox = sample_inbox\<rparr>"

text \<open>The portal holds the hash of a queue with one deposit, and the sequencer's key.\<close>

definition queue_portal :: "b256 \<Rightarrow> b256" where
  "queue_portal s = (if s = 9 then 1 else if s = 10 then 3 else if s = 11 then 2 else 0)"

definition bad_decryption :: DecryptionData where
  "bad_decryption = \<lparr>dec_sharedSecret = 0, dec_sharedSecretYParity = 2,
     dec_cpProof = \<lparr>cp_s = 0, cp_c = 0\<rparr>\<rparr>"

definition sample_advance :: advanceTempoCall where
  "sample_advance = \<lparr>at_header = [3, 5],
     at_deposits = [\<lparr>qd_depositType = DepositKind, qd_depositData = [7, 7], qd_rejected = False\<rparr>],
     at_decryptions = [bad_decryption], at_enabledTokens = []\<rparr>"

lemmas inbox_eval =
  sample_defs sample_outbox_def sample_inbox_def inbox_sample_ctx_def queue_portal_def
  bad_decryption_def eseq_def ebind_def
  read_portal_def read_l1_def l1_storage_load_def read_l1_storage_def deduct_gas_def on_l1_def
  emap_err_def ezoom_def read_l1_storage_unmetered_def set_anchor_def on_tokens_def
  checked_add_def

lemma sample_finalize:
  "finalize_checkpoints (sample_env queue_portal) [[3, 5]] inbox_sample_ctx =
     (Inr (), inbox_sample_ctx\<lparr>zc_l1 := \<lparr>anchor = Some 5, access_set = {}\<rparr>,
        zc_tempo := \<lparr>tempo_block_hash = 2, tempo_block_number = 5\<rparr>,
        zc_events := [TempoBlockFinalized 2 5 0]\<rparr>)"
  by (simp add: inbox_eval finalize_checkpoints_def scan_header_def decode_exact_def
      scan_timestamp_millis_def advance_anchor_def write_checkpoint_def saturating_mul_def
      saturating_add_def MAX_TEMPO_HEADERS_PER_ZONE_BLOCK_def)

lemma sample_verify: "\<not> cp_verify toy_crypto x y 0 2 3 2 \<lparr>cp_s = 0, cp_c = 0\<rparr>"
  by (simp add: cp_verify_def recover_point_def challenge_hash_def toy_crypto_def Let_def)

lemma sample_advance_ok:
  "\<exists>c'. advance_tempo (sample_env queue_portal) 0 sample_advance inbox_sample_ctx = (Inr (), c')
     \<and> processed_deposit_queue_hash (zc_inbox c') = 1"
proof -
  let ?c1 = "inbox_sample_ctx\<lparr>zc_l1 := \<lparr>anchor = Some 5, access_set = {}\<rparr>,
        zc_tempo := \<lparr>tempo_block_hash = 2, tempo_block_number = 5\<rparr>,
        zc_events := [TempoBlockFinalized 2 5 0]\<rparr>"
  obtain c2 n where c2: "apply_token_enablements (sample_env queue_portal) [] ?c1 = (Inr n, c2)"
    and f2: "zc_inbox c2 = sample_inbox" "zc_outbox c2 = sample_outbox" "zc_gas c2 = 995800"
      "anchor (zc_l1 c2) = Some 5" "access_set (zc_l1 c2) = {(77, 8), (77, 7)}"
    by (simp add: apply_token_enablements_def read_enablement_commitment_def enable_tokens_def
        next_token_count_def u64_of_usize_def read_portal_vec_len_def inbox_eval)
  obtain c3 where c3: "process_deposit_queue (sample_env queue_portal)
      [DecodedDeposit (the (sample_decode_deposit [7, 7]))] [bad_decryption] c2 = (Inr 1, c3)"
    and f3: "zc_inbox c3 = sample_inbox"
    using f2
    by (simp add: process_deposit_queue_def process_queued_def read_encryption_key_def
        process_deposit_def recover_encrypted_payload_def cp_charge_gas_def CP_VERIFY_GAS_def
        sample_verify fail_deposit_def enqueue_deposit_bounce_back_def enqueue_def
        deposit_hash_with_tail_def Let_def inbox_eval)
  have env: "ze_is_t13 (sample_env queue_portal)" by (simp add: sample_env_def)
  show ?thesis
    using c3 c2 f3 env
    by (simp add: advance_tempo_def sample_advance_def sample_finalize decode_deposits_def decode_deposit_def
        u64_of_usize_def eseq_def ebind_def sample_env_def [of queue_portal, THEN arg_cong [where f = ze_decode_deposit]]
        checked_add_def sample_inbox_def)
qed


lemma sample_token_laws:
  "token_supply_laws (ze_tokens (sample_env slots)) ledger_supply"
  "token_admin_laws (ze_tokens (sample_env slots)) ledger_supply"
  "sinc_law (sample_env slots)" "load_law (sample_env slots)"
  using ledger_supply_laws
  by (auto simp: sample_env_def token_admin_laws_def ledger_ops_def sinc_law_def load_law_def
      dest: checked_add_Some(2))

theorem advance_tempo_conserves_value_witness:
  "\<exists>c'. advance_tempo (sample_env queue_portal) 0 sample_advance inbox_sample_ctx = (Inr (), c')
     \<and> zone_value ledger_supply c' 1 = zone_value ledger_supply inbox_sample_ctx 1 + 7"
proof -
  obtain c' where c': "advance_tempo (sample_env queue_portal) 0 sample_advance inbox_sample_ctx = (Inr (), c')"
    using sample_advance_ok by blast
  have ds: "decode_deposits (sample_env queue_portal) (at_deposits sample_advance) = Inr
      [DecodedDeposit (the (sample_decode_deposit [7, 7]))]"
    by (simp add: decode_deposits_def decode_deposit_def sample_advance_def sample_env_def)
  from advance_tempo_conserves_value [OF sample_token_laws(1-3) c'] c' show ?thesis
    unfolding ds by (simp add: unat_ucast_up)
qed

lemma sample_process_deposit:
  "\<exists>c'. process_deposit (sample_env queue_portal) 1 (the (sample_decode_deposit [7, 7])) bad_decryption
     (3, 2) inbox_sample_ctx = (Inr (), c') \<and> last (zc_events c') = DepositFailed 1 11 1 7"
  by (simp add: process_deposit_def recover_encrypted_payload_def cp_charge_gas_def CP_VERIFY_GAS_def
      sample_verify fail_deposit_def enqueue_deposit_bounce_back_def enqueue_def inbox_eval)

lemma process_deposit_outcome_witness:
  "\<exists>c'. process_deposit (sample_env queue_portal) 1 (the (sample_decode_deposit [7, 7])) bad_decryption
       (3, 2) inbox_sample_ctx = (Inr (), c')
     \<and> pending_withdrawals (zc_outbox c') = [from_bounce_back \<lparr>eb_token = 1, eb_amount = 7,
         eb_tempoRefundRecipient = 13\<rparr>]
     \<and> ledger_supply (zc_tokens c') = ledger_supply (zc_tokens inbox_sample_ctx)"
proof -
  obtain c' where c': "process_deposit (sample_env queue_portal) 1 (the (sample_decode_deposit [7, 7]))
      bad_decryption (3, 2) inbox_sample_ctx = (Inr (), c')"
    and ev: "last (zc_events c') = DepositFailed 1 11 1 7" using sample_process_deposit by blast
  from process_deposit_outcome [OF sample_token_laws(1) c'] c' ev show ?thesis
    by (auto simp: inbox_sample_ctx_def sample_outbox_def)
qed

lemma recover_encrypted_payload_total:
  assumes "cp_charge_gas env c = (Inr (), c1)"
    and "aes_charge_gas env (length (pay_ciphertext (dp_encrypted d))) 0 c1 = (Inr (), c2)"
  shows "\<exists>p c'. recover_encrypted_payload env d dec key c = (Inr p, c')"
  using assms by (auto simp: recover_encrypted_payload_def eseq_def ebind_def Let_def ereturn_def
      split: prod.splits)

definition honest_deposit :: "EncryptedDepositArgs \<Rightarrow> Deposit" where
  "honest_deposit a = \<lparr>dp_token = 1, dp_sender = 11, dp_amount = 7, dp_tempoRefundRecipient = 13,
     dp_keyIndex = 0, dp_encrypted = \<lparr>pay_ephemeralPubkeyX = ed_eph_pub_x a,
                pay_ephemeralPubkeyYParity = ed_eph_pub_y_parity a, pay_ciphertext = ed_ciphertext a,
                pay_nonce = ed_nonce a, pay_tag = ed_tag a\<rparr>\<rparr>"

lemma sample_charges:
  "\<exists>c1 c2. cp_charge_gas (sample_env queue_portal) inbox_sample_ctx = (Inr (), c1)
     \<and> aes_charge_gas (sample_env queue_portal) 64 0 c1 = (Inr (), c2)"
  by (simp add: cp_charge_gas_def CP_VERIFY_GAS_def aes_charge_gas_def AES_GCM_BASE_GAS_def
      AES_GCM_PER_BYTE_GAS_def saturating_mul_def inbox_eval Let_def)

theorem honest_deposit_recovered_witness:
  "\<exists>a c'. encrypt_deposit toy_crypto 7 [1] 3 2 0xabc 0xdef 11 77 0 = Some a \<and>
     recover_encrypted_payload (sample_env queue_portal) (honest_deposit a)
       \<lparr>dec_sharedSecret = 21, dec_sharedSecretYParity = 2, dec_cpProof = \<lparr>cp_s = 24, cp_c = 5\<rparr>\<rparr>
       (3, 2) inbox_sample_ctx = (Inr (Some (0xabc, 0xdef)), c')"
proof -
  obtain a where a: "encrypt_deposit toy_crypto 7 [1] 3 2 0xabc 0xdef 11 77 0 = Some a"
    and eph: "ed_eph_pub_x a = 7" "ed_eph_pub_y_parity a = 2" and len: "length (ed_ciphertext a) = 64"
    by (simp add: encrypt_deposit_def toy_crypto_def recover_point_def compressed_x_and_parity_def
        build_plaintext_def)
  let ?dec = "\<lparr>dec_sharedSecret = 21, dec_sharedSecretYParity = 2, dec_cpProof = \<lparr>cp_s = 24, cp_c = 5\<rparr>\<rparr>"
  have env: "toy_crypto = ze_crypto (sample_env queue_portal)" "ze_portal (sample_env queue_portal) = 77"
    by (simp_all add: sample_env_def)
  obtain c1 c2 where "cp_charge_gas (sample_env queue_portal) inbox_sample_ctx = (Inr (), c1)"
    and "aes_charge_gas (sample_env queue_portal) 64 0 c1 = (Inr (), c2)"
    using sample_charges by blast
  then obtain p c' where run: "recover_encrypted_payload (sample_env queue_portal) (honest_deposit a) ?dec (3, 2)
      inbox_sample_ctx = (Inr p, c')"
    using recover_encrypted_payload_total [of "sample_env queue_portal" inbox_sample_ctx c1 "honest_deposit a"
        c2 ?dec "(3, 2)"]
    by (auto simp: honest_deposit_def len)
  have enc: "encrypt_deposit toy_crypto 7 [1] 3 2 0xabc 0xdef (dp_sender (honest_deposit a))
      (ze_portal (sample_env queue_portal)) (dp_keyIndex (honest_deposit a)) = Some a"
    using a by (simp add: env honest_deposit_def)
  have "p = Some (0xabc, 0xdef)"
    by (rule honest_deposit_recovered [OF env(1) toy_laws _ toy_pub(2) _ enc _ toy_proof [folded eph] _ run])
      (simp_all add: toy_pub(1) honest_deposit_def eph)
  then show ?thesis using a run by blast
qed

theorem processed_deposits_bound_witness:
  "\<exists>ds. decode_deposits (sample_env queue_portal) (at_deposits sample_advance) = Inr ds \<and>
     ds = [DecodedDeposit (the (sample_decode_deposit [7, 7]))]"
proof -
  obtain c' where c': "advance_tempo (sample_env queue_portal) 0 sample_advance inbox_sample_ctx = (Inr (), c')"
    using sample_advance_ok by blast
  have ds: "decode_deposits (sample_env queue_portal) (at_deposits sample_advance) = Inr
      [DecodedDeposit (the (sample_decode_deposit [7, 7]))]"
    by (simp add: decode_deposits_def decode_deposit_def sample_advance_def sample_env_def)
  have "[DecodedDeposit (the (sample_decode_deposit [7, 7]))] =
      [DecodedDeposit (the (sample_decode_deposit [7, 7]))]"
    by (rule processed_deposits_bound [OF c' c' refl refl refl ds ds])
      (simp_all add: links_distinct_def links_avoid_def deposit_hash_with_tail_def sample_env_def
        count_bytes_def inbox_sample_ctx_def sample_inbox_def)
  then show ?thesis using ds by simp
qed

lemma claim_refund_conserves_value_witness:
  "\<exists>c'. claim_refund (sample_env queue_portal) 51 1 inbox_sample_ctx = (Inr 30, c')
     \<and> withdrawal_bounce_backs (zc_inbox c') 1 51 = 0
     \<and> ledger_supply (zc_tokens c') 1 = ledger_supply (zc_tokens inbox_sample_ctx) 1 + 30"
proof -
  obtain c' where c': "claim_refund (sample_env queue_portal) 51 1 inbox_sample_ctx = (Inr 30, c')"
    by (simp add: claim_refund_def try_mint_def catch_logic_err_def with_checkpoint_def inbox_eval)
  have "unat (withdrawal_bounce_backs (zc_inbox inbox_sample_ctx) 1 51) < 2 ^ 128"
    by (simp add: inbox_sample_ctx_def sample_inbox_def)
  from claim_refund_conserves_value [OF sample_token_laws(1,4) this c'] c' show ?thesis by auto
qed

end
