(* ===== verification/Accounting.thy ===== *)
theory Accounting
  imports BTree_Map Zone_Effects
begin

text \<open>
  The checker's bridge ledger (\<open>crates/checker/src/accounting/mod.rs\<close>): per-account entitlements,
  per-token aggregates of circulating and in-flight liabilities, and the transition that applies a
  block's effects in place with an undo log.

  The state is the pair of ordered maps the code has. \<open>apply\<close> runs in a context that also holds
  the two undo maps, so that the model keeps the partially mutated state on the error path and the
  rollback is the code's own. The lemmas show that a failed transition restores the state, that a
  successful one equals the plain fold of the effects, that the aggregate of every token stays the
  sum of its accounts, and that the validation of the changed aggregates never rejects a
  transition from a consistent state.
\<close>

section \<open>Keys and rows\<close>

datatype AccountKey = AccountKey (ak_token: address) (ak_account: address)

text \<open>The derived order compares the token first and the account second.\<close>

instantiation AccountKey :: linorder
begin

definition less_eq_AccountKey :: "AccountKey \<Rightarrow> AccountKey \<Rightarrow> bool" where
  "less_eq_AccountKey a b \<longleftrightarrow>
     ak_token a < ak_token b \<or> ak_token a = ak_token b \<and> ak_account a \<le> ak_account b"

definition less_AccountKey :: "AccountKey \<Rightarrow> AccountKey \<Rightarrow> bool" where
  "less_AccountKey a b \<longleftrightarrow>
     ak_token a < ak_token b \<or> ak_token a = ak_token b \<and> ak_account a < ak_account b"

instance
proof
  fix a b c :: AccountKey
  show "a < b \<longleftrightarrow> a \<le> b \<and> \<not> b \<le> a"
    by (auto simp: less_eq_AccountKey_def less_AccountKey_def)
  show "a \<le> a" by (simp add: less_eq_AccountKey_def)
  show "a \<le> b \<Longrightarrow> b \<le> c \<Longrightarrow> a \<le> c"
    by (auto simp: less_eq_AccountKey_def)
  show "a \<le> b \<Longrightarrow> b \<le> a \<Longrightarrow> a = b"
    by (auto simp: less_eq_AccountKey_def intro: AccountKey.expand)
  show "a \<le> b \<or> b \<le> a"
    by (auto simp: less_eq_AccountKey_def)
qed

end

record TokenState =
  account_total :: u256
  pending_deposits :: u256
  pending_withdrawals :: u256
  pending_tempo_refunds :: u256
  pending_zone_refunds :: u256

definition TokenState_default :: TokenState where
  "TokenState_default = \<lparr>account_total = 0, pending_deposits = 0, pending_withdrawals = 0,
     pending_tempo_refunds = 0, pending_zone_refunds = 0\<rparr>"

datatype AccountingError =
    UnknownToken address
  | Overflow
  | Underflow
  | BalanceMismatch AccountKey u256 u256
  | SupplyMismatch address u256 u256
  | AggregateMismatch address u256 u256
  | CollateralShortfall address u256 u256

definition and_then :: "'a option \<Rightarrow> ('a \<Rightarrow> 'b option) \<Rightarrow> 'b option" where
  "and_then v f = (case v of None \<Rightarrow> None | Some x \<Rightarrow> f x)"

definition liability :: "TokenState \<Rightarrow> AccountingError + u256" where
  "liability ts =
     ok_or (and_then (and_then (and_then (checked_add (account_total ts) (pending_deposits ts))
        (\<lambda>v. checked_add v (pending_withdrawals ts)))
        (\<lambda>v. checked_add v (pending_tempo_refunds ts)))
        (\<lambda>v. checked_add v (pending_zone_refunds ts))) Overflow"

section \<open>Effects\<close>

datatype BalanceChange = Credit u256 | Debit u256

fun balance_change_apply :: "BalanceChange \<Rightarrow> u256 \<Rightarrow> AccountingError + u256" where
  "balance_change_apply (Credit amount) v = ok_or (checked_add v amount) Overflow"
| "balance_change_apply (Debit amount) v = ok_or (checked_sub v amount) Underflow"

datatype LiabilityKind = DepositLiability | WithdrawalLiability | TempoRefund | ZoneRefund

text \<open>The mutable reference \<open>balance\<close> returns, as the pair of its read and its write.\<close>

fun lk_balance :: "LiabilityKind \<Rightarrow> TokenState \<Rightarrow> u256" where
  "lk_balance DepositLiability ts = pending_deposits ts"
| "lk_balance WithdrawalLiability ts = pending_withdrawals ts"
| "lk_balance TempoRefund ts = pending_tempo_refunds ts"
| "lk_balance ZoneRefund ts = pending_zone_refunds ts"

fun lk_set :: "LiabilityKind \<Rightarrow> u256 \<Rightarrow> TokenState \<Rightarrow> TokenState" where
  "lk_set DepositLiability v ts = ts\<lparr>pending_deposits := v\<rparr>"
| "lk_set WithdrawalLiability v ts = ts\<lparr>pending_withdrawals := v\<rparr>"
| "lk_set TempoRefund v ts = ts\<lparr>pending_tempo_refunds := v\<rparr>"
| "lk_set ZoneRefund v ts = ts\<lparr>pending_zone_refunds := v\<rparr>"

datatype Effect =
    EnableToken address
  | AccountEffect AccountKey BalanceChange
  | LiabilityEffect address LiabilityKind BalanceChange

record ChangedRows =
  cr_accounts :: "AccountKey list"
  cr_tokens :: "address list"

section \<open>State\<close>

record AccountingState =
  as_accounts :: "(AccountKey, u256) btree"
  as_tokens :: "(address, TokenState) btree"

text \<open>The state under mutation with the two undo maps of \<open>apply\<close>.\<close>

record apply_ctx =
  ac_state :: AccountingState
  ac_accounts :: "(AccountKey, u256 option) btree"
  ac_tokens :: "(address, TokenState option) btree"

definition unwrap_or :: "'a \<Rightarrow> 'a option \<Rightarrow> 'a" where
  "unwrap_or d v = (case v of None \<Rightarrow> d | Some x \<Rightarrow> x)"

definition write_nonzero :: "('k::linorder, u256) btree \<Rightarrow> 'k \<Rightarrow> u256 \<Rightarrow> ('k, u256) btree" where
  "write_nonzero values key value = (if value = 0 then bt_remove key values else bt_insert key value values)"

definition write_optional :: "('k::linorder, 'v) btree \<Rightarrow> 'k \<Rightarrow> 'v option \<Rightarrow> ('k, 'v) btree" where
  "write_optional values key value =
     (case value of Some v \<Rightarrow> bt_insert key v values | None \<Rightarrow> bt_remove key values)"

fun restore :: "('k::linorder, 'v) btree \<Rightarrow> ('k \<times> 'v option) list \<Rightarrow> ('k, 'v) btree" where
  "restore m [] = m"
| "restore m ((key, previous) # es) = restore (write_optional m key previous) es"

text \<open>\<open>entry(key).or_insert(v)\<close>.\<close>

definition or_insert :: "'k::linorder \<Rightarrow> 'v \<Rightarrow> ('k, 'v) btree \<Rightarrow> ('k, 'v) btree" where
  "or_insert k v m = (if bt_contains m k then m else bt_insert k v m)"

type_synonym 'a apply_eff = "(apply_ctx, AccountingError, 'a) eff"

definition get_token :: "address \<Rightarrow> TokenState apply_eff" where
  "get_token token =
     ebind (eget (\<lambda>c. bt_get (as_tokens (ac_state c)) token)) (\<lambda>v. elift (ok_or v (UnknownToken token)))"

definition insert_token :: "address \<Rightarrow> TokenState \<Rightarrow> unit apply_eff" where
  "insert_token token ts =
     emodify (\<lambda>c. c\<lparr>ac_state := (ac_state c)\<lparr>as_tokens := bt_insert token ts (as_tokens (ac_state c))\<rparr>\<rparr>)"

definition change_account :: "AccountKey \<Rightarrow> BalanceChange \<Rightarrow> unit apply_eff" where
  "change_account key change =
     ebind (get_token (ak_token key)) (\<lambda>previous_token.
     ebind (elift (balance_change_apply change (account_total previous_token))) (\<lambda>next_total.
     ebind (eget (\<lambda>c. unwrap_or 0 (bt_get (as_accounts (ac_state c)) key))) (\<lambda>current.
     ebind (elift (balance_change_apply change current)) (\<lambda>next.
     eseq (emodify (\<lambda>c. c\<lparr>ac_accounts := or_insert key (bt_get (as_accounts (ac_state c)) key) (ac_accounts c)\<rparr>))
    (eseq (emodify (\<lambda>c. c\<lparr>ac_tokens := or_insert (ak_token key) (Some previous_token) (ac_tokens c)\<rparr>))
    (eseq (emodify (\<lambda>c. c\<lparr>ac_state := (ac_state c)
             \<lparr>as_accounts := write_nonzero (as_accounts (ac_state c)) key next\<rparr>\<rparr>))
          (insert_token (ak_token key) (previous_token\<lparr>account_total := next_total\<rparr>))))))))"

definition change_liability :: "address \<Rightarrow> LiabilityKind \<Rightarrow> BalanceChange \<Rightarrow> unit apply_eff" where
  "change_liability token kind change =
     ebind (get_token token) (\<lambda>previous_state.
     ebind (elift (balance_change_apply change (lk_balance kind previous_state))) (\<lambda>value.
     eseq (emodify (\<lambda>c. c\<lparr>ac_tokens := or_insert token (Some previous_state) (ac_tokens c)\<rparr>))
          (insert_token token (lk_set kind value previous_state))))"

fun apply_effect :: "Effect \<Rightarrow> unit apply_eff" where
  "apply_effect (EnableToken token) =
     ebind (eget (\<lambda>c. bt_contains (as_tokens (ac_state c)) token)) (\<lambda>known.
     if known then ereturn ()
     else eseq (emodify (\<lambda>c. c\<lparr>ac_tokens := bt_insert token None (ac_tokens c)\<rparr>))
               (insert_token token TokenState_default))"
| "apply_effect (AccountEffect key change) = change_account key change"
| "apply_effect (LiabilityEffect token kind change) = change_liability token kind change"

text \<open>\<open>range(start..).take_while(|(key, _)| key.token == token)\<close>.\<close>

definition token_rows :: "address \<Rightarrow> (AccountKey, 'v) btree \<Rightarrow> (AccountKey \<times> 'v) list" where
  "token_rows token m =
     takeWhile (\<lambda>e. ak_token (fst e) = token) (bt_retain (\<lambda>k. AccountKey token 0 \<le> k) m)"

definition ensure_aggregate :: "AccountingState \<Rightarrow> address \<Rightarrow> u256 \<Rightarrow> AccountingError + unit" where
  "ensure_aggregate s token expected =
     rbind (ok_or (bt_get (as_tokens s) token) (UnknownToken token)) (\<lambda>ts.
       check (account_total ts = expected) (AggregateMismatch token expected (account_total ts)))"

definition validate_changed_token ::
  "AccountingState \<Rightarrow> (AccountKey, u256 option) btree \<Rightarrow> address \<times> TokenState option \<Rightarrow> AccountingError + unit" where
  "validate_changed_token s accounts e =
     rbind (try_fold (\<lambda>row acc.
              rbind (ok_or (checked_add (fst acc) (unwrap_or 0 (snd row))) Overflow) (\<lambda>previous_changed.
              rbind (ok_or (checked_add (snd acc) (unwrap_or 0 (bt_get (as_accounts s) (fst row)))) Overflow)
                (\<lambda>current_changed. Inr (previous_changed, current_changed))))
            (token_rows (fst e) accounts) (0, 0)) (\<lambda>changed.
     rbind (ok_or (checked_sub (account_total (unwrap_or TokenState_default (snd e))) (fst changed)) Underflow)
       (\<lambda>unchanged.
     rbind (ok_or (checked_add unchanged (snd changed)) Overflow) (\<lambda>expected.
     ensure_aggregate s (fst e) expected)))"

definition validate_changed_aggregates ::
  "AccountingState \<Rightarrow> (AccountKey, u256 option) btree \<Rightarrow> (address, TokenState option) btree
     \<Rightarrow> AccountingError + unit" where
  "validate_changed_aggregates s accounts tokens =
     try_fold (\<lambda>e _. validate_changed_token s accounts e) tokens ()"

definition state_apply :: "Effect list \<Rightarrow> AccountingState \<Rightarrow> (AccountingError + ChangedRows) \<times> AccountingState" where
  "state_apply effects s =
     (case ebind (efor apply_effect effects) (\<lambda>_ c.
             (validate_changed_aggregates (ac_state c) (ac_accounts c) (ac_tokens c), c))
           \<lparr>ac_state = s, ac_accounts = [], ac_tokens = []\<rparr> of
        (Inl error, c) \<Rightarrow>
          (Inl error, \<lparr>as_accounts = restore (as_accounts (ac_state c)) (ac_accounts c),
                       as_tokens = restore (as_tokens (ac_state c)) (ac_tokens c)\<rparr>)
      | (Inr _, c) \<Rightarrow>
          (Inr \<lparr>cr_accounts = bt_keys (ac_accounts c), cr_tokens = bt_keys (ac_tokens c)\<rparr>, ac_state c))"

definition validate_aggregate :: "AccountingState \<Rightarrow> address \<Rightarrow> AccountingError + unit" where
  "validate_aggregate s token =
     rbind (try_fold (\<lambda>row total. ok_or (checked_add total (snd row)) Overflow)
              (token_rows token (as_accounts s)) 0) (\<lambda>total.
     if \<not> bt_contains (as_tokens s) token \<and> total = 0 then Inr ()
     else ensure_aggregate s token total)"

definition validate_aggregates :: "AccountingState \<Rightarrow> address list \<Rightarrow> AccountingError + unit" where
  "validate_aggregates s tokens = try_fold (\<lambda>t _. validate_aggregate s t) tokens ()"

text \<open>A \<open>BTreeSet\<close> is iterated in increasing order without repetition.\<close>

definition from_rows ::
  "(AccountKey \<times> u256) list \<Rightarrow> (address \<times> TokenState) list \<Rightarrow> AccountingError + AccountingState" where
  "from_rows accounts tokens =
     (let s = \<lparr>as_accounts = bt_extend (filter (\<lambda>e. snd e \<noteq> 0) accounts) [], as_tokens = bt_extend tokens []\<rparr>;
          all_tokens = bt_keys (bt_extend (map (\<lambda>t. (t, ()))
             (bt_keys (as_tokens s) @ map ak_token (bt_keys (as_accounts s)))) [])
      in rbind (validate_aggregates s all_tokens) (\<lambda>_. Inr s))"

section \<open>Verification against observed state\<close>

definition verify_balance :: "AccountingState \<Rightarrow> address \<Rightarrow> address \<times> u256 \<Rightarrow> AccountingError + unit" where
  "verify_balance s token e =
     (let key = AccountKey token (fst e);
          expected = unwrap_or 0 (bt_get (as_accounts s) key)
      in check (snd e = expected) (BalanceMismatch key expected (snd e)))"

definition verify_zone_state ::
  "AccountingState \<Rightarrow> (address \<times> u256 \<times> (address, u256) btree) list \<Rightarrow> AccountingError + unit" where
  "verify_zone_state s observed =
     try_fold (\<lambda>(token, total_supply, balances) _.
       rbind (ok_or (bt_get (as_tokens s) token) (UnknownToken token)) (\<lambda>ts.
       rbind (try_fold (\<lambda>e _. verify_balance s token e) balances ()) (\<lambda>_.
       check (total_supply = account_total ts) (SupplyMismatch token (account_total ts) total_supply))))
     observed ()"

definition verify_portal_balances ::
  "AccountingState \<Rightarrow> (address \<times> u256) list \<Rightarrow> AccountingError + unit" where
  "verify_portal_balances s balances =
     try_fold (\<lambda>(token, available) _.
       rbind (ok_or (bt_get (as_tokens s) token) (UnknownToken token)) (\<lambda>ts.
       rbind (liability ts) (\<lambda>required.
       check (\<not> available < required) (CollateralShortfall token required available))))
     balances ()"

section \<open>The undo log\<close>

text \<open>
  \<open>log\<close> records for every key it holds the value of the original map \<open>m0\<close>; the other keys of
  the current map are unchanged.
\<close>

definition undo_ok :: "('k::linorder, 'v) btree \<Rightarrow> ('k, 'v) btree \<Rightarrow> ('k, 'v option) btree \<Rightarrow> bool" where
  "undo_ok m0 m log \<longleftrightarrow> bt_invar m \<and> bt_invar log \<and>
     (\<forall>k. case bt_get log k of None \<Rightarrow> bt_get m k = bt_get m0 k | Some v \<Rightarrow> v = bt_get m0 k)"

lemma bt_write_optional:
  assumes "bt_invar m"
  shows "bt_invar (write_optional m k v)"
    and "bt_get (write_optional m k v) k' = (if k' = k then v else bt_get m k')"
  using assms by (auto simp: write_optional_def bt_laws bt_invars split: option.splits)

lemma bt_write_nonzero:
  assumes "bt_invar m"
  shows "bt_invar (write_nonzero m k v)"
    and "bt_get (write_nonzero m k v) k' = (if k' = k then if v = 0 then None else Some v else bt_get m k')"
  using assms by (auto simp: write_nonzero_def bt_laws bt_invars)

lemma bt_get_restore:
  "bt_invar m \<Longrightarrow> bt_invar (restore m es) \<and>
     bt_get (restore m es) k = (case map_of (rev es) k of None \<Rightarrow> bt_get m k | Some v \<Rightarrow> v)"
  by (induction m es rule: restore.induct)
    (auto simp: bt_write_optional map_add_def split: option.splits)

lemma bt_get_map_of_rev: "bt_invar m \<Longrightarrow> map_of (rev m) k = bt_get m k"
proof -
  assume inv: "bt_invar m"
  then have "distinct (map fst m)" by (simp add: bt_invar_def strict_sorted_iff)
  then have "map_of (rev m) k = map_of m k"
    by (metis distinct_rev map_of_inject_set rev_map set_rev)
  also have "map_of m k = bt_get m k" by (induction m k rule: bt_get.induct) auto
  finally show ?thesis .
qed

lemma restore_undo:
  assumes "bt_invar m0" and "undo_ok m0 m log"
  shows "restore m log = m0"
proof (rule bt.extensional)
  have inv: "bt_invar m" "bt_invar log" using assms(2) by (auto simp: undo_ok_def)
  show "bt_invar (restore m log)" using bt_get_restore [OF inv(1)] by blast
  fix k
  have "case bt_get log k of None \<Rightarrow> bt_get m k = bt_get m0 k | Some v \<Rightarrow> v = bt_get m0 k"
    using assms(2) by (auto simp: undo_ok_def)
  then show "bt_get (restore m log) k = bt_get m0 k"
    using bt_get_restore [OF inv(1), of log k] bt_get_map_of_rev [OF inv(2), of k]
    by (auto split: option.splits)
qed (rule assms(1))

lemma bt_get_or_insert:
  "bt_get (or_insert k v m) j = (if j = k \<and> bt_get m k = None then Some v else bt_get m j)"
  by (simp add: or_insert_def bt_contains_def bt_laws)

lemma undo_ok_write:
  assumes "undo_ok m0 m log" and "bt_invar m'"
    and "\<And>k'. k' \<noteq> k \<Longrightarrow> bt_get m' k' = bt_get m k'"
  shows "undo_ok m0 m' (or_insert k (bt_get m k) log)"
proof -
  have "bt_invar (or_insert k (bt_get m k) log)"
    using assms(1) by (simp add: undo_ok_def or_insert_def bt_invars)
  moreover have "case bt_get (or_insert k (bt_get m k) log) k' of
      None \<Rightarrow> bt_get m' k' = bt_get m0 k' | Some v \<Rightarrow> v = bt_get m0 k'" for k'
  proof -
    have "case bt_get log k' of None \<Rightarrow> bt_get m k' = bt_get m0 k' | Some v \<Rightarrow> v = bt_get m0 k'"
      using assms(1) by (auto simp: undo_ok_def)
    then show ?thesis
      using assms(3) [of k']
      by (auto simp: or_insert_def bt_contains_def bt_laws split: option.splits if_splits)
  qed
  ultimately show ?thesis using assms(2) by (simp add: undo_ok_def)
qed

lemma undo_okD:
  assumes "undo_ok m0 m log"
  shows "bt_get log k = Some v \<Longrightarrow> v = bt_get m0 k" and "bt_get log k = None \<Longrightarrow> bt_get m k = bt_get m0 k"
  using assms by (auto simp: undo_ok_def split: option.splits dest: spec [of _ k])

lemma undo_ok_invar: "undo_ok m0 m log \<Longrightarrow> bt_invar m"
  by (simp add: undo_ok_def)

lemma undo_ok_insert:
  "undo_ok m0 m log \<Longrightarrow> bt_get m k = v0 \<Longrightarrow> undo_ok m0 (bt_insert k v m) (or_insert k v0 log)"
  using undo_ok_write [of m0 m log "bt_insert k v m" k] by (auto simp: bt_laws bt_invars undo_ok_invar)

lemma undo_ok_write_nonzero:
  "undo_ok m0 m log \<Longrightarrow> undo_ok m0 (write_nonzero m k v) (or_insert k (bt_get m k) log)"
  by (rule undo_ok_write) (auto simp: bt_write_nonzero undo_ok_invar)

text \<open>
  The invariant of the mutation: both maps have a faithful log, and a token is never removed, which
  is why \<open>EnableToken\<close> may overwrite the log entry of a token it finds missing.
\<close>

definition undo_inv :: "AccountingState \<Rightarrow> apply_ctx \<Rightarrow> bool" where
  "undo_inv s0 c \<longleftrightarrow>
     undo_ok (as_accounts s0) (as_accounts (ac_state c)) (ac_accounts c) \<and>
     undo_ok (as_tokens s0) (as_tokens (ac_state c)) (ac_tokens c) \<and>
     (\<forall>t. bt_get (as_tokens s0) t \<noteq> None \<or> bt_get (ac_tokens c) t \<noteq> None \<longrightarrow>
        bt_get (as_tokens (ac_state c)) t \<noteq> None)"

lemma undo_ok_enable:
  assumes "undo_ok m0 m log" and "bt_get m k = None" and "bt_get m0 k = None"
  shows "undo_ok m0 (bt_insert k v m) (bt_insert k None log)"
proof -
  have "case bt_get (bt_insert k None log) j of None \<Rightarrow> bt_get (bt_insert k v m) j = bt_get m0 j
      | Some w \<Rightarrow> w = bt_get m0 j" for j
    using assms(1,3) unfolding undo_ok_def
    by (cases "j = k") (auto simp: bt_laws split: option.splits dest: spec [of _ j])
  then show ?thesis using assms(1) by (simp add: undo_ok_def bt_invars)
qed

lemma change_account_Inr:
  "change_account key change c = (Inr u, c') \<longleftrightarrow>
     (\<exists>ts total v. bt_get (as_tokens (ac_state c)) (ak_token key) = Some ts \<and>
        balance_change_apply change (account_total ts) = Inr total \<and>
        balance_change_apply change (unwrap_or 0 (bt_get (as_accounts (ac_state c)) key)) = Inr v \<and>
        c' = c\<lparr>ac_accounts := or_insert key (bt_get (as_accounts (ac_state c)) key) (ac_accounts c),
          ac_tokens := or_insert (ak_token key) (Some ts) (ac_tokens c),
          ac_state := (ac_state c)\<lparr>as_accounts := write_nonzero (as_accounts (ac_state c)) key v,
            as_tokens := bt_insert (ak_token key) (ts\<lparr>account_total := total\<rparr>) (as_tokens (ac_state c))\<rparr>\<rparr>)"
  by (auto simp: change_account_def get_token_def insert_token_def)

lemma change_liability_Inr:
  "change_liability token kind change c = (Inr u, c') \<longleftrightarrow>
     (\<exists>ts v. bt_get (as_tokens (ac_state c)) token = Some ts \<and>
        balance_change_apply change (lk_balance kind ts) = Inr v \<and>
        c' = c\<lparr>ac_tokens := or_insert token (Some ts) (ac_tokens c),
          ac_state := (ac_state c)\<lparr>as_tokens := bt_insert token (lk_set kind v ts) (as_tokens (ac_state c))\<rparr>\<rparr>)"
  by (auto simp: change_liability_def get_token_def insert_token_def)

lemma undo_inv_enable:
  assumes "undo_inv s0 c" and "apply_effect (EnableToken t) c = (r, c')"
  shows "undo_inv s0 c'"
proof (cases "bt_get (as_tokens (ac_state c)) t")
  case None
  then have "bt_get (as_tokens s0) t = None" using assms(1) by (auto simp: undo_inv_def)
  then show ?thesis
    using assms None undo_ok_enable
    by (auto simp: undo_inv_def bt_contains_def insert_token_def eseq_def bt_laws)
next
  case (Some ts)
  then show ?thesis using assms by (auto simp: bt_contains_def)
qed

lemma undo_inv_account:
  assumes "undo_inv s0 c" and "change_account key change c = (r, c')"
  shows "undo_inv s0 c'"
proof (cases r)
  case (Inl e)
  then have "c' = c" using assms(2)
    by (auto simp: change_account_def get_token_def insert_token_def eseq_def ebind_Inl)
  then show ?thesis using assms(1) by simp
next
  case (Inr u)
  then obtain ts total v where ts: "bt_get (as_tokens (ac_state c)) (ak_token key) = Some ts"
    and c': "c' = c\<lparr>ac_accounts := or_insert key (bt_get (as_accounts (ac_state c)) key) (ac_accounts c),
          ac_tokens := or_insert (ak_token key) (Some ts) (ac_tokens c),
          ac_state := (ac_state c)\<lparr>as_accounts := write_nonzero (as_accounts (ac_state c)) key v,
            as_tokens := bt_insert (ak_token key) (ts\<lparr>account_total := total\<rparr>) (as_tokens (ac_state c))\<rparr>\<rparr>"
    using assms(2) unfolding Inr change_account_Inr by blast
  show ?thesis
    using assms(1) ts by (auto simp: c' undo_inv_def bt_laws bt_get_or_insert undo_ok_insert undo_ok_write_nonzero)
qed

lemma undo_inv_liability:
  assumes "undo_inv s0 c" and "change_liability token kind change c = (r, c')"
  shows "undo_inv s0 c'"
proof (cases r)
  case (Inl e)
  then have "c' = c" using assms(2)
    by (auto simp: change_liability_def get_token_def insert_token_def eseq_def ebind_Inl)
  then show ?thesis using assms(1) by simp
next
  case (Inr u)
  then obtain ts v where ts: "bt_get (as_tokens (ac_state c)) token = Some ts"
    and c': "c' = c\<lparr>ac_tokens := or_insert token (Some ts) (ac_tokens c),
          ac_state := (ac_state c)\<lparr>as_tokens := bt_insert token (lk_set kind v ts) (as_tokens (ac_state c))\<rparr>\<rparr>"
    using assms(2) unfolding Inr change_liability_Inr by blast
  show ?thesis using assms(1) ts by (auto simp: c' undo_inv_def bt_laws bt_get_or_insert undo_ok_insert)
qed

lemma undo_inv_effect:
  assumes "undo_inv s0 c" and "apply_effect e c = (r, c')"
  shows "undo_inv s0 c'"
proof (cases e)
  case (EnableToken t)
  then show ?thesis using undo_inv_enable assms by blast
next
  case (AccountEffect k ch)
  then show ?thesis using undo_inv_account assms by simp
next
  case (LiabilityEffect t k ch)
  then show ?thesis using undo_inv_liability assms by simp
qed

lemma undo_inv_effects:
  "undo_inv s0 c \<Longrightarrow> efor apply_effect effects c = (r, c') \<Longrightarrow> undo_inv s0 c'"
proof (induction effects arbitrary: c)
  case Nil
  then show ?case by simp
next
  case (Cons e es)
  obtain r1 c1 where e: "apply_effect e c = (r1, c1)" by (cases "apply_effect e c")
  with Cons.prems have "undo_inv s0 c1" by (blast intro: undo_inv_effect)
  then show ?case
    using Cons e by (cases r1) (auto simp: eseq_def ebind_def)
qed

lemma undo_inv_init:
  "bt_invar (as_accounts s) \<Longrightarrow> bt_invar (as_tokens s) \<Longrightarrow>
     undo_inv s \<lparr>ac_state = s, ac_accounts = [], ac_tokens = []\<rparr>"
  by (simp add: undo_inv_def undo_ok_def bt_invars)

text \<open>A transition that fails, in an effect or in the final validation, leaves the state as it was.\<close>

lemma failed_apply_restores:
  assumes "bt_invar (as_accounts s)" and "bt_invar (as_tokens s)"
    and "state_apply effects s = (Inl e, s')"
  shows "s' = s"
proof -
  let ?c0 = "\<lparr>ac_state = s, ac_accounts = [], ac_tokens = []\<rparr>"
  obtain r c where run: "efor apply_effect effects ?c0 = (r, c)"
    by (cases "efor apply_effect effects ?c0")
  have inv: "undo_inv s c"
    using undo_inv_effects [OF undo_inv_init [OF assms(1,2)] run] .
  have "s' = \<lparr>as_accounts = restore (as_accounts (ac_state c)) (ac_accounts c),
      as_tokens = restore (as_tokens (ac_state c)) (ac_tokens c)\<rparr>"
    using assms(3) run
    by (auto simp: state_apply_def ebind_def split: sum.splits prod.splits)
  then show ?thesis
    using restore_undo inv assms(1,2) unfolding undo_inv_def by (metis (full_types) AccountingState.surjective old.unit.exhaust)
qed

section \<open>The abstract ledger\<close>

text \<open>
  What the checker keeps, without rows, caches or logs: the balance of every account and the state
  of every known token. A block's effects change it one after the other or not at all.
\<close>

record ledger_view =
  lv_balance :: "AccountKey \<Rightarrow> u256"
  lv_token :: "address \<Rightarrow> TokenState option"

definition ledger_view_of :: "AccountingState \<Rightarrow> ledger_view" where
  "ledger_view_of s = \<lparr>lv_balance = (\<lambda>k. unwrap_or 0 (bt_get (as_accounts s) k)), lv_token = bt_get (as_tokens s)\<rparr>"

fun ledger_step :: "Effect \<Rightarrow> ledger_view \<Rightarrow> AccountingError + ledger_view" where
  "ledger_step (EnableToken t) l =
     Inr (if lv_token l t = None then l\<lparr>lv_token := (lv_token l)(t := Some TokenState_default)\<rparr> else l)"
| "ledger_step (AccountEffect key change) l =
     rbind (ok_or (lv_token l (ak_token key)) (UnknownToken (ak_token key))) (\<lambda>ts.
     rbind (balance_change_apply change (account_total ts)) (\<lambda>total.
     rbind (balance_change_apply change (lv_balance l key)) (\<lambda>v.
     Inr (l\<lparr>lv_balance := (lv_balance l)(key := v),
            lv_token := (lv_token l)(ak_token key := Some (ts\<lparr>account_total := total\<rparr>))\<rparr>))))"
| "ledger_step (LiabilityEffect t kind change) l =
     rbind (ok_or (lv_token l t) (UnknownToken t)) (\<lambda>ts.
     rbind (balance_change_apply change (lk_balance kind ts)) (\<lambda>v.
     Inr (l\<lparr>lv_token := (lv_token l)(t := Some (lk_set kind v ts))\<rparr>)))"

definition ledger_run :: "Effect list \<Rightarrow> ledger_view \<Rightarrow> AccountingError + ledger_view" where
  "ledger_run effects l = try_fold ledger_step effects l"

text \<open>Consistency: the aggregate of every token is the sum of its accounts.\<close>

definition token_sum :: "ledger_view \<Rightarrow> address \<Rightarrow> nat" where
  "token_sum l t = (\<Sum>k | ak_token k = t. unat (lv_balance l k))"

fun cached_total :: "TokenState option \<Rightarrow> nat" where
  "cached_total None = 0"
| "cached_total (Some ts) = unat (account_total ts)"

definition sums_ok :: "ledger_view \<Rightarrow> bool" where
  "sums_ok l \<longleftrightarrow> (\<forall>t. token_sum l t = cached_total (lv_token l t))"

definition rows_ok :: "AccountingState \<Rightarrow> bool" where
  "rows_ok s \<longleftrightarrow> bt_invar (as_accounts s) \<and> bt_invar (as_tokens s) \<and>
     (\<forall>k. bt_get (as_accounts s) k \<noteq> Some 0)"

definition accounting_ok :: "AccountingState \<Rightarrow> bool" where
  "accounting_ok s \<longleftrightarrow> rows_ok s \<and> sums_ok (ledger_view_of s)"

lemma finite_AccountKey: "finite (A :: AccountKey set)"
proof -
  have "A \<subseteq> (\<lambda>(t, a). AccountKey t a) ` (UNIV \<times> UNIV)"
  proof
    fix k assume "k \<in> A"
    show "k \<in> (\<lambda>(t, a). AccountKey t a) ` (UNIV \<times> UNIV)"
      by (rule image_eqI [of _ _ "(ak_token k, ak_account k)"]) simp_all
  qed
  moreover have "finite ((\<lambda>(t, a). AccountKey t a) ` (UNIV \<times> UNIV))"
    by (intro finite_imageI finite_cartesian_product finite)
  ultimately show ?thesis by (rule finite_subset)
qed

lemma balance_change_apply_Inr:
  "balance_change_apply ch v = Inr w \<Longrightarrow>
     (case ch of Credit a \<Rightarrow> unat w = unat v + unat a | Debit a \<Rightarrow> unat w + unat a = unat v)"
proof (cases ch)
  case (Debit a)
  assume "balance_change_apply ch v = Inr w"
  then have sub: "checked_sub v a = Some w" using Debit by simp
  show ?thesis using checked_sub_Some(2,3) [OF sub] Debit by simp
qed (auto dest: checked_add_Some(2))

lemma token_sum_update:
  "token_sum (l\<lparr>lv_balance := (lv_balance l)(k := v)\<rparr>) t + (if t = ak_token k then unat (lv_balance l k) else 0)
     = token_sum l t + (if t = ak_token k then unat v else 0)"
proof (cases "t = ak_token k")
  case True
  let ?A = "{j. ak_token j = t}" and ?b = "\<lambda>j. unat (lv_balance l j)"
    and ?b' = "\<lambda>j. unat (((lv_balance l)(k := v)) j)"
  have "sum ?b' ?A = ?b' k + sum ?b' (?A - {k})" "sum ?b ?A = ?b k + sum ?b (?A - {k})"
    using True by (intro sum.remove finite_AccountKey; simp)+
  moreover have "sum ?b' (?A - {k}) = sum ?b (?A - {k})" by (rule sum.cong) auto
  ultimately show ?thesis using True by (simp add: token_sum_def fun_upd_same del: fun_upd_apply)
next
  case False
  then have "token_sum (l\<lparr>lv_balance := (lv_balance l)(k := v)\<rparr>) t = token_sum l t"
    unfolding token_sum_def by (intro sum.cong) auto
  then show ?thesis using False by simp
qed

lemma token_sum_token [simp]: "token_sum (l\<lparr>lv_token := f\<rparr>) t = token_sum l t"
  by (simp add: token_sum_def)

lemma lk_set_account_total [simp]: "account_total (lk_set kind v ts) = account_total ts"
  by (cases kind) auto

lemma sums_okD: "sums_ok l \<Longrightarrow> token_sum l t = cached_total (lv_token l t)"
  by (simp add: sums_ok_def)

lemma ledger_step_sums:
  assumes "sums_ok l" and "ledger_step e l = Inr l'"
  shows "sums_ok l'"
proof (cases e)
  case (EnableToken t)
  then show ?thesis
    using assms(2) sums_okD [OF assms(1)]
    by (auto simp: sums_ok_def TokenState_default_def split: if_splits)
next
  case (LiabilityEffect t k ch)
  then obtain ts v where "lv_token l t = Some ts" "l' = l\<lparr>lv_token := (lv_token l)(t := Some (lk_set k v ts))\<rparr>"
    using assms(2) by auto
  then show ?thesis
    using sums_okD [OF assms(1)] by (simp add: sums_ok_def)
next
  case (AccountEffect key ch)
  then obtain ts total v where ts: "lv_token l (ak_token key) = Some ts"
    and total: "balance_change_apply ch (account_total ts) = Inr total"
    and v: "balance_change_apply ch (lv_balance l key) = Inr v"
    and l': "l' = l\<lparr>lv_balance := (lv_balance l)(key := v),
            lv_token := (lv_token l)(ak_token key := Some (ts\<lparr>account_total := total\<rparr>))\<rparr>"
    using assms(2) by auto
  have "token_sum l (ak_token key) = unat (account_total ts)"
    using sums_okD [OF assms(1), of "ak_token key"] ts by simp
  then have "token_sum l' (ak_token key) = unat total"
    using token_sum_update [of l key v "ak_token key"]
      balance_change_apply_Inr [OF total] balance_change_apply_Inr [OF v]
    by (cases ch) (auto simp: l')
  moreover have "token_sum l' t = token_sum l t" if "t \<noteq> ak_token key" for t
    using token_sum_update [of l key v t] that by (simp add: l')
  ultimately show ?thesis
    using sums_okD [OF assms(1)] by (simp add: sums_ok_def l')
qed

section \<open>The rows implement the ledger\<close>

lemma unwrap_or_simps [simp]: "unwrap_or d None = d" "unwrap_or d (Some x) = x"
  by (simp_all add: unwrap_or_def)

lemma ledger_view_of_write:
  assumes "rows_ok s"
  shows "ledger_view_of (s\<lparr>as_accounts := write_nonzero (as_accounts s) key v,
      as_tokens := bt_insert t ts (as_tokens s)\<rparr>) =
    (ledger_view_of s)\<lparr>lv_balance := (lv_balance (ledger_view_of s))(key := v),
      lv_token := (lv_token (ledger_view_of s))(t := Some ts)\<rparr>"
    and "ledger_view_of (s\<lparr>as_tokens := bt_insert t ts (as_tokens s)\<rparr>) =
    (ledger_view_of s)\<lparr>lv_token := (lv_token (ledger_view_of s))(t := Some ts)\<rparr>"
  using assms by (auto simp: ledger_view_of_def rows_ok_def bt_write_nonzero bt_laws fun_eq_iff)

lemma rows_ok_write:
  assumes "rows_ok s"
  shows "rows_ok (s\<lparr>as_accounts := write_nonzero (as_accounts s) key v, as_tokens := bt_insert t ts (as_tokens s)\<rparr>)"
    and "rows_ok (s\<lparr>as_tokens := bt_insert t ts (as_tokens s)\<rparr>)"
  using assms by (auto simp: rows_ok_def bt_write_nonzero bt_invars)

text \<open>One effect: the row code and the ledger agree on success, on the new state and on the error.\<close>

definition effect_agrees :: "(AccountingError + ledger_view) \<Rightarrow> apply_ctx \<Rightarrow> (AccountingError + unit) \<times> apply_ctx \<Rightarrow> bool" where
  "effect_agrees l c r \<longleftrightarrow>
     (case r of (Inl e, c') \<Rightarrow> l = Inl e
      | (Inr _, c') \<Rightarrow> l = Inr (ledger_view_of (ac_state c')) \<and> rows_ok (ac_state c'))"

lemma lv_simps [simp]:
  "lv_token (ledger_view_of s) = bt_get (as_tokens s)"
  "lv_balance (ledger_view_of s) k = unwrap_or 0 (bt_get (as_accounts s) k)"
  by (simp_all add: ledger_view_of_def)

lemma apply_effect_agrees:
  assumes "rows_ok (ac_state c)"
  shows "effect_agrees (ledger_step e (ledger_view_of (ac_state c))) c (apply_effect e c)"
proof (cases e)
  case (EnableToken t)
  then show ?thesis
    using assms by (auto simp: effect_agrees_def bt_contains_def insert_token_def eseq_def
        ledger_view_of_write rows_ok_write)
next
  case (AccountEffect key ch)
  let ?ts = "bt_get (as_tokens (ac_state c)) (ak_token key)"
    and ?v = "balance_change_apply ch (unwrap_or 0 (bt_get (as_accounts (ac_state c)) key))"
  show ?thesis
    using assms AccountEffect
    by (cases ?ts; cases ?v; cases "balance_change_apply ch (account_total (the ?ts))")
      (auto simp: effect_agrees_def change_account_def get_token_def insert_token_def eseq_def ebind_def
        ledger_view_of_write rows_ok_write)
next
  case (LiabilityEffect t kind ch)
  let ?ts = "bt_get (as_tokens (ac_state c)) t"
  show ?thesis
    using assms LiabilityEffect
    by (cases ?ts; cases "balance_change_apply ch (lk_balance kind (the ?ts))")
      (auto simp: effect_agrees_def change_liability_def get_token_def insert_token_def eseq_def ebind_def
        ledger_view_of_write rows_ok_write)
qed

lemma effects_agree:
  "rows_ok (ac_state c) \<Longrightarrow>
     effect_agrees (ledger_run effects (ledger_view_of (ac_state c))) c (efor apply_effect effects c)"
proof (induction effects arbitrary: c)
  case Nil
  then show ?case by (simp add: effect_agrees_def ledger_run_def)
next
  case (Cons e es)
  obtain r c1 where e: "apply_effect e c = (r, c1)" by (cases "apply_effect e c")
  show ?case
  proof (cases r)
    case (Inl er)
    then show ?thesis
      using e apply_effect_agrees [OF Cons.prems, of e]
      by (simp add: effect_agrees_def ledger_run_def eseq_def ebind_def)
  next
    case (Inr u)
    then have "ledger_step e (ledger_view_of (ac_state c)) = Inr (ledger_view_of (ac_state c1))"
      and "rows_ok (ac_state c1)"
      using e apply_effect_agrees [OF Cons.prems, of e] by (auto simp: effect_agrees_def)
    then show ?thesis
      using Cons.IH [of c1] e Inr
      by (simp add: effect_agrees_def ledger_run_def eseq_def ebind_def split: prod.splits sum.splits)
  qed
qed

lemma ledger_run_sums: "sums_ok l \<Longrightarrow> ledger_run effects l = Inr l' \<Longrightarrow> sums_ok l'"
  unfolding ledger_run_def by (erule try_fold_invariant) (auto intro: ledger_step_sums)

section \<open>The validation of changed aggregates\<close>

lemma token_rows_filter:
  "bt_invar m \<Longrightarrow> token_rows t m = filter (\<lambda>e. ak_token (fst e) = t) m"
proof (induction m)
  case Nil
  then show ?case by (simp add: token_rows_def bt_retain_def)
next
  case (Cons e m)
  obtain k v where e: "e = (k, v)" by (cases e)
  have IH: "token_rows t m = filter (\<lambda>e. ak_token (fst e) = t) m"
    using Cons by (simp add: e bt_invar_Cons)
  have above: "k < fst e'" if "e' \<in> set m" for e'
    using Cons.prems that by (auto simp: e bt_invar_Cons)
  consider "ak_token k = t" | "ak_token k < t" | "t < ak_token k" by (metis linorder_cases)
  then show ?case
  proof cases
    case 1
    then show ?thesis using IH by (simp add: e token_rows_def bt_retain_def less_eq_AccountKey_def)
  next
    case 2
    then show ?thesis using IH by (auto simp: e token_rows_def bt_retain_def less_eq_AccountKey_def)
  next
    case 3
    have "ak_token (fst e') \<noteq> t" if "e' \<in> set m" for e'
      using above [OF that] 3 by (auto simp: less_AccountKey_def)
    then have "filter (\<lambda>e. ak_token (fst e) = t) m = []" by (auto simp: filter_empty_conv)
    then show ?thesis using 3 by (auto simp: e token_rows_def bt_retain_def less_eq_AccountKey_def)
  qed
qed

lemma changed_sums:
  fixes p q :: u256
  assumes "unat p + sum_list (map (unat \<circ> f) rows) < 2 ^ 256" "unat q + sum_list (map (unat \<circ> g) rows) < 2 ^ 256"
  shows "\<exists>p' q'. try_fold (\<lambda>row acc.
            rbind (ok_or (checked_add (fst acc) (f row)) Overflow) (\<lambda>a.
            rbind (ok_or (checked_add (snd acc) (g row)) Overflow) (\<lambda>b. Inr (a, b)))) rows (p, q) = Inr (p', q')
     \<and> unat p' = unat p + sum_list (map (unat \<circ> f) rows) \<and> unat q' = unat q + sum_list (map (unat \<circ> g) rows)"
  using assms
proof (induction rows arbitrary: p q)
  case Nil
  then show ?case by simp
next
  case (Cons row rows)
  have "unat p + unat (f row) < 2 ^ 256" "unat q + unat (g row) < 2 ^ 256" using Cons.prems by auto
  then have *: "checked_add p (f row) = Some (p + f row)" "checked_add q (g row) = Some (q + g row)"
    by (simp_all add: checked_add_def)
  then have "unat (p + f row) = unat p + unat (f row)" "unat (q + g row) = unat q + unat (g row)"
    using checked_add_Some(2) by blast+
  then show ?case using Cons.IH [of "p + f row" "q + g row"] Cons.prems * by (simp add: add.assoc)
qed

lemma sum_list_rows:
  assumes "bt_invar m"
  shows "sum_list (map (\<lambda>e. h (fst e)) (filter (\<lambda>e. ak_token (fst e) = t) m))
     = (\<Sum>k | ak_token k = t \<and> bt_get m k \<noteq> None. h k)"
proof -
  have "distinct (map fst (filter (\<lambda>e. ak_token (fst e) = t) m))"
    using assms by (auto simp: bt_invar_def strict_sorted_iff intro: distinct_map_filter)
  moreover have "set (map fst (filter (\<lambda>e. ak_token (fst e) = t) m)) = {k. ak_token k = t \<and> bt_get m k \<noteq> None}"
    by (force simp: bt_get_None_iff)
  ultimately show ?thesis
    by (metis (no_types, lifting) comp_apply map_eq_conv map_map sum.distinct_set_conv_list)
qed

lemma token_sum_split:
  assumes "\<And>k. ak_token k = t \<Longrightarrow> k \<notin> K \<Longrightarrow> lv_balance l k = lv_balance l0 k" and "K \<subseteq> {k. ak_token k = t}"
  shows "token_sum l t + (\<Sum>k\<in>K. unat (lv_balance l0 k)) = token_sum l0 t + (\<Sum>k\<in>K. unat (lv_balance l k))"
proof -
  let ?A = "{k. ak_token k = t}"
  have split: "sum f ?A = sum f (?A - K) + sum f K" for f :: "AccountKey \<Rightarrow> nat"
    using assms(2) by (intro sum.subset_diff finite_AccountKey)
  have "(\<Sum>k\<in>?A - K. unat (lv_balance l k)) = (\<Sum>k\<in>?A - K. unat (lv_balance l0 k))"
    using assms(1) by (intro sum.cong) auto
  then show ?thesis unfolding token_sum_def split by simp
qed

lemma token_sum_part: "K \<subseteq> {k. ak_token k = t} \<Longrightarrow> (\<Sum>k\<in>K. unat (lv_balance l k)) \<le> token_sum l t"
  unfolding token_sum_def by (intro sum_mono2 finite_AccountKey) auto

lemma u256_less: "unat (v :: u256) < 2 ^ 256"
  by (rule unsigned_less [THEN less_le_trans]) simp

lemma cached_total_less: "cached_total ts < 2 ^ 256"
  by (cases ts) (auto intro: u256_less [THEN less_le_trans])

lemma validate_changed_token_ok:
  assumes undo: "undo_inv s0 c" and sums: "sums_ok (ledger_view_of s0)" "sums_ok (ledger_view_of (ac_state c))"
    and e: "bt_get (ac_tokens c) t = Some pv"
  shows "validate_changed_token (ac_state c) (ac_accounts c) (t, pv) = Inr ()"
proof -
  let ?log = "ac_accounts c" and ?old = "ledger_view_of s0" and ?new = "ledger_view_of (ac_state c)"
  let ?K = "{k. ak_token k = t \<and> bt_get ?log k \<noteq> None}"
  let ?rows = "filter (\<lambda>e. ak_token (fst e) = t) ?log"
  have log: "undo_ok (as_accounts s0) (as_accounts (ac_state c)) ?log"
    and tlog: "undo_ok (as_tokens s0) (as_tokens (ac_state c)) (ac_tokens c)"
    and present: "bt_get (as_tokens (ac_state c)) t \<noteq> None"
    using undo e unfolding undo_inv_def by auto
  have inv: "bt_invar ?log" using log by (simp add: undo_ok_def)
  have pv: "pv = bt_get (as_tokens s0) t" using undo_okD(1) [OF tlog e] .
  obtain ts where ts: "bt_get (as_tokens (ac_state c)) t = Some ts" using present by blast
  have prev: "unwrap_or 0 (snd row) = lv_balance ?old (fst row)" if "row \<in> set ?log" for row
    using that undo_okD(1) [OF log, of "fst row" "snd row"] bt_get_mem_iff [OF inv, of "fst row" "snd row"] by simp
  have "sum_list (map (unat \<circ> (\<lambda>row. unwrap_or 0 (snd row))) ?rows)
      = sum_list (map (\<lambda>row. unat (lv_balance ?old (fst row))) ?rows)"
    using prev by (intro arg_cong [where f = sum_list] map_cong) auto
  then have p: "sum_list (map (unat \<circ> (\<lambda>row. unwrap_or 0 (snd row))) ?rows) = (\<Sum>k\<in>?K. unat (lv_balance ?old k))"
    using sum_list_rows [OF inv] by simp
  have q: "sum_list (map (unat \<circ> (\<lambda>row. unwrap_or 0 (bt_get (as_accounts (ac_state c)) (fst row)))) ?rows)
      = (\<Sum>k\<in>?K. unat (lv_balance ?new k))"
    using sum_list_rows [OF inv] by (simp add: comp_def)
  have unchanged: "lv_balance ?new k = lv_balance ?old k" if "ak_token k = t" "k \<notin> ?K" for k
    using that undo_okD(2) [OF log, of k] by simp
  have tot: "token_sum ?old t = cached_total pv" "token_sum ?new t = unat (account_total ts)"
    using sums_okD [OF sums(1), of t] sums_okD [OF sums(2), of t] ts pv by auto
  have le: "(\<Sum>k\<in>?K. unat (lv_balance ?old k)) \<le> cached_total pv" "(\<Sum>k\<in>?K. unat (lv_balance ?new k)) \<le> unat (account_total ts)"
    using token_sum_part [of ?K t ?old] token_sum_part [of ?K t ?new] tot by auto
  obtain p' q' where fold: "try_fold (\<lambda>row acc.
            rbind (ok_or (checked_add (fst acc) (unwrap_or 0 (snd row))) Overflow) (\<lambda>a.
            rbind (ok_or (checked_add (snd acc) (unwrap_or 0 (bt_get (as_accounts (ac_state c)) (fst row)))) Overflow)
             (\<lambda>b. Inr (a, b)))) ?rows (0, 0) = Inr (p', q')"
    and p': "unat p' = (\<Sum>k\<in>?K. unat (lv_balance ?old k))" and q': "unat q' = (\<Sum>k\<in>?K. unat (lv_balance ?new k))"
    using changed_sums [of 0 "\<lambda>row. unwrap_or 0 (snd row)" ?rows 0
        "\<lambda>row. unwrap_or 0 (bt_get (as_accounts (ac_state c)) (fst row))"] le cached_total_less [of pv]
      cached_total_less [of "Some ts"] unfolding p q by auto
  have bal: "unat (account_total ts) + unat p' = cached_total pv + unat q'"
    using token_sum_split [of t ?K ?new ?old] unchanged unfolding tot p' q' by auto
  let ?pt = "account_total (unwrap_or TokenState_default pv)"
  have pt: "unat ?pt = cached_total pv" by (cases pv) (auto simp: TokenState_default_def)
  have sub: "checked_sub ?pt p' = Some (?pt - p')" "unat (?pt - p') = unat ?pt - unat p'"
    using le(1) p' pt by (auto simp: checked_sub_def word_le_nat_alt unat_sub)
  have add: "checked_add (?pt - p') q' = Some (account_total ts)"
  proof -
    have "unat (?pt - p') + unat q' = unat (account_total ts)" using sub(2) bal le(1) p' pt by auto
    then show ?thesis using cached_total_less [of "Some ts"]
      by (auto simp: checked_add_def word_unat_eq_iff unat_word_ariths)
  qed
  show ?thesis
    by (simp add: validate_changed_token_def token_rows_filter [OF inv] fold sub add ensure_aggregate_def ts)
qed

lemma validate_changed_aggregates_ok:
  assumes "undo_inv s0 c" and "sums_ok (ledger_view_of s0)" "sums_ok (ledger_view_of (ac_state c))"
  shows "validate_changed_aggregates (ac_state c) (ac_accounts c) (ac_tokens c) = Inr ()"
proof -
  have inv: "bt_invar (ac_tokens c)" using assms(1) by (simp add: undo_inv_def undo_ok_def)
  have "validate_changed_token (ac_state c) (ac_accounts c) e = Inr ()" if "e \<in> set (ac_tokens c)" for e
    using validate_changed_token_ok [OF assms] that bt_get_mem_iff [OF inv] by (cases e) auto
  then show ?thesis by (simp add: validate_changed_aggregates_def try_fold_unit_iff)
qed

lemma state_apply_ledger:
  assumes "accounting_ok s"
  shows "case ledger_run effects (ledger_view_of s) of
      Inl e \<Rightarrow> state_apply effects s = (Inl e, s)
    | Inr l \<Rightarrow> \<exists>rows s'. state_apply effects s = (Inr rows, s') \<and> ledger_view_of s' = l \<and> accounting_ok s'"
proof -
  let ?c0 = "\<lparr>ac_state = s, ac_accounts = [], ac_tokens = []\<rparr>"
  have rows: "rows_ok s" and sums: "sums_ok (ledger_view_of s)" using assms by (auto simp: accounting_ok_def)
  then have init: "undo_inv s ?c0" by (intro undo_inv_init) (auto simp: rows_ok_def)
  obtain r c where run: "efor apply_effect effects ?c0 = (r, c)" by (cases "efor apply_effect effects ?c0")
  have agrees: "effect_agrees (ledger_run effects (ledger_view_of s)) ?c0 (r, c)"
    using effects_agree [of ?c0 effects] rows run by simp
  have inv: "undo_inv s c" using undo_inv_effects [OF init run] .
  show ?thesis
  proof (cases r)
    case (Inl e)
    have "restore (as_accounts (ac_state c)) (ac_accounts c) = as_accounts s"
      "restore (as_tokens (ac_state c)) (ac_tokens c) = as_tokens s"
      using inv rows by (auto simp: undo_inv_def rows_ok_def intro: restore_undo)
    then show ?thesis
      using agrees run Inl by (simp add: effect_agrees_def state_apply_def ebind_def)
  next
    case (Inr u)
    then have l: "ledger_run effects (ledger_view_of s) = Inr (ledger_view_of (ac_state c))"
      and ok: "rows_ok (ac_state c)" using agrees by (auto simp: effect_agrees_def)
    have "sums_ok (ledger_view_of (ac_state c))" using ledger_run_sums [OF sums l] .
    then show ?thesis
      using l ok run Inr validate_changed_aggregates_ok [OF inv sums]
      by (simp add: accounting_ok_def state_apply_def ebind_def)
  qed
qed

text \<open>
  C7. From a consistent state, \<open>apply\<close> is the abstract ledger transition: when every effect applies
  to the ledger it succeeds and its rows describe the new ledger, which is consistent again, so the
  validation of the changed aggregates never rejects; when an effect fails it returns that error and
  the state is the one before.
\<close>

theorem apply_refines_ledger:
  assumes "accounting_ok s"
  shows "case ledger_run effects (ledger_view_of s) of
      Inl e \<Rightarrow> state_apply effects s = (Inl e, s)
    | Inr l \<Rightarrow> \<exists>rows s'. state_apply effects s = (Inr rows, s') \<and> ledger_view_of s' = l \<and> accounting_ok s'"
  using state_apply_ledger [OF assms] .

section \<open>Loading and checking\<close>

lemma checked_sum_Inr:
  "try_fold (\<lambda>row total. ok_or (checked_add total (f row)) Overflow) rows (a :: u256) = Inr b \<Longrightarrow>
     unat b = unat a + sum_list (map (\<lambda>row. unat (f row)) rows)"
  by (induction rows arbitrary: a) (auto dest: checked_add_Some(2))

lemma checked_sum_ok:
  "unat (a :: u256) + sum_list (map (\<lambda>row. unat (f row)) rows) < 2 ^ 256 \<Longrightarrow>
     \<exists>b. try_fold (\<lambda>row total. ok_or (checked_add total (f row)) Overflow) rows a = Inr b"
proof (induction rows arbitrary: a)
  case (Cons row rows)
  then have "checked_add a (f row) = Some (a + f row)" by (simp add: checked_add_def)
  then show ?case using Cons checked_add_Some(2) [of a "f row"] by (simp add: add.assoc)
qed simp

lemma token_sum_rows:
  assumes "bt_invar (as_accounts s)"
  shows "sum_list (map (\<lambda>row. unat (snd row)) (token_rows t (as_accounts s))) = token_sum (ledger_view_of s) t"
proof -
  let ?m = "as_accounts s"
  have "unat (snd row) = unat (lv_balance (ledger_view_of s) (fst row))" if "row \<in> set ?m" for row
    using that bt_get_mem_iff [OF assms, of "fst row" "snd row"] by simp
  then have "sum_list (map (\<lambda>row. unat (snd row)) (token_rows t ?m))
      = (\<Sum>k | ak_token k = t \<and> bt_get ?m k \<noteq> None. unat (lv_balance (ledger_view_of s) k))"
    unfolding token_rows_filter [OF assms] sum_list_rows [OF assms, symmetric]
    by (intro arg_cong [where f = sum_list] map_cong) auto
  also have "\<dots> = token_sum (ledger_view_of s) t"
    unfolding token_sum_def by (rule sum.mono_neutral_left) (auto intro: finite_AccountKey)
  finally show ?thesis .
qed

lemma validate_aggregate_iff:
  assumes "bt_invar (as_accounts s)"
  shows "validate_aggregate s t = Inr () \<longleftrightarrow>
    token_sum (ledger_view_of s) t = cached_total (bt_get (as_tokens s) t)"
proof
  assume "validate_aggregate s t = Inr ()"
  then obtain total where total: "try_fold (\<lambda>row total. ok_or (checked_add total (snd row)) Overflow)
      (token_rows t (as_accounts s)) 0 = Inr total"
    and rest: "\<not> bt_contains (as_tokens s) t \<and> total = 0 \<or> ensure_aggregate s t total = Inr ()"
    by (auto simp: validate_aggregate_def split: if_splits)
  have "unat total = token_sum (ledger_view_of s) t"
    using checked_sum_Inr [OF total] token_sum_rows [OF assms] by simp
  then show "token_sum (ledger_view_of s) t = cached_total (bt_get (as_tokens s) t)"
    using rest by (auto simp: bt_contains_def ensure_aggregate_def)
next
  assume eq: "token_sum (ledger_view_of s) t = cached_total (bt_get (as_tokens s) t)"
  then have "unat (0 :: u256) + sum_list (map (\<lambda>row. unat (snd row)) (token_rows t (as_accounts s))) < 2 ^ 256"
    using cached_total_less token_sum_rows [OF assms] by simp
  then obtain total where total: "try_fold (\<lambda>row total. ok_or (checked_add total (snd row)) Overflow)
      (token_rows t (as_accounts s)) 0 = Inr total"
    using checked_sum_ok by blast
  have "unat total = cached_total (bt_get (as_tokens s) t)"
    using checked_sum_Inr [OF total] token_sum_rows [OF assms] eq by simp
  then show "validate_aggregate s t = Inr ()"
    using total by (cases "bt_get (as_tokens s) t")
      (auto simp: validate_aggregate_def ensure_aggregate_def bt_contains_def word_unat_eq_iff)
qed

lemma set_bt_extend_keys: "set (bt_keys (bt_extend es m)) = fst ` set es \<union> set (bt_keys m)"
  by (induction es m rule: bt_extend.induct) (auto simp: bt_keys_def set_bt_insert_keys simp del: set_map)

text \<open>
  Loading rows drops the zero balances and accepts exactly the consistent tables: those in
  which every token's cached total is the sum of its accounts and no account belongs to a token
  without a row.
\<close>

lemma from_rows_iff:
  "from_rows accounts tokens = Inr s \<longleftrightarrow>
     s = \<lparr>as_accounts = bt_extend (filter (\<lambda>e. snd e \<noteq> 0) accounts) [], as_tokens = bt_extend tokens []\<rparr>
     \<and> accounting_ok s"
proof -
  let ?s = "\<lparr>as_accounts = bt_extend (filter (\<lambda>e. snd e \<noteq> 0) accounts) [], as_tokens = bt_extend tokens []\<rparr>"
  let ?all = "bt_keys (bt_extend (map (\<lambda>t. (t, ()))
             (bt_keys (as_tokens ?s) @ map ak_token (bt_keys (as_accounts ?s)))) [])"
  have inv: "bt_invar (as_accounts ?s)" "bt_invar (as_tokens ?s)" by (simp_all add: bt_invar_extend bt_invars)
  have "bt_get (as_accounts ?s) k \<noteq> Some 0" for k
    by (auto simp: bt_get_extend dest: map_of_SomeD split: option.splits)
  then have rows: "rows_ok ?s" using inv by (simp add: rows_ok_def)
  have all: "set ?all = set (bt_keys (as_tokens ?s)) \<union> ak_token ` set (bt_keys (as_accounts ?s))"
    unfolding set_bt_extend_keys by (simp add: image_image image_Un bt_keys_def [of "[]"])
  have outside: "token_sum (ledger_view_of ?s) t = cached_total (bt_get (as_tokens ?s) t)" if "t \<notin> set ?all" for t
  proof -
    have "bt_get (as_tokens ?s) t = None" using that unfolding all by (auto simp: bt_get_None_iff bt_keys_def)
    moreover have "bt_get (as_accounts ?s) k = None" if "ak_token k = t" for k
      using \<open>t \<notin> set ?all\<close> that unfolding all by (auto simp: bt_get_None_iff bt_keys_def)
    ultimately show ?thesis by (simp add: token_sum_def)
  qed
  have "validate_aggregates ?s ?all = Inr () \<longleftrightarrow> sums_ok (ledger_view_of ?s)"
    using outside unfolding validate_aggregates_def try_fold_unit_iff validate_aggregate_iff [OF inv(1)] sums_ok_def
    by auto
  then show ?thesis
    using rows unfolding from_rows_def Let_def by (auto simp: accounting_ok_def)
qed

definition liability_sum :: "TokenState \<Rightarrow> nat" where
  "liability_sum ts = unat (account_total ts) + unat (pending_deposits ts) + unat (pending_withdrawals ts)
     + unat (pending_tempo_refunds ts) + unat (pending_zone_refunds ts)"

lemma liability_Inr: "liability ts = Inr v \<Longrightarrow> unat v = liability_sum ts"
  by (auto simp: liability_def and_then_def liability_sum_def dest!: checked_add_Some(2) split: option.splits)

lemma liability_total:
  assumes "liability_sum ts < 2 ^ 256"
  shows "\<exists>v. liability ts = Inr v"
  using assms
  by (auto simp: liability_def and_then_def liability_sum_def checked_add_def unat_word_ariths)

text \<open>
  The custody check passes exactly when every listed token is known and the portal's balance
  covers its circulating and in-flight liabilities; an overflowing liability never passes.
\<close>

lemma verify_portal_balances_iff:
  "verify_portal_balances s balances = Inr () \<longleftrightarrow>
     (\<forall>(t, available) \<in> set balances. \<exists>ts. bt_get (as_tokens s) t = Some ts \<and> liability_sum ts \<le> unat available)"
proof -
  have "(rbind (ok_or (bt_get (as_tokens s) t) (UnknownToken t)) (\<lambda>ts.
       rbind (liability ts) (\<lambda>required.
       check (\<not> available < required) (CollateralShortfall t required available))) = Inr ())
     \<longleftrightarrow> (\<exists>ts. bt_get (as_tokens s) t = Some ts \<and> liability_sum ts \<le> unat available)" for t and available :: u256
  proof -
    have "liability_sum ts < 2 ^ 256" if "liability_sum ts \<le> unat available" for ts
      using that u256_less [of available] by simp
    then show ?thesis
      using liability_total liability_Inr by (fastforce simp: word_less_nat_alt)
  qed
  then show ?thesis unfolding verify_portal_balances_def
    by (subst case_prod_beta', subst try_fold_unit_iff) auto
qed

section \<open>Concrete instances\<close>

definition sample_token_state :: TokenState where
  "sample_token_state = TokenState_default\<lparr>account_total := 12, pending_withdrawals := 4\<rparr>"

definition sample_accounting :: AccountingState where
  "sample_accounting = \<lparr>as_accounts = [(AccountKey 1 21, 5), (AccountKey 1 22, 7)],
     as_tokens = [(1, sample_token_state)]\<rparr>"

lemma sample_accounting_ok: "accounting_ok sample_accounting"
proof -
  have inv: "bt_invar (as_accounts sample_accounting)" "bt_invar (as_tokens sample_accounting)"
    by (simp_all add: sample_accounting_def bt_invar_def less_AccountKey_def)
  have "token_sum (ledger_view_of sample_accounting) t = cached_total (bt_get (as_tokens sample_accounting) t)" for t
    unfolding token_sum_rows [OF inv(1), symmetric] token_rows_filter [OF inv(1)]
    by (simp add: sample_accounting_def sample_token_state_def)
  then show ?thesis
    using inv by (simp add: accounting_ok_def rows_ok_def sums_ok_def) (simp add: sample_accounting_def)
qed

text \<open>The second effect fails after the first has changed two rows.\<close>

definition failing_effects :: "Effect list" where
  "failing_effects = [AccountEffect (AccountKey 1 21) (Debit 5), AccountEffect (AccountKey 1 22) (Debit 8)]"

lemma sample_failing_run: "ledger_run failing_effects (ledger_view_of sample_accounting) = Inl Underflow"
  by (simp add: failing_effects_def ledger_run_def sample_accounting_def sample_token_state_def checked_sub_def)

lemma failed_apply_restores_witness:
  "state_apply failing_effects sample_accounting = (Inl Underflow, sample_accounting)"
proof -
  have inv: "bt_invar (as_accounts sample_accounting)" "bt_invar (as_tokens sample_accounting)"
    using sample_accounting_ok by (auto simp: accounting_ok_def rows_ok_def)
  obtain s' where s': "state_apply failing_effects sample_accounting = (Inl Underflow, s')"
    by (simp add: state_apply_def failing_effects_def sample_accounting_def sample_token_state_def eseq_def
        change_account_def get_token_def insert_token_def ebind_def checked_sub_def write_nonzero_def)
  then show ?thesis using failed_apply_restores [OF inv s'] by simp
qed

theorem apply_refines_ledger_witness:
  "\<exists>rows s'. state_apply [AccountEffect (AccountKey 1 22) (Debit 7), LiabilityEffect 1 WithdrawalLiability (Credit 6)]
       sample_accounting = (Inr rows, s')
     \<and> bt_get (as_accounts s') (AccountKey 1 22) = None
     \<and> bt_get (as_tokens s') 1 = Some (sample_token_state\<lparr>account_total := 5, pending_withdrawals := 10\<rparr>)
     \<and> accounting_ok s'"
proof -
  let ?es = "[AccountEffect (AccountKey 1 22) (Debit 7), LiabilityEffect 1 WithdrawalLiability (Credit 6)]"
  obtain l where l: "ledger_run ?es (ledger_view_of sample_accounting) = Inr l"
    and b: "lv_balance l (AccountKey 1 22) = 0"
    and t: "lv_token l 1 = Some (sample_token_state\<lparr>account_total := 5, pending_withdrawals := 10\<rparr>)"
    by (simp add: ledger_run_def sample_accounting_def sample_token_state_def TokenState_default_def
        checked_sub_def checked_add_def)
  obtain rows s' where s': "state_apply ?es sample_accounting = (Inr rows, s')" "ledger_view_of s' = l" "accounting_ok s'"
    using apply_refines_ledger [OF sample_accounting_ok, of ?es] l by auto
  moreover have "bt_get (as_accounts s') (AccountKey 1 22) = None"
    using b s'(2,3) unfolding accounting_ok_def rows_ok_def
    by (cases "bt_get (as_accounts s') (AccountKey 1 22)") auto
  moreover have "bt_get (as_tokens s') 1 = Some (sample_token_state\<lparr>account_total := 5, pending_withdrawals := 10\<rparr>)"
    using t s'(2) by auto
  ultimately show ?thesis by blast
qed

lemma verify_portal_balances_iff_witness:
  "verify_portal_balances sample_accounting [(1, 16)] = Inr ()
     \<and> verify_portal_balances sample_accounting [(1, 15)] \<noteq> Inr ()"
  unfolding verify_portal_balances_iff
  by (simp add: sample_accounting_def sample_token_state_def liability_sum_def TokenState_default_def)

end
