(* ===== verification/Portal_Events.thy ===== *)
theory Portal_Events
  imports Withdrawal_Chain
begin

text \<open>
  Contract logs and the events of the \<open>ZonePortal\<close> contract
  (\<open>crates/contracts/src/precompiles/zone_portal.rs\<close>), shared by the checker and by the L1
  subscriber. The ABI code of an event is generated by a third-party macro: its signature hash, its
  validating decoder and its encoder are the fields of a \<open>sol_event\<close>, and a contract's ABI is a
  record of them. \<open>decode_event\<close> is the repository's own wrapper, which rejects encodings that are
  not canonical (\<open>crates/checker/src/lib.rs\<close>).
\<close>

section \<open>Logs and event codecs\<close>

text \<open>A block position: its number and hash.\<close>

record BlockNumHash =
  bn_number :: u64
  bn_hash :: b256

record log_data =
  ld_topics :: "b256 list"
  ld_data :: bytes

record chain_log =
  log_address :: address
  log_data :: log_data

record 'e sol_event =
  SIGNATURE_HASH :: b256
  decode_log_validate :: "chain_log \<Rightarrow> 'e option"
  encode_log_data :: "'e \<Rightarrow> log_data"

definition topic0 :: "chain_log \<Rightarrow> b256 option" where
  "topic0 log = (case ld_topics (log_data log) of [] \<Rightarrow> None | t # _ \<Rightarrow> Some t)"

datatype evidence_error =
    MalformedEvent string u64
  | NonCanonicalEvent string u64
  | TopiclessLog string u64
  | UnsupportedEvent string b256 u64
  | InvalidWithdrawalOrigin u64 address u64
  | OutcomeWithoutMint b256
  | UnexplainedMint b256
  | MintMismatch b256
  | NoMatchingBurn b256 u256 address
  | UnexplainedBurn b256
  | DuplicateTempoAdvanced u64
  | MissingTempoAdvanced u64
  | ReceiptCountMismatch u64 nat nat
  | CheckpointShape string
  | AnchorNotAdvanced
  | BlockNumberOverflow u64
  | HistoryNotContiguous u64
  | HistoryOffAnchor
  | EvidenceUnavailable u64

definition decode_event :: "'e sol_event \<Rightarrow> chain_log \<Rightarrow> string \<Rightarrow> u64 \<Rightarrow> evidence_error + 'e" where
  "decode_event ev log name block =
     rbind (ok_or (decode_log_validate ev log) (MalformedEvent name block)) (\<lambda>event.
     rbind (check (encode_log_data ev event = log_data log) (NonCanonicalEvent name block)) (\<lambda>_.
     Inr event))"

lemma decode_event_Inr [simp]:
  "decode_event ev log name block = Inr e \<longleftrightarrow>
     decode_log_validate ev log = Some e \<and> encode_log_data ev e = log_data log"
  by (auto simp: decode_event_def)

section \<open>Portal events\<close>

record DepositMade =
  dm_newCurrentDepositQueueHash :: b256
  dm_sender :: address
  dm_token :: address
  dm_netAmount :: u128
  dm_fee :: u128
  dm_keyIndex :: u256
  dm_ephemeralPubkeyX :: b256
  dm_ephemeralPubkeyYParity :: u8
  dm_ciphertext :: bytes
  dm_nonce :: bytes
  dm_tag :: bytes
  dm_tempoRefundRecipient :: address
  dm_depositNumber :: u64

record PortalTokenEnabled =
  pte_token :: address
  pte_name :: string
  pte_symbol :: string
  pte_currency :: string

record PortalWithdrawalProcessed =
  pwp_to :: address
  pwp_senderTag :: b256
  pwp_token :: address
  pwp_amount :: u128
  pwp_callbackSuccess :: bool

record PortalWithdrawalBounceBack =
  pwb_newCurrentDepositQueueHash :: b256
  pwb_fallbackNonce :: u64
  pwb_token :: address
  pwb_amount :: u128
  pwb_depositNumber :: u64

text \<open>\<open>DepositBounceBack\<close> and \<open>DepositBounceBackPending\<close> have the same fields.\<close>

record PortalDepositBounceBack =
  pdb_tempoRefundRecipient :: address
  pdb_token :: address
  pdb_amount :: u128
  pdb_bouncebackFee :: u128

record PortalRefundClaimed =
  prc_recipient :: address
  prc_token :: address
  prc_amount :: u128

record SequencerEncryptionKeyUpdated =
  sku_x :: b256
  sku_yParity :: u8
  sku_pubkey :: address
  sku_keyIndex :: u256
  sku_activationBlock :: u64

record LeaderUpdated =
  lu_previousLeader :: address
  lu_newLeader :: address
  lu_epoch :: u64
  lu_activationTempoBlock :: u64

text \<open>Events whose fields no component of the repository reads; they decode to an opaque payload.\<close>

datatype other_portal_event =
    BatchSubmitted_0 | BatchSubmitted_1 | DepositsPaused | DepositsResumed | AbdicationScheduled
  | RpcUrlUpdated | ZoneGasRateUpdated | MaxTempoGasRateUpdated | BouncebackGasUpdated
  | AdminTransferStarted | AdminTransferred | RoleUpdated | EnforcementModesUpdated | SequencerSetUpdated

record portal_abi =
  pa_DepositMade :: "DepositMade sol_event"
  pa_TokenEnabled :: "PortalTokenEnabled sol_event"
  pa_WithdrawalProcessed :: "PortalWithdrawalProcessed sol_event"
  pa_WithdrawalBounceBack :: "PortalWithdrawalBounceBack sol_event"
  pa_DepositBounceBack :: "PortalDepositBounceBack sol_event"
  pa_DepositBounceBackPending :: "PortalDepositBounceBack sol_event"
  pa_RefundClaimed :: "PortalRefundClaimed sol_event"
  pa_SequencerEncryptionKeyUpdated :: "SequencerEncryptionKeyUpdated sol_event"
  pa_LeaderUpdated :: "LeaderUpdated sol_event"
  pa_PortalPaused :: "address sol_event"
  pa_PortalResumed :: "address sol_event"
  pa_other :: "other_portal_event \<Rightarrow> bytes sol_event"

end
