(* ===== verification/L1_Evidence.thy ===== *)
theory L1_Evidence
  imports Portal_Events
begin

text \<open>
  The checker's view of Tempo (\<open>crates/checker/src/l1\<close>): decoding the Portal logs of a block, and
  the backwards walk that collects every block of a range, each bound to the one above it by its
  hash. RPC calls, header hashing and receipt roots are parameters of the model; so is the tracker
  that may already hold a block's logs. The errors are the code's three classes.
\<close>

section \<open>Errors\<close>

datatype 'e L1ReadError = Unavailable 'e | Finding 'e | Disable 'e

datatype 'e AttemptError = AttemptRetry 'e | AttemptDisable 'e

fun attempt_to_read_error :: "'e AttemptError \<Rightarrow> 'e L1ReadError" where
  "attempt_to_read_error (AttemptRetry e) = Unavailable e"
| "attempt_to_read_error (AttemptDisable e) = Disable e"

fun read_to_attempt_error :: "'e L1ReadError \<Rightarrow> 'e AttemptError" where
  "read_to_attempt_error (Unavailable e) = AttemptRetry e"
| "read_to_attempt_error (Finding e) = AttemptDisable e"
| "read_to_attempt_error (Disable e) = AttemptDisable e"

text \<open>
  The transport library's errors, as far as the classification looks: a response has its own
  retry hint and a code.
\<close>

datatype rpc_error =
    ErrorResp bool int
  | UnsupportedFeature | LocalUsageError | SerError | DeserError | TransportNonRetryable | OtherTransport

datatype read_failure =
    RpcFailure rpc_error
  | EvidenceFailure evidence_error
  | HeaderHashMismatch u64
  | WrongBlockNumber u64 u64
  | ReceiptRootMismatch u64
  | LogsBloomMismatch u64

fun rpc_retryable :: "rpc_error \<Rightarrow> bool" where
  "rpc_retryable (ErrorResp is_retry_err code) \<longleftrightarrow> is_retry_err \<or> code \<in> {- 32001, - 32002, - 32603}"
| "rpc_retryable OtherTransport \<longleftrightarrow> True"
| "rpc_retryable _ \<longleftrightarrow> False"

definition classify_rpc_error :: "rpc_error \<Rightarrow> read_failure AttemptError" where
  "classify_rpc_error e =
     (if rpc_retryable e then AttemptRetry (RpcFailure e) else AttemptDisable (RpcFailure e))"

section \<open>Portal logs\<close>

datatype L1PortalEvent =
    DepositMadeEv address u128
  | TokenEnabledEv address
  | WithdrawalProcessedEv b256 address u128 bool
  | WithdrawalBounceBackEv address u128
  | DepositBounceBackEv address u128 u128
  | DepositBounceBackPendingEv address u128 u128
  | RefundClaimedEv address u128

definition ignored :: "'e sol_event \<Rightarrow> chain_log \<Rightarrow> string \<Rightarrow> u64 \<Rightarrow> evidence_error + L1PortalEvent option" where
  "ignored ev log name block = rbind (decode_event ev log name block) (\<lambda>_. Inr None)"

definition ignored_events :: "(other_portal_event \<times> string) list" where
  "ignored_events =
     [(BatchSubmitted_0, ''BatchSubmitted_0''), (BatchSubmitted_1, ''BatchSubmitted_1''),
      (DepositsPaused, ''DepositsPaused''), (DepositsResumed, ''DepositsResumed''),
      (AbdicationScheduled, ''AbdicationScheduled''), (RpcUrlUpdated, ''RpcUrlUpdated''),
      (ZoneGasRateUpdated, ''ZoneGasRateUpdated''), (MaxTempoGasRateUpdated, ''MaxTempoGasRateUpdated''),
      (BouncebackGasUpdated, ''BouncebackGasUpdated''), (AdminTransferStarted, ''AdminTransferStarted''),
      (AdminTransferred, ''AdminTransferred''), (RoleUpdated, ''RoleUpdated''),
      (EnforcementModesUpdated, ''EnforcementModesUpdated''), (SequencerSetUpdated, ''SequencerSetUpdated'')]"

definition decode_ignored_event ::
  "portal_abi \<Rightarrow> chain_log \<Rightarrow> b256 \<Rightarrow> u64 \<Rightarrow> evidence_error + L1PortalEvent option" where
  "decode_ignored_event abi log topic block =
     (if topic = SIGNATURE_HASH (pa_PortalPaused abi) then ignored (pa_PortalPaused abi) log ''PortalPaused'' block
      else if topic = SIGNATURE_HASH (pa_PortalResumed abi) then ignored (pa_PortalResumed abi) log ''PortalResumed'' block
      else if topic = SIGNATURE_HASH (pa_SequencerEncryptionKeyUpdated abi) then
        ignored (pa_SequencerEncryptionKeyUpdated abi) log ''SequencerEncryptionKeyUpdated'' block
      else if topic = SIGNATURE_HASH (pa_LeaderUpdated abi) then ignored (pa_LeaderUpdated abi) log ''LeaderUpdated'' block
      else
        case find (\<lambda>e. topic = SIGNATURE_HASH (pa_other abi (fst e))) ignored_events of
          Some (k, name) \<Rightarrow> ignored (pa_other abi k) log name block
        | None \<Rightarrow> Inl (UnsupportedEvent ''Portal'' topic block))"

definition decode_portal_event ::
  "portal_abi \<Rightarrow> chain_log \<Rightarrow> u64 \<Rightarrow> evidence_error + L1PortalEvent option" where
  "decode_portal_event abi log block =
     rbind (ok_or (topic0 log) (TopiclessLog ''Portal'' block)) (\<lambda>topic.
     if topic = SIGNATURE_HASH (pa_DepositMade abi) then
       rbind (decode_event (pa_DepositMade abi) log ''DepositMade'' block) (\<lambda>e.
         Inr (Some (DepositMadeEv (dm_token e) (dm_netAmount e))))
     else if topic = SIGNATURE_HASH (pa_TokenEnabled abi) then
       rbind (decode_event (pa_TokenEnabled abi) log ''TokenEnabled'' block) (\<lambda>e.
         Inr (Some (TokenEnabledEv (pte_token e))))
     else if topic = SIGNATURE_HASH (pa_WithdrawalProcessed abi) then
       rbind (decode_event (pa_WithdrawalProcessed abi) log ''WithdrawalProcessed'' block) (\<lambda>e.
         Inr (Some (WithdrawalProcessedEv (pwp_senderTag e) (pwp_token e) (pwp_amount e) (pwp_callbackSuccess e))))
     else if topic = SIGNATURE_HASH (pa_WithdrawalBounceBack abi) then
       rbind (decode_event (pa_WithdrawalBounceBack abi) log ''WithdrawalBounceBack'' block) (\<lambda>e.
         Inr (Some (WithdrawalBounceBackEv (pwb_token e) (pwb_amount e))))
     else if topic = SIGNATURE_HASH (pa_DepositBounceBack abi) then
       rbind (decode_event (pa_DepositBounceBack abi) log ''DepositBounceBack'' block) (\<lambda>e.
         Inr (Some (DepositBounceBackEv (pdb_token e) (pdb_amount e) (pdb_bouncebackFee e))))
     else if topic = SIGNATURE_HASH (pa_DepositBounceBackPending abi) then
       rbind (decode_event (pa_DepositBounceBackPending abi) log ''DepositBounceBackPending'' block) (\<lambda>e.
         Inr (Some (DepositBounceBackPendingEv (pdb_token e) (pdb_amount e) (pdb_bouncebackFee e))))
     else if topic = SIGNATURE_HASH (pa_RefundClaimed abi) then
       rbind (decode_event (pa_RefundClaimed abi) log ''RefundClaimed'' block) (\<lambda>e.
         Inr (Some (RefundClaimedEv (prc_token e) (prc_amount e))))
     else decode_ignored_event abi log topic block)"

section \<open>Collecting one block\<close>

record L1BlockEvents =
  le_timestamp_millis :: u64
  le_events :: "L1PortalEvent list"

type_synonym L1BlockEvidence = "L1BlockEvents list"

definition portal_events :: "L1BlockEvidence \<Rightarrow> L1PortalEvent list" where
  "portal_events ev = concat (map le_events ev)"

record zone_receipt =
  rc_status :: bool
  rc_logs :: "chain_log list"

definition extract_log ::
  "portal_abi \<Rightarrow> address \<Rightarrow> u64 \<Rightarrow> chain_log \<Rightarrow> L1PortalEvent list \<Rightarrow> evidence_error + L1PortalEvent list" where
  "extract_log abi portal block log events =
     (if log_address log = portal then
        rbind (decode_portal_event abi log block) (\<lambda>event.
          Inr (case event of None \<Rightarrow> events | Some e \<Rightarrow> events @ [e]))
      else Inr events)"

definition extract_l1_receipt ::
  "portal_abi \<Rightarrow> address \<Rightarrow> u64 \<Rightarrow> zone_receipt \<Rightarrow> L1PortalEvent list \<Rightarrow> evidence_error + L1PortalEvent list" where
  "extract_l1_receipt abi portal block receipt events =
     (if \<not> rc_status receipt then Inr events
      else try_fold (extract_log abi portal block) (rc_logs receipt) events)"

definition collect_l1_block_evidence ::
  "portal_abi \<Rightarrow> address \<Rightarrow> BlockNumHash \<Rightarrow> u64 \<Rightarrow> zone_receipt list \<Rightarrow> read_failure L1ReadError + L1BlockEvidence" where
  "collect_l1_block_evidence abi portal block timestamp_millis receipts =
     rbind (map_err (\<lambda>e. Finding (EvidenceFailure e))
              (try_fold (extract_l1_receipt abi portal (bn_number block)) receipts [])) (\<lambda>events.
     Inr [\<lparr>le_timestamp_millis = timestamp_millis, le_events = events\<rparr>])"

record AuthenticatedPortalLogs =
  apl_block :: BlockNumHash
  apl_parent_hash :: b256
  apl_timestamp_millis :: u64
  apl_logs :: "chain_log list"

definition collect_tracked_l1_block_evidence ::
  "portal_abi \<Rightarrow> address \<Rightarrow> BlockNumHash \<Rightarrow> AuthenticatedPortalLogs \<Rightarrow> read_failure L1ReadError + L1BlockEvidence" where
  "collect_tracked_l1_block_evidence abi portal parent evidence =
     rbind (ok_or (checked_add (bn_number parent) 1)
              (Disable (EvidenceFailure (BlockNumberOverflow (bn_number parent))))) (\<lambda>expected_number.
     rbind (check (bn_number (apl_block evidence) = expected_number \<and> apl_parent_hash evidence = bn_hash parent)
              (Finding (EvidenceFailure (HistoryNotContiguous (bn_number (apl_block evidence)))))) (\<lambda>_.
     rbind (map_err (\<lambda>e. Finding (EvidenceFailure e))
              (try_fold (extract_log abi portal (bn_number (apl_block evidence))) (apl_logs evidence) [])) (\<lambda>events.
     Inr [\<lparr>le_timestamp_millis = apl_timestamp_millis evidence, le_events = events\<rparr>])))"

section \<open>Fetching a block\<close>

record 'h rpc_header =
  rh_hash :: b256
  rh_header :: 'h

record ValidatedRpcHeader =
  vh_block :: BlockNumHash
  vh_parent_hash :: b256
  vh_receipts_root :: b256
  vh_logs_bloom :: "nat"
  vh_timestamp_millis :: u64

text \<open>What the provider and the consensus library supply, over the type \<open>'h\<close> of headers.\<close>

record 'h tempo_rpc =
  rpc_get_block :: "b256 \<Rightarrow> rpc_error + 'h rpc_header option"
  rpc_get_receipts :: "b256 \<Rightarrow> rpc_error + zone_receipt list option"
  rpc_hash_slow :: "'h \<Rightarrow> b256"
  rpc_number :: "'h \<Rightarrow> u64"
  rpc_parent_hash :: "'h \<Rightarrow> b256"
  rpc_receipts_root :: "'h \<Rightarrow> b256"
  rpc_logs_bloom :: "'h \<Rightarrow> nat"
  rpc_timestamp_millis :: "'h \<Rightarrow> u64"
  rpc_calculate_receipt_root :: "zone_receipt list \<Rightarrow> b256"
  rpc_receipts_bloom :: "zone_receipt list \<Rightarrow> nat"

definition validate_rpc_header :: "'h tempo_rpc \<Rightarrow> 'h rpc_header \<Rightarrow> read_failure AttemptError + ValidatedRpcHeader" where
  "validate_rpc_header rpc header =
     (let computed_hash = rpc_hash_slow rpc (rh_header header) in
      rbind (check (rh_hash header = computed_hash)
               (AttemptDisable (HeaderHashMismatch (rpc_number rpc (rh_header header))))) (\<lambda>_.
      Inr \<lparr>vh_block = \<lparr>bn_number = rpc_number rpc (rh_header header), bn_hash = computed_hash\<rparr>,
           vh_parent_hash = rpc_parent_hash rpc (rh_header header),
           vh_receipts_root = rpc_receipts_root rpc (rh_header header),
           vh_logs_bloom = rpc_logs_bloom rpc (rh_header header),
           vh_timestamp_millis = rpc_timestamp_millis rpc (rh_header header)\<rparr>))"

definition verify_receipts_against_header ::
  "'h tempo_rpc \<Rightarrow> BlockNumHash \<Rightarrow> b256 \<Rightarrow> nat \<Rightarrow> zone_receipt list \<Rightarrow> read_failure + unit" where
  "verify_receipts_against_header rpc block expected_receipts_root expected_logs_bloom receipts =
     rbind (check (rpc_calculate_receipt_root rpc receipts = expected_receipts_root)
              (ReceiptRootMismatch (bn_number block))) (\<lambda>_.
     check (rpc_receipts_bloom rpc receipts = expected_logs_bloom) (LogsBloomMismatch (bn_number block)))"

definition fetch_l1_block_at ::
  "'h tempo_rpc \<Rightarrow> portal_abi \<Rightarrow> address \<Rightarrow> BlockNumHash \<Rightarrow>
     read_failure L1ReadError + BlockNumHash \<times> L1BlockEvidence" where
  "fetch_l1_block_at rpc abi portal expected =
     (let number = bn_number expected in
      rbind (map_err (\<lambda>e. attempt_to_read_error (classify_rpc_error e)) (rpc_get_block rpc (bn_hash expected))) (\<lambda>found.
      rbind (ok_or found (Unavailable (EvidenceFailure (EvidenceUnavailable number)))) (\<lambda>block.
      rbind (map_err attempt_to_read_error (validate_rpc_header rpc block)) (\<lambda>header.
      rbind (check (bn_number (vh_block header) = number)
               (Disable (WrongBlockNumber (bn_number (vh_block header)) number))) (\<lambda>_.
      rbind (check (vh_block header = expected) (Finding (EvidenceFailure HistoryOffAnchor))) (\<lambda>_.
      rbind (map_err (\<lambda>e. attempt_to_read_error (classify_rpc_error e))
               (rpc_get_receipts rpc (bn_hash (vh_block header)))) (\<lambda>found.
      rbind (ok_or found (Unavailable (EvidenceFailure (EvidenceUnavailable number)))) (\<lambda>receipts.
      rbind (map_err Disable (verify_receipts_against_header rpc (vh_block header) (vh_receipts_root header)
               (vh_logs_bloom header) receipts)) (\<lambda>_.
      rbind (collect_l1_block_evidence abi portal (vh_block header) (vh_timestamp_millis header) receipts) (\<lambda>evidence.
      Inr (\<lparr>bn_number = number - 1, bn_hash = vh_parent_hash header\<rparr>, evidence)))))))))))"

section \<open>The range walk\<close>

definition collect_l1_block_at ::
  "'h tempo_rpc \<Rightarrow> (BlockNumHash \<Rightarrow> evidence_error + AuthenticatedPortalLogs option) \<Rightarrow> portal_abi \<Rightarrow> address \<Rightarrow>
     BlockNumHash \<Rightarrow> read_failure L1ReadError + BlockNumHash \<times> L1BlockEvidence" where
  "collect_l1_block_at rpc tracker abi portal cursor =
     rbind (map_err (\<lambda>e. Finding (EvidenceFailure e)) (tracker cursor)) (\<lambda>tracked.
     case tracked of
       Some evidence \<Rightarrow>
         (let previous = \<lparr>bn_number = bn_number cursor - 1, bn_hash = apl_parent_hash evidence\<rparr> in
          rbind (collect_tracked_l1_block_evidence abi portal previous evidence) (\<lambda>ev. Inr (previous, ev)))
     | None \<Rightarrow> fetch_l1_block_at rpc abi portal cursor)"

lemma collect_l1_block_at_number:
  "collect_l1_block_at rpc tracker abi portal cursor = Inr (previous, ev) \<Longrightarrow>
     bn_number previous = bn_number cursor - 1"
  by (auto simp: collect_l1_block_at_def fetch_l1_block_at_def Let_def split: option.splits)

function walk_back ::
  "'h tempo_rpc \<Rightarrow> (BlockNumHash \<Rightarrow> evidence_error + AuthenticatedPortalLogs option) \<Rightarrow> portal_abi \<Rightarrow> address \<Rightarrow>
     BlockNumHash \<Rightarrow> BlockNumHash \<Rightarrow> L1BlockEvidence list \<Rightarrow>
     read_failure L1ReadError + BlockNumHash \<times> L1BlockEvidence list" where
  "walk_back rpc tracker abi portal parent cursor blocks =
     (if bn_number parent < bn_number cursor then
        (case collect_l1_block_at rpc tracker abi portal cursor of
           Inl e \<Rightarrow> Inl e
         | Inr (previous, evidence) \<Rightarrow> walk_back rpc tracker abi portal parent previous (blocks @ [evidence]))
      else Inr (cursor, blocks))"
  by pat_completeness auto

termination
proof (relation "measure (\<lambda>(rpc, tracker, abi, portal, parent, cursor, blocks). unat (bn_number cursor))")
  fix rpc :: "'h tempo_rpc" and tracker abi portal parent cursor blocks y previous evidence
  assume above: "bn_number parent < bn_number cursor"
    and step: "collect_l1_block_at rpc tracker abi portal cursor = Inr y" "(previous, evidence) = y"
  have "bn_number previous = bn_number cursor - 1"
    using collect_l1_block_at_number step by metis
  moreover have "bn_number cursor \<noteq> 0" using above by (metis word_not_simps(1))
  ultimately have "unat (bn_number previous) < unat (bn_number cursor)"
    by (simp add: unat_minus_one unat_gt_0)
  then show "((rpc, tracker, abi, portal, parent, previous, blocks @ [evidence]),
      (rpc, tracker, abi, portal, parent, cursor, blocks))
      \<in> measure (\<lambda>(rpc, tracker, abi, portal, parent, cursor, blocks). unat (bn_number cursor))"
    by simp
qed simp

declare walk_back.simps [simp del]

definition collect_l1_range_at ::
  "'h tempo_rpc \<Rightarrow> (BlockNumHash \<Rightarrow> evidence_error + AuthenticatedPortalLogs option) \<Rightarrow> portal_abi \<Rightarrow> address \<Rightarrow>
     BlockNumHash \<Rightarrow> BlockNumHash \<Rightarrow> read_failure L1ReadError + L1BlockEvidence" where
  "collect_l1_range_at rpc tracker abi portal parent expected =
     rbind (check (\<not> bn_number expected \<le> bn_number parent) (Finding (EvidenceFailure AnchorNotAdvanced))) (\<lambda>_.
     rbind (walk_back rpc tracker abi portal parent expected []) (\<lambda>(cursor, blocks).
     rbind (check (cursor = parent) (Finding (EvidenceFailure HistoryOffAnchor))) (\<lambda>_.
     Inr (concat (rev blocks)))))"

section \<open>The walk is bound to the anchor\<close>

text \<open>
  The events of a block as its header commits to them: the header hashes to the block, its receipts
  have the header's root, and the events are the Portal events of the successful receipts.
\<close>

definition header_events ::
  "'h tempo_rpc \<Rightarrow> portal_abi \<Rightarrow> address \<Rightarrow> 'h \<Rightarrow> BlockNumHash \<Rightarrow> L1BlockEvents \<Rightarrow> bool" where
  "header_events rpc abi portal h block b \<longleftrightarrow>
     block = \<lparr>bn_number = rpc_number rpc h, bn_hash = rpc_hash_slow rpc h\<rparr> \<and>
     le_timestamp_millis b = rpc_timestamp_millis rpc h \<and>
     (\<exists>receipts. rpc_calculate_receipt_root rpc receipts = rpc_receipts_root rpc h \<and>
        try_fold (extract_l1_receipt abi portal (bn_number block)) receipts [] = Inr (le_events b))"

text \<open>A history from \<open>parent\<close>: consecutive numbers, each header naming the hash of the one below.\<close>

inductive linked_history ::
  "'h tempo_rpc \<Rightarrow> portal_abi \<Rightarrow> address \<Rightarrow> BlockNumHash \<Rightarrow> L1BlockEvidence \<Rightarrow> BlockNumHash \<Rightarrow> bool"
  for rpc abi portal parent
where
  linked_base: "linked_history rpc abi portal parent [] parent"
| linked_block: "linked_history rpc abi portal parent ev \<lparr>bn_number = bn_number block - 1, bn_hash = rpc_parent_hash rpc h\<rparr>
    \<Longrightarrow> bn_number block \<noteq> 0 \<Longrightarrow> header_events rpc abi portal h block b
    \<Longrightarrow> linked_history rpc abi portal parent (ev @ [b]) block"

text \<open>What the checker relies on the tracker for: logs it hands out were authenticated at that block.\<close>

definition tracker_authenticates ::
  "'h tempo_rpc \<Rightarrow> address \<Rightarrow> (BlockNumHash \<Rightarrow> evidence_error + AuthenticatedPortalLogs option) \<Rightarrow> bool" where
  "tracker_authenticates rpc portal tracker \<longleftrightarrow>
     (\<forall>block e. tracker block = Inr (Some e) \<longrightarrow> apl_block e = block \<and>
        (\<exists>h receipts. block = \<lparr>bn_number = rpc_number rpc h, bn_hash = rpc_hash_slow rpc h\<rparr>
           \<and> apl_parent_hash e = rpc_parent_hash rpc h \<and> apl_timestamp_millis e = rpc_timestamp_millis rpc h
           \<and> rpc_calculate_receipt_root rpc receipts = rpc_receipts_root rpc h
           \<and> apl_logs e = filter (\<lambda>l. log_address l = portal) (concat (map rc_logs (filter rc_status receipts)))))"

lemma try_fold_extract_filter:
  "try_fold (extract_log abi portal block) (filter (\<lambda>l. log_address l = portal) logs) events
     = try_fold (extract_log abi portal block) logs events"
  by (induction logs arbitrary: events) (auto simp: extract_log_def rbind_def split: sum.splits)

lemma try_fold_extract_receipts:
  "try_fold (extract_l1_receipt abi portal block) receipts events
     = try_fold (extract_log abi portal block) (concat (map rc_logs (filter rc_status receipts))) events"
  by (induction receipts arbitrary: events)
    (auto simp: extract_l1_receipt_def try_fold_append rbind_def split: sum.splits)

definition block_step ::
  "'h tempo_rpc \<Rightarrow> portal_abi \<Rightarrow> address \<Rightarrow> BlockNumHash \<Rightarrow> BlockNumHash \<Rightarrow> L1BlockEvidence \<Rightarrow> bool" where
  "block_step rpc abi portal cursor previous ev \<longleftrightarrow>
     (\<exists>h b. ev = [b] \<and> header_events rpc abi portal h cursor b
        \<and> previous = \<lparr>bn_number = bn_number cursor - 1, bn_hash = rpc_parent_hash rpc h\<rparr>)"

lemma fetch_block_step:
  fixes rpc :: "'h tempo_rpc"
  assumes "fetch_l1_block_at rpc abi portal cursor = Inr (previous, ev)"
  shows "block_step rpc abi portal cursor previous ev"
proof -
  from assms obtain header :: "'h rpc_header" and receipts events where
    cursor: "cursor = \<lparr>bn_number = rpc_number rpc (rh_header header), bn_hash = rpc_hash_slow rpc (rh_header header)\<rparr>"
    and prev: "previous = \<lparr>bn_number = bn_number cursor - 1, bn_hash = rpc_parent_hash rpc (rh_header header)\<rparr>"
    and root: "rpc_calculate_receipt_root rpc receipts = rpc_receipts_root rpc (rh_header header)"
    and run: "try_fold (extract_l1_receipt abi portal (bn_number cursor)) receipts [] = Inr events"
    and ev: "ev = [\<lparr>le_timestamp_millis = rpc_timestamp_millis rpc (rh_header header), le_events = events\<rparr>]"
    by (auto simp: fetch_l1_block_at_def Let_def validate_rpc_header_def verify_receipts_against_header_def
        collect_l1_block_evidence_def)
  then show ?thesis
    unfolding block_step_def header_events_def by (intro exI [of _ "rh_header header"] exI conjI) (rule ev, simp_all)
qed

lemma tracked_block_step:
  assumes tracker: "tracker_authenticates rpc portal tracker" "tracker cursor = Inr (Some e)"
    and previous: "previous = \<lparr>bn_number = bn_number cursor - 1, bn_hash = apl_parent_hash e\<rparr>"
    and run: "collect_tracked_l1_block_evidence abi portal previous e = Inr ev"
  shows "block_step rpc abi portal cursor previous ev"
proof -
  obtain h receipts where h: "cursor = \<lparr>bn_number = rpc_number rpc h, bn_hash = rpc_hash_slow rpc h\<rparr>"
    and e: "apl_block e = cursor" "apl_parent_hash e = rpc_parent_hash rpc h"
      "apl_timestamp_millis e = rpc_timestamp_millis rpc h"
    and root: "rpc_calculate_receipt_root rpc receipts = rpc_receipts_root rpc h"
    and logs: "apl_logs e = filter (\<lambda>l. log_address l = portal) (concat (map rc_logs (filter rc_status receipts)))"
    using tracker unfolding tracker_authenticates_def by blast
  obtain events where fold: "try_fold (extract_log abi portal (bn_number cursor)) (apl_logs e) [] = Inr events"
    and ev: "ev = [\<lparr>le_timestamp_millis = apl_timestamp_millis e, le_events = events\<rparr>]"
    using run e(1) by (auto simp: collect_tracked_l1_block_evidence_def)
  have "try_fold (extract_l1_receipt abi portal (bn_number cursor)) receipts [] = Inr events"
    using fold unfolding logs try_fold_extract_filter try_fold_extract_receipts .
  then have "header_events rpc abi portal h cursor \<lparr>le_timestamp_millis = apl_timestamp_millis e, le_events = events\<rparr>"
    using h e root by (auto simp: header_events_def)
  then show ?thesis unfolding block_step_def using ev previous e(2) by auto
qed

lemma collect_l1_block_at_step:
  assumes "tracker_authenticates rpc portal tracker"
    and "collect_l1_block_at rpc tracker abi portal cursor = Inr (previous, ev)"
  shows "block_step rpc abi portal cursor previous ev"
proof -
  obtain tracked where t: "tracker cursor = Inr tracked"
    using assms(2) by (auto simp: collect_l1_block_at_def)
  show ?thesis
  proof (cases tracked)
    case None
    then show ?thesis using fetch_block_step assms(2) t by (auto simp: collect_l1_block_at_def)
  next
    case (Some e)
    then show ?thesis using tracked_block_step [OF assms(1)] assms(2) t
      by (auto simp: collect_l1_block_at_def Let_def)
  qed
qed

lemma walk_back_linked:
  assumes "tracker_authenticates rpc portal tracker"
    and "walk_back rpc tracker abi portal parent cursor blocks = Inr (parent, blocks')"
  shows "\<exists>ev. linked_history rpc abi portal parent ev cursor \<and> concat (rev blocks') = ev @ concat (rev blocks)"
  using assms
proof (induction rpc tracker abi portal parent cursor blocks rule: walk_back.induct)
  case (1 rpc tracker abi portal parent cursor blocks)
  show ?case
  proof (cases "bn_number parent < bn_number cursor")
    case True
    then obtain previous evidence where step: "collect_l1_block_at rpc tracker abi portal cursor = Inr (previous, evidence)"
      and rest: "walk_back rpc tracker abi portal parent previous (blocks @ [evidence]) = Inr (parent, blocks')"
      using "1.prems"(2) by (subst (asm) walk_back.simps) (auto split: sum.splits)
    obtain ev where ev: "linked_history rpc abi portal parent ev previous"
      "concat (rev blocks') = ev @ concat (rev (blocks @ [evidence]))"
      using "1.IH" [OF True step refl "1.prems"(1) rest] by blast
    obtain h b where "evidence = [b]" "header_events rpc abi portal h cursor b"
      "previous = \<lparr>bn_number = bn_number cursor - 1, bn_hash = rpc_parent_hash rpc h\<rparr>"
      using collect_l1_block_at_step [OF "1.prems"(1) step] unfolding block_step_def by blast
    then have "linked_history rpc abi portal parent (ev @ [b]) cursor" "concat (rev blocks') = (ev @ [b]) @ concat (rev blocks)"
      using ev True by (auto intro!: linked_block [of _ _ _ _ ev cursor h b])
    then show ?thesis by blast
  next
    case False
    then have "cursor = parent" "blocks' = blocks"
      using "1.prems"(2) by (subst (asm) walk_back.simps, simp)+
    then show ?thesis using linked_base by force
  qed
qed

lemma linked_history_length:
  "linked_history rpc abi portal parent ev block \<Longrightarrow>
     unat (bn_number block) = unat (bn_number parent) + length ev"
proof (induction rule: linked_history.induct)
  case (linked_block ev block h b)
  moreover have "0 < unat (bn_number block)" using linked_block.hyps by (simp add: unat_gt_0)
  ultimately show ?case by (simp add: unat_minus_one)
qed simp


section \<open>A concrete range\<close>

text \<open>A chain whose headers are their numbers: block \<open>n\<close> has the hash \<open>n + 100\<close> and no receipts.\<close>

definition counting_rpc :: "u64 tempo_rpc" where
  "counting_rpc = \<lparr>rpc_get_block = (\<lambda>hash. Inr (Some \<lparr>rh_hash = hash, rh_header = ucast (hash - 100)\<rparr>)),
     rpc_get_receipts = (\<lambda>_. Inr (Some [])), rpc_hash_slow = (\<lambda>h. ucast h + 100), rpc_number = id,
     rpc_parent_hash = (\<lambda>h. ucast h + 99), rpc_receipts_root = (\<lambda>_. 0), rpc_logs_bloom = (\<lambda>_. 0),
     rpc_timestamp_millis = (\<lambda>h. 1000 * h), rpc_calculate_receipt_root = (\<lambda>_. 0), rpc_receipts_bloom = (\<lambda>_. 0)\<rparr>"

definition opaque_event :: "b256 \<Rightarrow> 'e \<Rightarrow> 'e sol_event" where
  "opaque_event topic e = \<lparr>SIGNATURE_HASH = topic, decode_log_validate = (\<lambda>_. Some e),
     encode_log_data = (\<lambda>_. \<lparr>ld_topics = [topic], ld_data = []\<rparr>)\<rparr>"

definition sample_portal_abi :: portal_abi where
  "sample_portal_abi = \<lparr>
     pa_DepositMade = opaque_event 1 \<lparr>dm_newCurrentDepositQueueHash = 0, dm_sender = 11, dm_token = 1, dm_netAmount = 7,
       dm_fee = 0, dm_keyIndex = 0, dm_ephemeralPubkeyX = 7, dm_ephemeralPubkeyYParity = 2, dm_ciphertext = [],
       dm_nonce = [], dm_tag = [], dm_tempoRefundRecipient = 13, dm_depositNumber = 1\<rparr>,
     pa_TokenEnabled = opaque_event 2 \<lparr>pte_token = 1, pte_name = [], pte_symbol = [], pte_currency = []\<rparr>,
     pa_WithdrawalProcessed = opaque_event 3 \<lparr>pwp_to = 0, pwp_senderTag = 0, pwp_token = 1, pwp_amount = 4,
       pwp_callbackSuccess = True\<rparr>,
     pa_WithdrawalBounceBack = opaque_event 4 \<lparr>pwb_newCurrentDepositQueueHash = 0, pwb_fallbackNonce = 1, pwb_token = 1,
       pwb_amount = 4, pwb_depositNumber = 2\<rparr>,
     pa_DepositBounceBack = opaque_event 5 \<lparr>pdb_tempoRefundRecipient = 13, pdb_token = 1, pdb_amount = 6, pdb_bouncebackFee = 1\<rparr>,
     pa_DepositBounceBackPending = opaque_event 6 \<lparr>pdb_tempoRefundRecipient = 13, pdb_token = 1, pdb_amount = 6,
       pdb_bouncebackFee = 1\<rparr>,
     pa_RefundClaimed = opaque_event 7 \<lparr>prc_recipient = 13, prc_token = 1, prc_amount = 6\<rparr>,
     pa_SequencerEncryptionKeyUpdated = opaque_event 8 \<lparr>sku_x = 3, sku_yParity = 2, sku_pubkey = 9, sku_keyIndex = 0,
       sku_activationBlock = 5\<rparr>,
     pa_LeaderUpdated = opaque_event 9 \<lparr>lu_previousLeader = 0, lu_newLeader = 5, lu_epoch = 1, lu_activationTempoBlock = 5\<rparr>,
     pa_PortalPaused = opaque_event 10 1, pa_PortalResumed = opaque_event 11 1, pa_other = (\<lambda>_. opaque_event 12 [])\<rparr>"


end
