(* ===== verification/Checker_Evidence.thy ===== *)
theory Checker_Evidence
  imports Accounting L1_Evidence Tempo_State
begin

text \<open>
  How the checker turns the canonical receipts of a Zone block into accounting effects: decoding
  and authenticating the logs (\<open>crates/checker/src/l2\<close>) and deriving the effects
  (\<open>crates/checker/src/accounting/effects.rs\<close>). The ABI codecs and the address test of the token
  precompile are parameters; reading accounting state from the node's database is not modelled.
\<close>

section \<open>Evidence\<close>

record L1Anchor =
  la_tempo_block_hash :: b256
  la_tempo_block_number :: u64

record TokenTransfer =
  tt_token :: address
  tt_from :: address
  tt_to :: address
  tt_amount :: u256

datatype DepositResult = DepositResultProcessed address | DepositResultFailed

datatype WithdrawalBounceBackStatus = BounceBackProcessed | BounceBackPending

datatype WithdrawalOrigin = UserOrigin address b256 | DepositBounceBackOrigin

datatype L2BridgeAction =
    DepositAction address u256 DepositResult
  | WithdrawalBounceBackAction address address u256 WithdrawalBounceBackStatus
  | RefundClaimedAction address address u256
  | WithdrawalRequestedAction u64 WithdrawalOrigin address u256 u256

datatype ReceiptEvent =
    AnchorEvent L1Anchor
  | ActionEvent L2BridgeAction
  | TransferEvent TokenTransfer
  | TokenBurnEvent address address u256

record L2BlockEvidence =
  ev_anchor :: "L1Anchor option"
  ev_transfers :: "TokenTransfer list"
  ev_actions :: "L2BridgeAction list"

section \<open>Reconciling mints\<close>

record Mint =
  mint_token :: address
  mint_recipient :: address
  mint_amount :: u256

fun from_transfer :: "ReceiptEvent \<Rightarrow> Mint option" where
  "from_transfer (TransferEvent transfer) =
     (if tt_from transfer = 0
      then Some \<lparr>mint_token = tt_token transfer, mint_recipient = tt_to transfer, mint_amount = tt_amount transfer\<rparr>
      else None)"
| "from_transfer _ = None"

fun matches_forward :: "Mint \<Rightarrow> ReceiptEvent \<Rightarrow> bool" where
  "matches_forward m (TransferEvent transfer) \<longleftrightarrow>
     tt_token transfer = mint_token m \<and> tt_from transfer = mint_recipient m \<and> tt_to transfer \<noteq> 0
     \<and> tt_to transfer \<noteq> mint_recipient m \<and> tt_amount transfer = mint_amount m"
| "matches_forward m _ \<longleftrightarrow> False"

fun from_outcome :: "ReceiptEvent \<Rightarrow> Mint option" where
  "from_outcome (ActionEvent (DepositAction token amount (DepositResultProcessed recipient))) =
     Some \<lparr>mint_token = token, mint_recipient = recipient, mint_amount = amount\<rparr>"
| "from_outcome (ActionEvent (WithdrawalBounceBackAction recipient token amount BounceBackProcessed)) =
     Some \<lparr>mint_token = token, mint_recipient = recipient, mint_amount = amount\<rparr>"
| "from_outcome (ActionEvent (RefundClaimedAction recipient token amount)) =
     Some \<lparr>mint_token = token, mint_recipient = recipient, mint_amount = amount\<rparr>"
| "from_outcome _ = None"

text \<open>
  The \<open>while\<close> loop over \<open>index\<close>, as recursion on the events not yet visited: after a mint an
  optional forward is skipped and the next event must be the matching outcome.
\<close>

definition skip_forward :: "Mint \<Rightarrow> ReceiptEvent list \<Rightarrow> ReceiptEvent list" where
  "skip_forward observed rest =
     (case rest of [] \<Rightarrow> [] | e # es \<Rightarrow> if matches_forward observed e then es else rest)"

lemma length_skip_forward: "length (skip_forward m es) \<le> length es"
  by (auto simp: skip_forward_def split: list.splits)

function authenticate_receipt_mints :: "b256 \<Rightarrow> ReceiptEvent list \<Rightarrow> evidence_error + unit" where
  "authenticate_receipt_mints tx [] = Inr ()"
| "authenticate_receipt_mints tx (event # rest) =
     (case from_transfer event of
        None \<Rightarrow>
          if from_outcome event \<noteq> None then Inl (OutcomeWithoutMint tx)
          else authenticate_receipt_mints tx rest
      | Some observed \<Rightarrow>
          (case skip_forward observed rest of
             [] \<Rightarrow> Inl (UnexplainedMint tx)
           | outcome # rest' \<Rightarrow>
               (case from_outcome outcome of
                  None \<Rightarrow> Inl (UnexplainedMint tx)
                | Some expected \<Rightarrow>
                    if observed = expected then authenticate_receipt_mints tx rest'
                    else Inl (MintMismatch tx))))"
  by pat_completeness auto

termination
proof (relation "measure (length \<circ> snd)")
  fix tx :: b256 and event rest observed outcome rest' expected
  assume "skip_forward observed rest = outcome # rest'"
  then show "((tx, rest'), (tx, event # rest)) \<in> measure (length \<circ> snd)"
    using length_skip_forward [of observed rest] by simp
qed auto

section \<open>Reconciling withdrawal burns\<close>

record WithdrawalBurn =
  wbn_end_index :: nat
  wbn_token :: address
  wbn_owner :: address
  wbn_amount :: u256

fun from_events :: "nat \<Rightarrow> ReceiptEvent list \<Rightarrow> WithdrawalBurn option" where
  "from_events end_index [TransferEvent debit, TransferEvent transfer, TokenBurnEvent burn_token burn_from burn_amount] =
     (if tt_token debit = tt_token transfer \<and> tt_token debit = burn_token
         \<and> tt_to debit = ZONE_OUTBOX_ADDRESS \<and> tt_from transfer = ZONE_OUTBOX_ADDRESS
         \<and> tt_to transfer = 0 \<and> burn_from = ZONE_OUTBOX_ADDRESS
         \<and> tt_amount debit = tt_amount transfer \<and> tt_amount debit = burn_amount
      then Some \<lparr>wbn_end_index = end_index, wbn_token = tt_token debit, wbn_owner = tt_from debit,
                 wbn_amount = tt_amount debit\<rparr>
      else None)"
| "from_events end_index _ = None"

text \<open>\<open>windows(3).enumerate()\<close>: the start index and the three events from it.\<close>

definition windows3 :: "'a list \<Rightarrow> (nat \<times> 'a list) list" where
  "windows3 xs = map (\<lambda>i. (i, take 3 (drop i xs))) [0..<length xs - 2]"

definition withdrawal_burns :: "ReceiptEvent list \<Rightarrow> WithdrawalBurn list" where
  "withdrawal_burns receipt =
     List.map_filter (\<lambda>(start, events). from_events (start + length events) events) (windows3 receipt)"

definition matching_burn ::
  "WithdrawalBurn list \<Rightarrow> bool list \<Rightarrow> nat \<Rightarrow> address \<Rightarrow> address \<Rightarrow> u256 \<Rightarrow> nat option" where
  "matching_burn burns consumed request_index token owner amount =
     find (\<lambda>i. \<not> consumed ! i \<and> wbn_end_index (burns ! i) \<le> request_index \<and> wbn_token (burns ! i) = token
            \<and> wbn_owner (burns ! i) = owner \<and> wbn_amount (burns ! i) = amount) [0..<length burns]"

definition matching_fee_burn ::
  "WithdrawalBurn list \<Rightarrow> bool list \<Rightarrow> nat \<Rightarrow> address \<Rightarrow> u256 \<Rightarrow> nat option \<Rightarrow> nat option" where
  "matching_fee_burn burns consumed request_index token amount excluded =
     find (\<lambda>i. Some i \<noteq> excluded \<and> \<not> consumed ! i \<and> wbn_end_index (burns ! i) \<le> request_index
            \<and> wbn_token (burns ! i) = token \<and> wbn_amount (burns ! i) = amount \<and> wbn_owner (burns ! i) \<noteq> 0)
       [0..<length burns]"

fun consume_request ::
  "b256 \<Rightarrow> WithdrawalBurn list \<Rightarrow> nat \<times> ReceiptEvent \<Rightarrow> bool list \<Rightarrow> evidence_error + bool list" where
  "consume_request tx burns
       (request_index, ActionEvent (WithdrawalRequestedAction _ (UserOrigin sender _) token amount fee)) consumed =
     (let total = amount + fee in
      case matching_burn burns consumed request_index token sender total of
        Some index \<Rightarrow> Inr (consumed[index := True])
      | None \<Rightarrow>
          (let principal_burn = matching_burn burns consumed request_index token sender amount;
               fee_burn = (if fee = 0 then None
                           else matching_fee_burn burns consumed request_index token fee principal_burn)
           in case (principal_burn, fee_burn) of
                (Some p, Some f) \<Rightarrow> Inr (consumed[p := True, f := True])
              | _ \<Rightarrow> Inl (NoMatchingBurn tx total token)))"
| "consume_request tx burns _ consumed = Inr consumed"

definition authenticate_receipt_withdrawals :: "b256 \<Rightarrow> ReceiptEvent list \<Rightarrow> evidence_error + unit" where
  "authenticate_receipt_withdrawals tx receipt =
     (let burns = withdrawal_burns receipt in
      rbind (try_fold (consume_request tx burns) (List.enumerate 0 receipt) (replicate (length burns) False))
        (\<lambda>consumed. check (\<forall>i < length burns. consumed ! i) (UnexplainedBurn tx)))"

section \<open>Decoding Zone logs\<close>

text \<open>The events of the inbox, the outbox and the token precompile that the checker reads.\<close>

record TempoAdvanced_0 =
  ta0_tempoBlockHash :: b256
  ta0_tempoBlockNumber :: u64
  ta0_depositsProcessed :: u256
  ta0_newProcessedDepositQueueHash :: b256
  ta0_lastProcessedDepositNumber :: u64

record TempoAdvanced_1 = TempoAdvanced_0 +
  ta1_lastProcessedEnabledTokenCount :: u64

record InboxDepositProcessed =
  idp_depositHash :: b256
  idp_sender :: address
  idp_to :: address
  idp_token :: address
  idp_amount :: u128
  idp_memo :: b256

record InboxDepositFailed =
  idf_depositHash :: b256
  idf_sender :: address
  idf_token :: address
  idf_amount :: u128

text \<open>\<open>WithdrawalBounceBackProcessed\<close> and \<open>WithdrawalBounceBackPending\<close> have the same fields.\<close>

record InboxWithdrawalBounceBack =
  iwb_zoneFallbackRecipient :: address
  iwb_token :: address
  iwb_amount :: u128

record InboxRefundClaimed =
  irc_recipient :: address
  irc_token :: address
  irc_amount :: u128

record TokenTransferLog =
  ttl_from :: address
  ttl_to :: address
  ttl_amount :: u256

record TokenBurnLog =
  tbl_from :: address
  tbl_amount :: u256

record zone_abi =
  za_TempoAdvanced_0 :: "TempoAdvanced_0 sol_event"
  za_TempoAdvanced_1 :: "TempoAdvanced_1 sol_event"
  za_DepositProcessed :: "InboxDepositProcessed sol_event"
  za_DepositFailed :: "InboxDepositFailed sol_event"
  za_WithdrawalBounceBackProcessed :: "InboxWithdrawalBounceBack sol_event"
  za_WithdrawalBounceBackPending :: "InboxWithdrawalBounceBack sol_event"
  za_RefundClaimed :: "InboxRefundClaimed sol_event"
  za_TokenEnabled :: "bytes sol_event"
  za_DepositRejected :: "bytes sol_event"
  za_WithdrawalRequested :: "WithdrawalRequested sol_event"
  za_BatchFinalized :: "bytes sol_event"
  za_TempoGasRateUpdated :: "bytes sol_event"
  za_MaxWithdrawalsPerBlockUpdated :: "bytes sol_event"
  za_Transfer :: "TokenTransferLog sol_event"
  za_Burn :: "TokenBurnLog sol_event"
  za_is_tip20 :: "address \<Rightarrow> bool"
  za_keccak :: keccak
  za_TempoBlockFinalized :: "(b256 \<times> u64 \<times> b256) sol_event"
  za_advanceTempoHeaders_SELECTOR :: bytes
  za_decode_headers_call :: "bytes \<Rightarrow> bytes list option"

definition decode_inbox :: "zone_abi \<Rightarrow> chain_log \<Rightarrow> u64 \<Rightarrow> evidence_error + ReceiptEvent option" where
  "decode_inbox abi log block =
     rbind (ok_or (topic0 log) (TopiclessLog ''ZoneInbox'' block)) (\<lambda>topic.
     if topic = SIGNATURE_HASH (za_TempoAdvanced_0 abi) then
       rbind (decode_event (za_TempoAdvanced_0 abi) log ''TempoAdvanced_0'' block) (\<lambda>event.
         Inr (Some (AnchorEvent \<lparr>la_tempo_block_hash = ta0_tempoBlockHash event,
                                 la_tempo_block_number = ta0_tempoBlockNumber event\<rparr>)))
     else if topic = SIGNATURE_HASH (za_TempoAdvanced_1 abi) then
       rbind (decode_event (za_TempoAdvanced_1 abi) log ''TempoAdvanced_1'' block) (\<lambda>event.
         Inr (Some (AnchorEvent \<lparr>la_tempo_block_hash = ta0_tempoBlockHash event,
                                 la_tempo_block_number = ta0_tempoBlockNumber event\<rparr>)))
     else if topic = SIGNATURE_HASH (za_DepositProcessed abi) then
       rbind (decode_event (za_DepositProcessed abi) log ''DepositProcessed'' block) (\<lambda>event.
         Inr (Some (ActionEvent (DepositAction (idp_token event) (ucast (idp_amount event))
                                   (DepositResultProcessed (idp_to event))))))
     else if topic = SIGNATURE_HASH (za_DepositFailed abi) then
       rbind (decode_event (za_DepositFailed abi) log ''DepositFailed'' block) (\<lambda>event.
         Inr (Some (ActionEvent (DepositAction (idf_token event) (ucast (idf_amount event)) DepositResultFailed))))
     else if topic = SIGNATURE_HASH (za_WithdrawalBounceBackProcessed abi) then
       rbind (decode_event (za_WithdrawalBounceBackProcessed abi) log ''WithdrawalBounceBackProcessed'' block) (\<lambda>event.
         Inr (Some (ActionEvent (WithdrawalBounceBackAction (iwb_zoneFallbackRecipient event) (iwb_token event)
                                   (ucast (iwb_amount event)) BounceBackProcessed))))
     else if topic = SIGNATURE_HASH (za_WithdrawalBounceBackPending abi) then
       rbind (decode_event (za_WithdrawalBounceBackPending abi) log ''WithdrawalBounceBackPending'' block) (\<lambda>event.
         Inr (Some (ActionEvent (WithdrawalBounceBackAction (iwb_zoneFallbackRecipient event) (iwb_token event)
                                   (ucast (iwb_amount event)) BounceBackPending))))
     else if topic = SIGNATURE_HASH (za_RefundClaimed abi) then
       rbind (decode_event (za_RefundClaimed abi) log ''RefundClaimed'' block) (\<lambda>event.
         Inr (Some (ActionEvent (RefundClaimedAction (irc_recipient event) (irc_token event)
                                   (ucast (irc_amount event))))))
     else if topic = SIGNATURE_HASH (za_TokenEnabled abi) then
       rbind (decode_event (za_TokenEnabled abi) log ''TokenEnabled'' block) (\<lambda>_. Inr None)
     else if topic = SIGNATURE_HASH (za_DepositRejected abi) then
       Inl (UnsupportedEvent ''DepositRejected'' topic block)
     else Inl (UnsupportedEvent ''ZoneInbox'' topic block))"

definition decode_token_event :: "zone_abi \<Rightarrow> chain_log \<Rightarrow> u64 \<Rightarrow> evidence_error + ReceiptEvent option" where
  "decode_token_event abi log block =
     (if \<not> za_is_tip20 abi (log_address log) then Inr None
      else if topic0 log = Some (SIGNATURE_HASH (za_Transfer abi)) then
        rbind (decode_event (za_Transfer abi) log ''Transfer'' block) (\<lambda>event.
          Inr (Some (TransferEvent \<lparr>tt_token = log_address log, tt_from = ttl_from event, tt_to = ttl_to event,
                                    tt_amount = ttl_amount event\<rparr>)))
      else if topic0 log = Some (SIGNATURE_HASH (za_Burn abi)) then
        rbind (decode_event (za_Burn abi) log ''Burn'' block) (\<lambda>event.
          Inr (Some (TokenBurnEvent (log_address log) (tbl_from event) (tbl_amount event))))
      else Inr None)"

definition withdrawal_origin ::
  "zone_abi \<Rightarrow> WithdrawalRequested \<Rightarrow> b256 \<Rightarrow> u64 \<Rightarrow> evidence_error + WithdrawalOrigin" where
  "withdrawal_origin abi event transaction_hash block =
     (case (wr_sender event = 0, wr_fallbackNonce event = 0) of
        (True, True) \<Rightarrow> Inr DepositBounceBackOrigin
      | (False, False) \<Rightarrow> Inr (UserOrigin (wr_sender event)
            (sender_tag (za_keccak abi) (wr_sender event) transaction_hash (wr_fallbackNonce event)))
      | _ \<Rightarrow> Inl (InvalidWithdrawalOrigin block (wr_sender event) (wr_fallbackNonce event)))"

definition decode_outbox ::
  "zone_abi \<Rightarrow> chain_log \<Rightarrow> u64 \<Rightarrow> b256 \<Rightarrow> evidence_error + ReceiptEvent option" where
  "decode_outbox abi log block transaction_hash =
     rbind (ok_or (topic0 log) (TopiclessLog ''ZoneOutbox'' block)) (\<lambda>topic.
     if topic = SIGNATURE_HASH (za_WithdrawalRequested abi) then
       rbind (decode_event (za_WithdrawalRequested abi) log ''WithdrawalRequested'' block) (\<lambda>event.
       rbind (withdrawal_origin abi event transaction_hash block) (\<lambda>origin.
         Inr (Some (ActionEvent (WithdrawalRequestedAction (wr_withdrawalIndex event) origin (wr_token event)
                                   (ucast (wr_amount event)) (ucast (wr_fee event)))))))
     else if topic = SIGNATURE_HASH (za_BatchFinalized abi) then
       rbind (decode_event (za_BatchFinalized abi) log ''BatchFinalized'' block) (\<lambda>_. Inr None)
     else if topic = SIGNATURE_HASH (za_TempoGasRateUpdated abi) then
       rbind (decode_event (za_TempoGasRateUpdated abi) log ''TempoGasRateUpdated'' block) (\<lambda>_. Inr None)
     else if topic = SIGNATURE_HASH (za_MaxWithdrawalsPerBlockUpdated abi) then
       rbind (decode_event (za_MaxWithdrawalsPerBlockUpdated abi) log ''MaxWithdrawalsPerBlockUpdated'' block)
         (\<lambda>_. Inr None)
     else Inl (UnsupportedEvent ''ZoneOutbox'' topic block))"

section \<open>Collecting a Zone block\<close>

record zone_transaction =
  tx_hash :: b256
  tx_to :: "address option"
  tx_input :: bytes

definition decode_zone_log ::
  "zone_abi \<Rightarrow> bool \<Rightarrow> b256 \<Rightarrow> u64 \<Rightarrow> chain_log \<Rightarrow> evidence_error + ReceiptEvent option" where
  "decode_zone_log abi successful transaction_hash block log =
     (if successful then
        if log_address log = ZONE_INBOX_ADDRESS then decode_inbox abi log block
        else if log_address log = ZONE_OUTBOX_ADDRESS then decode_outbox abi log block transaction_hash
        else decode_token_event abi log block
      else decode_token_event abi log block)"

definition decode_zone_logs ::
  "zone_abi \<Rightarrow> bool \<Rightarrow> b256 \<Rightarrow> u64 \<Rightarrow> chain_log list \<Rightarrow> evidence_error + ReceiptEvent list" where
  "decode_zone_logs abi successful transaction_hash block logs =
     rbind (try_map (decode_zone_log abi successful transaction_hash block) logs) (\<lambda>events.
     Inr (List.map_filter id events))"

fun as_transfer :: "ReceiptEvent \<Rightarrow> TokenTransfer option" where
  "as_transfer (TransferEvent t) = Some t"
| "as_transfer _ = None"

fun collect_event :: "u64 \<Rightarrow> ReceiptEvent \<Rightarrow> L2BlockEvidence \<Rightarrow> evidence_error + L2BlockEvidence" where
  "collect_event block (AnchorEvent a) ev =
     rbind (check (ev_anchor ev = None) (DuplicateTempoAdvanced block)) (\<lambda>_. Inr (ev\<lparr>ev_anchor := Some a\<rparr>))"
| "collect_event block (ActionEvent a) ev = Inr (ev\<lparr>ev_actions := ev_actions ev @ [a]\<rparr>)"
| "collect_event block (TransferEvent t) ev = Inr (ev\<lparr>ev_transfers := ev_transfers ev @ [t]\<rparr>)"
| "collect_event block (TokenBurnEvent _ _ _) ev = Inr ev"

definition extract_receipt ::
  "zone_abi \<Rightarrow> u64 \<Rightarrow> zone_transaction \<times> zone_receipt \<Rightarrow> L2BlockEvidence \<Rightarrow> evidence_error + L2BlockEvidence" where
  "extract_receipt abi block tr ev =
     (let transaction_hash = tx_hash (fst tr); successful = rc_status (snd tr) in
      rbind (decode_zone_logs abi successful transaction_hash block (rc_logs (snd tr))) (\<lambda>events.
      if \<not> successful then Inr (ev\<lparr>ev_transfers := ev_transfers ev @ List.map_filter as_transfer events\<rparr>)
      else
        rbind (authenticate_receipt_mints transaction_hash events) (\<lambda>_.
        rbind (authenticate_receipt_withdrawals transaction_hash events) (\<lambda>_.
        try_fold (collect_event block) events ev))))"

definition collector_finish :: "u64 \<Rightarrow> L2BlockEvidence \<Rightarrow> evidence_error + L2BlockEvidence" where
  "collector_finish block ev =
     rbind (ok_or (ev_anchor ev) (MissingTempoAdvanced block)) (\<lambda>a. Inr (ev\<lparr>ev_anchor := Some a\<rparr>))"

definition is_checkpoint_block :: "zone_abi \<Rightarrow> zone_transaction list \<Rightarrow> bool" where
  "is_checkpoint_block abi transactions =
     (case transactions of
        [] \<Rightarrow> False
      | tx # _ \<Rightarrow> tx_to tx = Some ZONE_INBOX_ADDRESS
          \<and> take (length (za_advanceTempoHeaders_SELECTOR abi)) (tx_input tx) = za_advanceTempoHeaders_SELECTOR abi)"

definition collect_checkpoint_block ::
  "zone_abi \<Rightarrow> zone_transaction list \<Rightarrow> zone_receipt list \<Rightarrow> u64 \<Rightarrow> evidence_error + L2BlockEvidence" where
  "collect_checkpoint_block abi transactions receipts block =
     rbind (check (length transactions = 1) (CheckpointShape ''one transaction'')) (\<lambda>_.
     rbind (ok_or (za_decode_headers_call abi (tx_input (hd transactions))) (CheckpointShape ''calldata''))
       (\<lambda>headers.
     rbind (check (headers \<noteq> [] \<and> length headers \<le> MAX_TEMPO_HEADERS_PER_ZONE_BLOCK) (CheckpointShape ''header count'')) (\<lambda>_.
     rbind (check (rc_status (hd receipts)) (CheckpointShape ''failed'')) (\<lambda>_.
     case rc_logs (hd receipts) of
       [log] \<Rightarrow>
         rbind (check (log_address log = TEMPO_STATE_ADDRESS
                  \<and> topic0 log = Some (SIGNATURE_HASH (za_TempoBlockFinalized abi)))
                (CheckpointShape ''event'')) (\<lambda>_.
         rbind (decode_event (za_TempoBlockFinalized abi) log ''TempoBlockFinalized'' block) (\<lambda>event.
         rbind (check (fst event = za_keccak abi (last headers)) (CheckpointShape ''header hash'')) (\<lambda>_.
         Inr \<lparr>ev_anchor = None, ev_transfers = [], ev_actions = []\<rparr>)))
     | _ \<Rightarrow> Inl (CheckpointShape ''logs'')))))"

definition collect_l2_block_evidence ::
  "zone_abi \<Rightarrow> zone_transaction list \<Rightarrow> zone_receipt list \<Rightarrow> u64 \<Rightarrow> evidence_error + L2BlockEvidence" where
  "collect_l2_block_evidence abi transactions receipts block =
     rbind (check (length transactions = length receipts)
       (ReceiptCountMismatch block (length transactions) (length receipts))) (\<lambda>_.
     if is_checkpoint_block abi transactions then collect_checkpoint_block abi transactions receipts block
     else
       rbind (try_fold (extract_receipt abi block) (zip transactions receipts)
                \<lparr>ev_anchor = None, ev_transfers = [], ev_actions = []\<rparr>) (collector_finish block))"

text \<open>A \<open>BTreeSet\<close> of accounts is a map to the unit value.\<close>

definition accounting_candidates :: "L2BlockEvidence \<Rightarrow> (address, (address, unit) btree) btree" where
  "accounting_candidates ev =
     fold (\<lambda>transfer candidates.
       let accounts = unwrap_or [] (bt_get candidates (tt_token transfer));
           accounts = (if tt_from transfer \<noteq> 0 then bt_insert (tt_from transfer) () accounts else accounts);
           accounts = (if tt_to transfer \<noteq> 0 then bt_insert (tt_to transfer) () accounts else accounts)
       in bt_insert (tt_token transfer) accounts candidates) (ev_transfers ev) []"

section \<open>Effects\<close>

definition transfer_effects :: "TokenTransfer \<Rightarrow> Effect list" where
  "transfer_effects transfer =
     (if tt_amount transfer = 0 \<or> tt_from transfer = tt_to transfer then []
      else (if tt_from transfer \<noteq> 0
            then [AccountEffect (AccountKey (tt_token transfer) (tt_from transfer)) (Debit (tt_amount transfer))] else [])
         @ (if tt_to transfer \<noteq> 0
            then [AccountEffect (AccountKey (tt_token transfer) (tt_to transfer)) (Credit (tt_amount transfer))] else []))"

definition from_transfers :: "TokenTransfer list \<Rightarrow> Effect list" where
  "from_transfers transfers = concat (map transfer_effects transfers)"

fun tempo_event_effects :: "L1PortalEvent \<Rightarrow> Effect list" where
  "tempo_event_effects (TokenEnabledEv token) = [EnableToken token]"
| "tempo_event_effects (DepositMadeEv token net_amount) =
     [LiabilityEffect token DepositLiability (Credit (ucast net_amount))]"
| "tempo_event_effects (WithdrawalProcessedEv _ token amount callback_success) =
     (if callback_success then [LiabilityEffect token WithdrawalLiability (Debit (ucast amount))] else [])"
| "tempo_event_effects (DepositBounceBackEv token amount bounceback_fee) =
     [LiabilityEffect token DepositLiability (Debit (ucast amount + ucast bounceback_fee))]"
| "tempo_event_effects (DepositBounceBackPendingEv token amount bounceback_fee) =
     [LiabilityEffect token DepositLiability (Debit (ucast amount + ucast bounceback_fee)),
      LiabilityEffect token TempoRefund (Credit (ucast amount))]"
| "tempo_event_effects (RefundClaimedEv token amount) =
     (if amount = 0 then [] else [LiabilityEffect token TempoRefund (Debit (ucast amount))])"
| "tempo_event_effects (WithdrawalBounceBackEv token amount) =
     [LiabilityEffect token WithdrawalLiability (Debit (ucast amount)),
      LiabilityEffect token ZoneRefund (Credit (ucast amount))]"

definition from_tempo_events :: "L1PortalEvent list \<Rightarrow> Effect list" where
  "from_tempo_events events = concat (map tempo_event_effects events)"

definition from_tempo :: "L1BlockEvidence \<Rightarrow> Effect list" where
  "from_tempo block = from_tempo_events (portal_events block)"

fun zone_action_effects :: "L2BridgeAction \<Rightarrow> Effect list" where
  "zone_action_effects (DepositAction token amount (DepositResultProcessed _)) =
     [LiabilityEffect token DepositLiability (Debit amount)]"
| "zone_action_effects (WithdrawalRequestedAction _ (UserOrigin _ _) token amount _) =
     [LiabilityEffect token WithdrawalLiability (Credit amount)]"
| "zone_action_effects (WithdrawalBounceBackAction _ token amount BounceBackProcessed) =
     [LiabilityEffect token ZoneRefund (Debit amount)]"
| "zone_action_effects (RefundClaimedAction _ token amount) = [LiabilityEffect token ZoneRefund (Debit amount)]"
| "zone_action_effects _ = []"

definition from_zone_actions :: "L2BridgeAction list \<Rightarrow> Effect list" where
  "from_zone_actions actions = concat (map zone_action_effects actions)"

definition from_zone :: "L2BlockEvidence \<Rightarrow> Effect list" where
  "from_zone block = from_transfers (ev_transfers block) @ from_zone_actions (ev_actions block)"

section \<open>What the effects do to the liabilities\<close>

fun known_liability :: "TokenState option \<Rightarrow> nat" where
  "known_liability None = 0"
| "known_liability (Some ts) = liability_sum ts"

definition token_liability :: "AccountingState \<Rightarrow> address \<Rightarrow> nat" where
  "token_liability s t = known_liability (bt_get (as_tokens s) t)"

fun change_value :: "BalanceChange \<Rightarrow> int" where
  "change_value (Credit a) = int (unat a)"
| "change_value (Debit a) = - int (unat a)"

fun effect_value :: "Effect \<Rightarrow> address \<Rightarrow> int" where
  "effect_value (EnableToken _) t = 0"
| "effect_value (AccountEffect key change) t = (if ak_token key = t then change_value change else 0)"
| "effect_value (LiabilityEffect token _ change) t = (if token = t then change_value change else 0)"

definition effects_value :: "Effect list \<Rightarrow> address \<Rightarrow> int" where
  "effects_value effects t = sum_list (map (\<lambda>e. effect_value e t) effects)"

lemma effects_value_simps [simp]:
  "effects_value [] t = 0"
  "effects_value (e # es) t = effect_value e t + effects_value es t"
  "effects_value (es @ fs) t = effects_value es t + effects_value fs t"
  by (simp_all add: effects_value_def)

lemma balance_change_value: "balance_change_apply ch v = Inr w \<Longrightarrow> int (unat w) = int (unat v) + change_value ch"
  using balance_change_apply_Inr [of ch v w] by (cases ch) (auto dest!: arg_cong [where f = int])

lemma liability_sum_lk_set:
  "int (liability_sum (lk_set kind v ts)) = int (liability_sum ts) + int (unat v) - int (unat (lk_balance kind ts))"
  by (cases kind) (auto simp: liability_sum_def)

lemma ledger_step_liability:
  assumes "ledger_step e l = Inr l'"
  shows "int (known_liability (lv_token l' t)) = int (known_liability (lv_token l t)) + effect_value e t"
proof (cases e)
  case (EnableToken t')
  then show ?thesis using assms by (auto simp: liability_sum_def TokenState_default_def split: if_splits)
next
  case (AccountEffect key ch)
  then obtain ts total v where ts: "lv_token l (ak_token key) = Some ts"
    and total: "balance_change_apply ch (account_total ts) = Inr total"
    and l': "l' = l\<lparr>lv_balance := (lv_balance l)(key := v),
            lv_token := (lv_token l)(ak_token key := Some (ts\<lparr>account_total := total\<rparr>))\<rparr>"
    using assms by auto
  then show ?thesis using AccountEffect balance_change_value [OF total] by (auto simp: liability_sum_def)
next
  case (LiabilityEffect t' kind ch)
  then obtain ts v where "lv_token l t' = Some ts" and v: "balance_change_apply ch (lk_balance kind ts) = Inr v"
    and "l' = l\<lparr>lv_token := (lv_token l)(t' := Some (lk_set kind v ts))\<rparr>"
    using assms by auto
  then show ?thesis using LiabilityEffect balance_change_value [OF v] by (auto simp: liability_sum_lk_set)
qed

lemma ledger_run_liability:
  "ledger_run effects l = Inr l' \<Longrightarrow>
     int (known_liability (lv_token l' t)) = int (known_liability (lv_token l t)) + effects_value effects t"
  unfolding ledger_run_def
proof (induction effects arbitrary: l)
  case (Cons e es)
  then obtain l1 where "ledger_step e l = Inr l1" "try_fold ledger_step es l1 = Inr l'" by auto
  then show ?case using Cons.IH [of l1] ledger_step_liability [of e l l1 t] by simp
qed simp

lemma apply_liability:
  assumes "accounting_ok s" and "state_apply effects s = (Inr rows, s')"
  shows "int (token_liability s' t) = int (token_liability s t) + effects_value effects t"
proof (cases "ledger_run effects (ledger_view_of s)")
  case (Inr l)
  then have "ledger_view_of s' = l"
    using state_apply_ledger [OF assms(1), of effects] assms(2) by auto
  then show ?thesis using ledger_run_liability [OF Inr, of t] by (auto simp: token_liability_def)
next
  case (Inl e)
  then show ?thesis using state_apply_ledger [OF assms(1), of effects] assms(2) by auto
qed

section \<open>Tempo blocks\<close>

text \<open>What an event moves into or out of the Portal's custody.\<close>

fun custody_value :: "L1PortalEvent \<Rightarrow> address \<Rightarrow> int" where
  "custody_value (DepositMadeEv token net_amount) t = (if token = t then int (unat net_amount) else 0)"
| "custody_value (WithdrawalProcessedEv _ token amount success) t =
     (if token = t \<and> success then - int (unat amount) else 0)"
| "custody_value (DepositBounceBackEv token amount fee) t =
     (if token = t then - int (unat amount) - int (unat fee) else 0)"
| "custody_value (DepositBounceBackPendingEv token amount fee) t = (if token = t then - int (unat fee) else 0)"
| "custody_value (RefundClaimedEv token amount) t = (if token = t then - int (unat amount) else 0)"
| "custody_value (WithdrawalBounceBackEv _ _) t = 0"
| "custody_value (TokenEnabledEv _) t = 0"

lemma unat_u128_u256 [simp]: "unat (ucast (a :: u128) :: u256) = unat a"
  by (rule unat_ucast_up) simp

lemma unat_u128_add:
  "unat (ucast (a :: u128) + ucast (b :: u128) :: u256) = unat a + unat b"
proof -
  have "unat a < 2 ^ 128" "unat b < 2 ^ 128"
    by (rule unsigned_less [THEN less_le_trans], simp)+
  then show ?thesis by (simp add: unat_word_ariths)
qed

lemma tempo_event_value: "effects_value (tempo_event_effects e) t = custody_value e t"
  using unat_u128_add by (cases e) (auto simp del: of_nat_unat simp: unat_u128_add)

lemma from_tempo_events_value:
  "effects_value (from_tempo_events events) t = (\<Sum>e\<leftarrow>events. custody_value e t)"
  by (induction events) (auto simp: from_tempo_events_def tempo_event_value)

text \<open>
  C27. Applying the events of authenticated Tempo blocks changes the liability of every token by
  exactly what the events moved into or out of the Portal: deposits add their net amount, paid
  withdrawals, refunds and bounce-backs take theirs away, and a withdrawal that bounces back to the
  Zone or a refund parked on Tempo keeps the remaining obligation.
\<close>

theorem tempo_block_tracks_custody:
  assumes "accounting_ok s" and "state_apply (from_tempo block) s = (Inr rows, s')"
  shows "int (token_liability s' t) = int (token_liability s t) + (\<Sum>e\<leftarrow>portal_events block. custody_value e t)"
  using apply_liability [OF assms, of t] by (simp only: from_tempo_def from_tempo_events_value)

section \<open>Authenticated mints\<close>

text \<open>The value a receipt event mints, burns, reports as an Inbox outcome, or requests to withdraw.\<close>

fun minted :: "address \<Rightarrow> ReceiptEvent \<Rightarrow> nat" where
  "minted t (TransferEvent tr) =
     (if tt_token tr = t \<and> tt_from tr = 0 \<and> tt_to tr \<noteq> 0 then unat (tt_amount tr) else 0)"
| "minted t _ = 0"

fun burned :: "address \<Rightarrow> ReceiptEvent \<Rightarrow> nat" where
  "burned t (TransferEvent tr) =
     (if tt_token tr = t \<and> tt_from tr \<noteq> 0 \<and> tt_to tr = 0 then unat (tt_amount tr) else 0)"
| "burned t _ = 0"

definition outcome_value :: "address \<Rightarrow> ReceiptEvent \<Rightarrow> nat" where
  "outcome_value t e =
     (case from_outcome e of None \<Rightarrow> 0 | Some m \<Rightarrow> if mint_token m = t then unat (mint_amount m) else 0)"

fun requested :: "address \<Rightarrow> ReceiptEvent \<Rightarrow> nat" where
  "requested t (ActionEvent (WithdrawalRequestedAction _ (UserOrigin _ _) token amount fee)) =
     (if token = t then unat amount + unat fee else 0)"
| "requested t _ = 0"

lemma from_transfer_Some:
  "from_transfer e = Some m \<longleftrightarrow>
     (\<exists>tr. e = TransferEvent tr \<and> tt_from tr = 0 \<and>
       m = \<lparr>mint_token = tt_token tr, mint_recipient = tt_to tr, mint_amount = tt_amount tr\<rparr>)"
  by (cases e) auto

lemma matches_forward_iff:
  "matches_forward m e \<longleftrightarrow>
     (\<exists>tr. e = TransferEvent tr \<and> tt_token tr = mint_token m \<and> tt_from tr = mint_recipient m \<and> tt_to tr \<noteq> 0
     \<and> tt_to tr \<noteq> mint_recipient m \<and> tt_amount tr = mint_amount m)"
  by (cases e) auto

lemma outcome_not_minted: "from_outcome e = Some m \<Longrightarrow> minted t e = 0"
  by (cases e) auto

lemma skip_forward_minted:
  assumes "from_transfer event = Some m" and "skip_forward m rest = outcome # rest'"
    and "from_outcome outcome = Some m"
  shows "minted t event + sum_list (map (minted t) rest)
      \<le> (if mint_token m = t then unat (mint_amount m) else 0) + sum_list (map (minted t) rest')
    \<and> sum_list (map (outcome_value t) (event # rest))
      = (if mint_token m = t then unat (mint_amount m) else 0) + sum_list (map (outcome_value t) rest')"
proof -
  obtain tr where tr: "event = TransferEvent tr" "tt_from tr = 0"
    "m = \<lparr>mint_token = tt_token tr, mint_recipient = tt_to tr, mint_amount = tt_amount tr\<rparr>"
    using assms(1) by (auto simp: from_transfer_Some)
  have out: "minted t outcome = 0" "outcome_value t outcome = (if mint_token m = t then unat (mint_amount m) else 0)"
    using assms(3) outcome_not_minted by (auto simp: outcome_value_def)
  obtain e es where rest: "rest = e # es" using assms(2) by (cases rest) (auto simp: skip_forward_def)
  show ?thesis
  proof (cases "matches_forward m e")
    case True
    then obtain f where f: "e = TransferEvent f" "tt_token f = tt_token tr" "tt_from f = tt_to tr" "tt_to f \<noteq> 0"
      "tt_amount f = tt_amount tr"
      using tr(3) by (auto simp: matches_forward_iff)
    have "es = outcome # rest'" using assms(2) True rest by (simp add: skip_forward_def)
    then show ?thesis using tr f out rest by (auto simp: outcome_value_def)
  next
    case False
    then have "rest = outcome # rest'" using assms(2) rest by (simp add: skip_forward_def)
    then show ?thesis using tr out by (auto simp: outcome_value_def)
  qed
qed

lemma authenticated_mints_bounded:
  "authenticate_receipt_mints tx events = Inr () \<Longrightarrow>
     sum_list (map (minted t) events) \<le> sum_list (map (outcome_value t) events)"
proof (induction tx events rule: authenticate_receipt_mints.induct)
  case (1 tx)
  then show ?case by simp
next
  case (2 tx event rest)
  show ?case
  proof (cases "from_transfer event")
    case None
    then have "from_outcome event = None" and rest: "authenticate_receipt_mints tx rest = Inr ()"
      using "2.prems" by (auto split: if_splits)
    moreover have "minted t event = 0" using None by (cases event) (auto split: if_splits)
    ultimately show ?thesis using "2.IH"(1) [OF None] by simp
  next
    case (Some m)
    then obtain outcome rest' where skip: "skip_forward m rest = outcome # rest'"
      and out: "from_outcome outcome = Some m" and rest: "authenticate_receipt_mints tx rest' = Inr ()"
      using "2.prems" by (auto split: list.splits option.splits if_splits)
    have "sum_list (map (minted t) rest') \<le> sum_list (map (outcome_value t) rest')"
      using "2.IH"(2) [OF Some skip out refl rest] .
    then show ?thesis using skip_forward_minted [OF Some skip out, of t] by auto
  qed
qed

section \<open>Authenticated withdrawals\<close>

definition burn_value :: "address \<Rightarrow> WithdrawalBurn \<Rightarrow> nat" where
  "burn_value t b = (if wbn_token b = t then unat (wbn_amount b) else 0)"

lemma from_events_Some:
  assumes "from_events n events = Some b"
  obtains debit transfer where "events = [TransferEvent debit, TransferEvent transfer,
      TokenBurnEvent (tt_token transfer) ZONE_OUTBOX_ADDRESS (tt_amount transfer)]"
    "tt_from transfer = ZONE_OUTBOX_ADDRESS" "tt_to transfer = 0"
    "wbn_token b = tt_token transfer" "wbn_amount b = tt_amount transfer"
  using assms by (cases "(n, events)" rule: from_events.cases) (auto split: if_splits)

lemma sum_list_map_filter:
  "sum_list (map g (List.map_filter f xs)) = (\<Sum>x\<leftarrow>xs. case f x of None \<Rightarrow> 0 | Some y \<Rightarrow> (g y :: nat))"
  by (induction xs) (auto split: option.splits)

lemma window_burn_value:
  assumes "i < length receipt - 2"
  shows "(case from_events n (take 3 (drop i receipt)) of None \<Rightarrow> 0 | Some b \<Rightarrow> burn_value t b) \<le> burned t (receipt ! Suc i)"
proof (cases "from_events n (take 3 (drop i receipt))")
  case (Some b)
  then obtain debit transfer where w: "take 3 (drop i receipt) = [TransferEvent debit, TransferEvent transfer,
      TokenBurnEvent (tt_token transfer) ZONE_OUTBOX_ADDRESS (tt_amount transfer)]"
    and tr: "tt_from transfer = ZONE_OUTBOX_ADDRESS" "tt_to transfer = 0"
      "wbn_token b = tt_token transfer" "wbn_amount b = tt_amount transfer"
    by (rule from_events_Some)
  have "take 3 (drop i receipt) ! 1 = receipt ! Suc i" using assms by simp
  then have "receipt ! Suc i = TransferEvent transfer" using w by simp
  then show ?thesis using Some tr by (simp add: burn_value_def ZONE_OUTBOX_ADDRESS_def)
qed simp

lemma sum_inner_le:
  fixes f :: "'a \<Rightarrow> nat"
  shows "(\<Sum>i<length xs - 2. f (xs ! Suc i)) \<le> sum_list (map f xs)"
proof -
  have "(\<Sum>i<length xs - 2. f (xs ! Suc i)) = (\<Sum>j\<in>Suc ` {..<length xs - 2}. f (xs ! j))"
    by (simp add: sum.reindex)
  also have "\<dots> \<le> (\<Sum>j<length xs. f (xs ! j))" by (rule sum_mono2) auto
  also have "\<dots> = sum_list (map f xs)" by (simp add: sum_list_sum_nth atLeast0LessThan)
  finally show ?thesis .
qed

lemma withdrawal_burns_bounded:
  "sum_list (map (burn_value t) (withdrawal_burns receipt)) \<le> sum_list (map (burned t) receipt)"
proof -
  let ?window = "\<lambda>i. case from_events (i + length (take 3 (drop i receipt))) (take 3 (drop i receipt)) of
      None \<Rightarrow> 0 | Some b \<Rightarrow> burn_value t b"
  have "sum_list (map (burn_value t) (withdrawal_burns receipt)) = (\<Sum>i<length receipt - 2. ?window i)"
    unfolding withdrawal_burns_def sum_list_map_filter windows3_def
    by (simp add: comp_def interv_sum_list_conv_sum_set_nat atLeast0LessThan)
  also have "\<dots> \<le> (\<Sum>i<length receipt - 2. burned t (receipt ! Suc i))"
    using window_burn_value by (intro sum_mono) auto
  also have "\<dots> \<le> sum_list (map (burned t) receipt)" by (rule sum_inner_le)
  finally show ?thesis .
qed

definition consumed_value :: "address \<Rightarrow> WithdrawalBurn list \<Rightarrow> bool list \<Rightarrow> nat" where
  "consumed_value t burns consumed = (\<Sum>i<length burns. if consumed ! i then burn_value t (burns ! i) else 0)"

lemma consumed_value_mark:
  assumes "i < length burns" "length consumed = length burns" "\<not> consumed ! i"
  shows "consumed_value t burns (consumed[i := True]) = consumed_value t burns consumed + burn_value t (burns ! i)"
proof -
  let ?f = "\<lambda>c j. if c ! j then burn_value t (burns ! j) else 0"
  have split: "sum f {..<length burns} = f i + sum f ({..<length burns} - {i})" for f :: "nat \<Rightarrow> nat"
    using assms(1) by (intro sum.remove) auto
  have "sum (?f (consumed[i := True])) ({..<length burns} - {i}) = sum (?f consumed) ({..<length burns} - {i})"
    by (rule sum.cong) auto
  then show ?thesis
    using assms unfolding consumed_value_def split [of "?f (consumed[i := True])"] split [of "?f consumed"] by simp
qed

lemma find_upt_Some: "find P [0..<n] = Some i \<Longrightarrow> i < n \<and> P i"
  by (auto simp: find_Some_iff)

text \<open>A request whose amount and fee fit, as every decoded one does, consumes burns of its total value.\<close>

definition request_fits :: "ReceiptEvent \<Rightarrow> bool" where
  "request_fits e \<longleftrightarrow>
     (case e of ActionEvent (WithdrawalRequestedAction _ _ _ amount fee) \<Rightarrow> unat amount < 2 ^ 128 \<and> unat fee < 2 ^ 128
      | _ \<Rightarrow> True)"

lemma unat_request_total: "unat (a :: u256) < 2 ^ 128 \<Longrightarrow> unat b < 2 ^ 128 \<Longrightarrow> unat (a + b) = unat a + unat b"
  by (simp add: unat_word_ariths)

lemma consume_request_value:
  assumes "consume_request tx burns (index, event) consumed = Inr consumed'"
    and "length consumed = length burns" and "request_fits event"
  shows "length consumed' = length burns
    \<and> consumed_value t burns consumed' = consumed_value t burns consumed + requested t event"
proof (cases "\<exists>n sender tag token amount fee. event = ActionEvent (WithdrawalRequestedAction n (UserOrigin sender tag) token amount fee)")
  case False
  then have "consumed' = consumed" "requested t event = 0"
    using assms(1)
    by (cases "(tx, burns, (index, event), consumed)" rule: consume_request.cases; auto)+
  then show ?thesis using assms(2) by simp
next
  case True
  then obtain n sender tag token amount fee where
    event: "event = ActionEvent (WithdrawalRequestedAction n (UserOrigin sender tag) token amount fee)" by blast
  have total: "unat (amount + fee) = unat amount + unat fee"
    using assms(3) by (auto simp: event request_fits_def intro: unat_request_total)
  show ?thesis
  proof (cases "matching_burn burns consumed index token sender (amount + fee)")
    case (Some i)
    then have i: "i < length burns" "\<not> consumed ! i" "wbn_token (burns ! i) = token" "wbn_amount (burns ! i) = amount + fee"
      by (auto simp: matching_burn_def dest!: find_upt_Some)
    moreover have "consumed' = consumed[i := True]" using assms(1) Some by (simp add: event Let_def)
    ultimately show ?thesis
      using consumed_value_mark [of i burns consumed t] assms(2) total by (simp add: event burn_value_def)
  next
    case None
    then obtain p f where p: "matching_burn burns consumed index token sender amount = Some p"
      and f: "matching_fee_burn burns consumed index token fee (Some p) = Some f"
      and c': "consumed' = consumed[p := True, f := True]"
      using assms(1) by (auto simp: event Let_def split: option.splits if_splits)
    have p': "p < length burns" "\<not> consumed ! p" "wbn_token (burns ! p) = token" "wbn_amount (burns ! p) = amount"
      using p by (auto simp: matching_burn_def dest!: find_upt_Some)
    have f': "f < length burns" "f \<noteq> p" "\<not> consumed ! f" "wbn_token (burns ! f) = token" "wbn_amount (burns ! f) = fee"
      using f by (auto simp: matching_fee_burn_def dest!: find_upt_Some)
    show ?thesis
      using consumed_value_mark [of p burns consumed t] consumed_value_mark [of f burns "consumed[p := True]" t]
        p' f' assms(2) by (simp add: event burn_value_def c')
  qed
qed

lemma consume_requests_value:
  "try_fold (consume_request tx burns) (List.enumerate n events) consumed = Inr consumed' \<Longrightarrow>
     length consumed = length burns \<Longrightarrow> (\<forall>e \<in> set events. request_fits e) \<Longrightarrow>
     consumed_value t burns consumed' = consumed_value t burns consumed + sum_list (map (requested t) events)
     \<and> length consumed' = length burns"
proof (induction events arbitrary: n consumed)
  case (Cons e es)
  then obtain c1 where "consume_request tx burns (n, e) consumed = Inr c1"
    and "try_fold (consume_request tx burns) (List.enumerate (Suc n) es) c1 = Inr consumed'" by auto
  then show ?case using Cons.IH [of "Suc n" c1] Cons.prems consume_request_value [of tx burns n e consumed c1 t] by auto
qed simp

lemma authenticated_withdrawals_burned:
  assumes "authenticate_receipt_withdrawals tx events = Inr ()" and "\<forall>e \<in> set events. request_fits e"
  shows "sum_list (map (requested t) events) \<le> sum_list (map (burned t) events)"
proof -
  let ?burns = "withdrawal_burns events"
  obtain consumed where fold: "try_fold (consume_request tx ?burns) (List.enumerate 0 events) (replicate (length ?burns) False) = Inr consumed"
    and all: "\<forall>i < length ?burns. consumed ! i"
    using assms(1) by (auto simp: authenticate_receipt_withdrawals_def Let_def)
  have "consumed_value t ?burns (replicate (length ?burns) False) = 0" by (simp add: consumed_value_def)
  then have "consumed_value t ?burns consumed = sum_list (map (requested t) events)"
    using consume_requests_value [OF fold _ assms(2), of t] by simp
  moreover have "consumed_value t ?burns consumed = sum_list (map (burn_value t) ?burns)"
    using all by (simp add: consumed_value_def sum_list_sum_nth atLeast0LessThan)
  ultimately show ?thesis using withdrawal_burns_bounded [of t events] by simp
qed

section \<open>Zone blocks\<close>

fun as_action :: "ReceiptEvent \<Rightarrow> L2BridgeAction option" where
  "as_action (ActionEvent a) = Some a"
| "as_action _ = None"

definition evidence_value :: "L2BlockEvidence \<Rightarrow> address \<Rightarrow> int" where
  "evidence_value ev t = effects_value (from_zone ev) t"

definition principal_of :: "address \<Rightarrow> ReceiptEvent \<Rightarrow> nat" where
  "principal_of t e =
     (case e of ActionEvent (WithdrawalRequestedAction _ (UserOrigin _ _) token amount _) \<Rightarrow>
        if token = t then unat amount else 0 | _ \<Rightarrow> 0)"

lemma principal_le_requested: "principal_of t e \<le> requested t e"
  by (cases "(t, e)" rule: requested.cases) (auto simp: principal_of_def)

lemma transfer_effects_value:
  "effects_value (transfer_effects tr) t = int (minted t (TransferEvent tr)) - int (burned t (TransferEvent tr))"
  by (auto simp: transfer_effects_def)

lemma action_effects_value:
  "effects_value (zone_action_effects a) t =
     int (principal_of t (ActionEvent a)) - int (outcome_value t (ActionEvent a))"
  by (cases a rule: zone_action_effects.cases) (auto simp: principal_of_def outcome_value_def)

definition event_value :: "address \<Rightarrow> ReceiptEvent \<Rightarrow> int" where
  "event_value t e = int (minted t e) - int (burned t e) + int (principal_of t e) - int (outcome_value t e)"

lemma receipt_effects_value:
  "effects_value (from_transfers (List.map_filter as_transfer events)) t
     + effects_value (from_zone_actions (List.map_filter as_action events)) t = (\<Sum>e\<leftarrow>events. event_value t e)"
proof (induction events)
  case (Cons e es)
  then show ?case
    using transfer_effects_value action_effects_value
    by (cases e) (auto simp: from_transfers_def from_zone_actions_def event_value_def principal_of_def outcome_value_def
        simp del: minted.simps(1) burned.simps(1))
qed (simp add: from_transfers_def from_zone_actions_def)

lemma sum_event_value:
  "(\<Sum>e\<leftarrow>events. event_value t e) =
     int (sum_list (map (minted t) events)) - int (sum_list (map (burned t) events))
     + int (sum_list (map (principal_of t) events)) - int (sum_list (map (outcome_value t) events))"
  by (induction events) (auto simp: event_value_def)

lemma authenticated_receipt_value:
  assumes "authenticate_receipt_mints tx events = Inr ()" "authenticate_receipt_withdrawals tx events = Inr ()"
    and "\<forall>e \<in> set events. request_fits e"
  shows "(\<Sum>e\<leftarrow>events. event_value t e) \<le> 0"
proof -
  have "sum_list (map (principal_of t) events) \<le> sum_list (map (requested t) events)"
    by (rule sum_list_mono) (rule principal_le_requested)
  also have "\<dots> \<le> sum_list (map (burned t) events)" using authenticated_withdrawals_burned [OF assms(2,3)] .
  finally show ?thesis
    using authenticated_mints_bounded [OF assms(1), of t] unfolding sum_event_value by linarith
qed

lemma u128_less: "unat (a :: u128) < 2 ^ 128"
  by (rule unsigned_less [THEN less_le_trans]) simp

lemma u128_fits [simp]: "unat (ucast (a :: u128) :: u256) < 2 ^ 128"
  unfolding unat_u128_u256 by (rule u128_less)

lemma decoded_request_fits:
  assumes "decode_zone_log abi ok tx block log = Inr (Some e)"
  shows "request_fits e"
  using assms
  using u128_less
  by (auto simp: decode_zone_log_def decode_inbox_def decode_outbox_def decode_token_event_def request_fits_def
      split: if_splits)

lemma decoded_requests_fit:
  assumes "decode_zone_logs abi ok tx block logs = Inr events"
  shows "\<forall>e \<in> set events. request_fits e"
proof -
  obtain es where es: "try_map (decode_zone_log abi ok tx block) logs = Inr es" "events = List.map_filter id es"
    using assms by (auto simp: decode_zone_logs_def)
  have "request_fits e" if "Some e \<in> set es" for e
    using that es(1) decoded_request_fits by (metis in_set_conv_nth try_map_length try_map_nth)
  then show ?thesis by (auto simp: es(2) List.map_filter_def)
qed

lemma collect_events_evidence:
  "try_fold (collect_event block) events ev = Inr ev' \<Longrightarrow>
     ev_transfers ev' = ev_transfers ev @ List.map_filter as_transfer events
     \<and> ev_actions ev' = ev_actions ev @ List.map_filter as_action events"
proof (induction events arbitrary: ev)
  case (Cons e es)
  then obtain ev1 where e: "collect_event block e ev = Inr ev1" and es: "try_fold (collect_event block) es ev1 = Inr ev'"
    by auto
  show ?case using Cons.IH [OF es] e by (cases e) auto
qed simp

lemma evidence_value_append:
  assumes "ev_transfers ev' = ev_transfers ev @ List.map_filter as_transfer events"
    and "ev_actions ev' = ev_actions ev @ List.map_filter as_action events"
  shows "evidence_value ev' t = evidence_value ev t + (\<Sum>e\<leftarrow>events. event_value t e)"
  using receipt_effects_value [of events t] assms
  by (simp add: evidence_value_def from_zone_def from_transfers_def from_zone_actions_def)

text \<open>A failed receipt keeps only its fee transfers, which move tokens between existing accounts.\<close>

definition failed_receipts_mint_nothing ::
  "zone_abi \<Rightarrow> u64 \<Rightarrow> zone_transaction list \<Rightarrow> zone_receipt list \<Rightarrow> bool" where
  "failed_receipts_mint_nothing abi block transactions receipts \<longleftrightarrow>
     (\<forall>(tx, r) \<in> set (zip transactions receipts). \<not> rc_status r \<longrightarrow>
        (\<forall>log \<in> set (rc_logs r). \<forall>e. decode_token_event abi log block = Inr (Some e) \<longrightarrow> from_transfer e = None))"

lemma failed_receipt_value:
  assumes "decode_zone_logs abi False tx block logs = Inr events"
    and "\<forall>log \<in> set logs. \<forall>e. decode_token_event abi log block = Inr (Some e) \<longrightarrow> from_transfer e = None"
  shows "effects_value (from_transfers (List.map_filter as_transfer events)) t \<le> 0"
proof -
  obtain es where es: "try_map (decode_zone_log abi False tx block) logs = Inr es" "events = List.map_filter id es"
    using assms(1) by (auto simp: decode_zone_logs_def)
  have "from_transfer e = None" if mem: "Some e \<in> set es" for e
  proof -
    obtain i where i: "i < length es" "es ! i = Some e" using mem by (auto simp: in_set_conv_nth)
    then have "decode_token_event abi (logs ! i) block = Inr (Some e)"
      using es(1) try_map_nth [OF es(1), of i] try_map_length [OF es(1)] by (simp add: decode_zone_log_def)
    then show ?thesis using assms(2) i try_map_length [OF es(1)] by auto
  qed
  then have "from_transfer e = None" if "e \<in> set events" for e
    using that by (auto simp: es(2) List.map_filter_def)
  then show ?thesis
  proof (induction events)
    case (Cons e es)
    have "effects_value (transfer_effects tr) t \<le> 0" if "e = TransferEvent tr" for tr
      using Cons.prems [of e] that unfolding transfer_effects_value by (auto split: if_splits)
    then show ?case using Cons by (cases e) (auto simp: from_transfers_def)
  qed (simp add: from_transfers_def)
qed

lemma extract_receipt_value:
  assumes "extract_receipt abi block (tx, r) ev = Inr ev'"
    and "\<not> rc_status r \<Longrightarrow>
      (\<forall>log \<in> set (rc_logs r). \<forall>e. decode_token_event abi log block = Inr (Some e) \<longrightarrow> from_transfer e = None)"
  shows "evidence_value ev' t \<le> evidence_value ev t"
proof -
  obtain events where decoded: "decode_zone_logs abi (rc_status r) (tx_hash tx) block (rc_logs r) = Inr events"
    using assms(1) by (auto simp: extract_receipt_def Let_def)
  show ?thesis
  proof (cases "rc_status r")
    case True
    then have auth: "authenticate_receipt_mints (tx_hash tx) events = Inr ()"
        "authenticate_receipt_withdrawals (tx_hash tx) events = Inr ()"
      and fold: "try_fold (collect_event block) events ev = Inr ev'"
      using assms(1) decoded by (auto simp: extract_receipt_def Let_def)
    show ?thesis
      using authenticated_receipt_value [OF auth decoded_requests_fit [OF decoded], of t]
        evidence_value_append [of ev' ev events t] collect_events_evidence [OF fold] by simp
  next
    case False
    then have "ev' = ev\<lparr>ev_transfers := ev_transfers ev @ List.map_filter as_transfer events\<rparr>"
      using assms(1) decoded by (simp add: extract_receipt_def Let_def)
    then show ?thesis
      using failed_receipt_value [of abi "tx_hash tx" block "rc_logs r" events t] decoded False assms(2)
      by (simp add: evidence_value_def from_zone_def from_transfers_def)
  qed
qed

lemma collected_evidence_value:
  assumes "collect_l2_block_evidence abi transactions receipts block = Inr ev"
    and "failed_receipts_mint_nothing abi block transactions receipts"
  shows "evidence_value ev t \<le> 0"
proof (cases "is_checkpoint_block abi transactions")
  case True
  then have "ev = \<lparr>ev_anchor = None, ev_transfers = [], ev_actions = []\<rparr>"
    using assms(1)
    by (cases "rc_logs (hd receipts)"; cases "tl (rc_logs (hd receipts))")
      (auto simp: collect_l2_block_evidence_def collect_checkpoint_block_def)
  then show ?thesis by (simp add: evidence_value_def from_zone_def from_transfers_def from_zone_actions_def)
next
  case False
  then obtain ev0 where fold: "try_fold (extract_receipt abi block) (zip transactions receipts)
        \<lparr>ev_anchor = None, ev_transfers = [], ev_actions = []\<rparr> = Inr ev0"
    and ev: "evidence_value ev t = evidence_value ev0 t"
    using assms(1)
    by (auto simp: collect_l2_block_evidence_def collector_finish_def evidence_value_def from_zone_def)
  have "evidence_value ev0 t \<le> 0"
    using fold
  proof (rule try_fold_invariant [where I = "\<lambda>ev. evidence_value ev t \<le> 0"])
    show "evidence_value \<lparr>ev_anchor = None, ev_transfers = [], ev_actions = []\<rparr> t \<le> 0"
      by (simp add: evidence_value_def from_zone_def from_transfers_def from_zone_actions_def)
  next
    fix x ev1 ev2 assume "x \<in> set (zip transactions receipts)" "evidence_value ev1 t \<le> 0"
      "extract_receipt abi block x ev1 = Inr ev2"
    then show "evidence_value ev2 t \<le> 0"
      using extract_receipt_value [of abi block "fst x" "snd x" ev1 ev2 t] assms(2)
      unfolding failed_receipts_mint_nothing_def by fastforce
  qed
  then show ?thesis using ev by simp
qed


section \<open>Concrete blocks\<close>

lemma sample_apply:
  assumes "ledger_run effects (ledger_view_of sample_accounting) = Inr l"
  obtains rows s' where "state_apply effects sample_accounting = (Inr rows, s')"
  using state_apply_ledger [OF sample_accounting_ok, of effects] assms by auto

lemma sample_liability: "token_liability sample_accounting 1 = 16"
  by (simp add: token_liability_def sample_accounting_def sample_token_state_def liability_sum_def TokenState_default_def)

definition sample_tempo_block :: L1BlockEvidence where
  "sample_tempo_block = [\<lparr>le_timestamp_millis = 0, le_events = [DepositMadeEv 1 9, WithdrawalProcessedEv 0 1 4 True]\<rparr>]"

theorem tempo_block_tracks_custody_witness:
  "\<exists>rows s'. state_apply (from_tempo sample_tempo_block) sample_accounting = (Inr rows, s') \<and> token_liability s' 1 = 21"
proof -
  have "is_ok (ledger_run (from_tempo sample_tempo_block) (ledger_view_of sample_accounting))"
    by (simp add: from_tempo_def sample_tempo_block_def portal_events_def from_tempo_events_def ledger_run_def
        sample_accounting_def sample_token_state_def TokenState_default_def checked_add_def checked_sub_def)
  then obtain rows s' where s': "state_apply (from_tempo sample_tempo_block) sample_accounting = (Inr rows, s')"
    by (auto simp: is_ok_iff elim: sample_apply)
  have "int (token_liability s' 1) = 21"
    unfolding tempo_block_tracks_custody [OF sample_accounting_ok s'] sample_liability
    by (simp add: sample_tempo_block_def portal_events_def)
  then show ?thesis using s' by auto
qed

text \<open>A token log carries the parties as topics and a one-byte amount as data.\<close>

definition sample_transfer_event :: "TokenTransferLog sol_event" where
  "sample_transfer_event = \<lparr>SIGNATURE_HASH = 20,
     decode_log_validate = (\<lambda>log. case (ld_topics (log_data log), ld_data (log_data log)) of
         ([_, f, t], [a]) \<Rightarrow> Some \<lparr>ttl_from = ucast f, ttl_to = ucast t, ttl_amount = ucast a\<rparr> | _ \<Rightarrow> None),
     encode_log_data = (\<lambda>e. \<lparr>ld_topics = [20, ucast (ttl_from e), ucast (ttl_to e)], ld_data = [ucast (ttl_amount e)]\<rparr>)\<rparr>"

definition sample_zone_abi :: zone_abi where
  "sample_zone_abi =
     \<lparr>za_TempoAdvanced_0 = opaque_event 1 \<lparr>ta0_tempoBlockHash = 2, ta0_tempoBlockNumber = 5, ta0_depositsProcessed = 0,
        ta0_newProcessedDepositQueueHash = 0, ta0_lastProcessedDepositNumber = 0\<rparr>,
      za_TempoAdvanced_1 = opaque_event 2 \<lparr>ta0_tempoBlockHash = 2, ta0_tempoBlockNumber = 5, ta0_depositsProcessed = 0,
        ta0_newProcessedDepositQueueHash = 0, ta0_lastProcessedDepositNumber = 0, ta1_lastProcessedEnabledTokenCount = 1\<rparr>,
      za_DepositProcessed = opaque_event 3 \<lparr>idp_depositHash = 0, idp_sender = 11, idp_to = 21, idp_token = 1, idp_amount = 7, idp_memo = 0\<rparr>,
      za_DepositFailed = opaque_event 4 \<lparr>idf_depositHash = 0, idf_sender = 11, idf_token = 1, idf_amount = 7\<rparr>,
      za_WithdrawalBounceBackProcessed = opaque_event 5 \<lparr>iwb_zoneFallbackRecipient = 21, iwb_token = 1, iwb_amount = 4\<rparr>,
      za_WithdrawalBounceBackPending = opaque_event 6 \<lparr>iwb_zoneFallbackRecipient = 21, iwb_token = 1, iwb_amount = 4\<rparr>,
      za_RefundClaimed = opaque_event 7 \<lparr>irc_recipient = 21, irc_token = 1, irc_amount = 4\<rparr>,
      za_TokenEnabled = opaque_event 8 [], za_DepositRejected = opaque_event 9 [],
      za_WithdrawalRequested = opaque_event 10 \<lparr>wr_withdrawalIndex = 0, wr_sender = 21, wr_token = 1, wr_to = 31, wr_amount = 4,
        wr_fee = 1, wr_memo = 0, wr_gasLimit = 0, wr_fallbackNonce = 1, wr_data = [], wr_revealTo = []\<rparr>,
      za_BatchFinalized = opaque_event 11 [], za_TempoGasRateUpdated = opaque_event 12 [],
      za_MaxWithdrawalsPerBlockUpdated = opaque_event 13 [],
      za_Transfer = sample_transfer_event, za_Burn = opaque_event 21 \<lparr>tbl_from = ZONE_OUTBOX_ADDRESS, tbl_amount = 5\<rparr>,
      za_is_tip20 = (\<lambda>a. a = 1), za_keccak = (\<lambda>_. 0), za_TempoBlockFinalized = opaque_event 14 (0, 0, 0),
      za_advanceTempoHeaders_SELECTOR = [1, 2, 3, 4], za_decode_headers_call = (\<lambda>_. None)\<rparr>"

definition sample_log :: "address \<Rightarrow> b256 list \<Rightarrow> bytes \<Rightarrow> chain_log" where
  "sample_log a topics d = \<lparr>log_address = a, log_data = \<lparr>ld_topics = topics, ld_data = d\<rparr>\<rparr>"

text \<open>A block that imports a Tempo block and withdraws four units for a fee of one.\<close>

definition sample_receipts :: "zone_receipt list" where
  "sample_receipts =
     [\<lparr>rc_status = True, rc_logs = [sample_log ZONE_INBOX_ADDRESS [2] []]\<rparr>,
      \<lparr>rc_status = True, rc_logs =
        [sample_log 1 [20, 21, ucast ZONE_OUTBOX_ADDRESS] [5], sample_log 1 [20, ucast ZONE_OUTBOX_ADDRESS, 0] [5],
         sample_log 1 [21] [], sample_log ZONE_OUTBOX_ADDRESS [10] []]\<rparr>]"

definition sample_transactions :: "zone_transaction list" where
  "sample_transactions = [\<lparr>tx_hash = 1, tx_to = Some ZONE_INBOX_ADDRESS, tx_input = []\<rparr>,
     \<lparr>tx_hash = 2, tx_to = Some ZONE_OUTBOX_ADDRESS, tx_input = []\<rparr>]"

definition sample_zone_evidence :: L2BlockEvidence where
  "sample_zone_evidence = \<lparr>ev_anchor = Some \<lparr>la_tempo_block_hash = 2, la_tempo_block_number = 5\<rparr>,
     ev_transfers = [\<lparr>tt_token = 1, tt_from = 21, tt_to = ZONE_OUTBOX_ADDRESS, tt_amount = 5\<rparr>,
       \<lparr>tt_token = 1, tt_from = ZONE_OUTBOX_ADDRESS, tt_to = 0, tt_amount = 5\<rparr>],
     ev_actions = [WithdrawalRequestedAction 0 (UserOrigin 21 0) 1 4 1]\<rparr>"

lemmas zone_block_eval =
  sample_receipts_def sample_transactions_def sample_log_def sample_zone_abi_def sample_transfer_event_def opaque_event_def
  decode_zone_log_def decode_inbox_def decode_outbox_def decode_token_event_def decode_event_def topic0_def
  ZONE_INBOX_ADDRESS_def ZONE_OUTBOX_ADDRESS_def withdrawal_origin_def sender_tag_def

lemma sample_zone_decoded:
  "decode_zone_logs sample_zone_abi True 1 9 (rc_logs (sample_receipts ! 0)) =
     Inr [AnchorEvent \<lparr>la_tempo_block_hash = 2, la_tempo_block_number = 5\<rparr>]"
  "decode_zone_logs sample_zone_abi True 2 9 (rc_logs (sample_receipts ! Suc 0)) =
     Inr [TransferEvent \<lparr>tt_token = 1, tt_from = 21, tt_to = ZONE_OUTBOX_ADDRESS, tt_amount = 5\<rparr>,
          TransferEvent \<lparr>tt_token = 1, tt_from = ZONE_OUTBOX_ADDRESS, tt_to = 0, tt_amount = 5\<rparr>,
          TokenBurnEvent 1 ZONE_OUTBOX_ADDRESS 5, ActionEvent (WithdrawalRequestedAction 0 (UserOrigin 21 0) 1 4 1)]"
  by (simp_all add: decode_zone_logs_def zone_block_eval)

lemma sample_zone_collected:
  "collect_l2_block_evidence sample_zone_abi sample_transactions sample_receipts 9 = Inr sample_zone_evidence"
proof -
  let ?t1 = "\<lparr>tt_token = 1, tt_from = 21, tt_to = ZONE_OUTBOX_ADDRESS, tt_amount = 5\<rparr>"
    and ?t2 = "\<lparr>tt_token = 1, tt_from = ZONE_OUTBOX_ADDRESS, tt_to = 0, tt_amount = 5\<rparr>"
    and ?w = "WithdrawalRequestedAction 0 (UserOrigin 21 0) 1 4 1"
  let ?events = "[TransferEvent ?t1, TransferEvent ?t2, TokenBurnEvent 1 ZONE_OUTBOX_ADDRESS 5, ActionEvent ?w]"
  have mints: "authenticate_receipt_mints 2 ?events = Inr ()"
    by (simp add: ZONE_OUTBOX_ADDRESS_def)
  have "withdrawal_burns ?events = [\<lparr>wbn_end_index = 3, wbn_token = 1, wbn_owner = 21, wbn_amount = 5\<rparr>]"
    by (simp add: withdrawal_burns_def windows3_def upt_rec)
  then have burns: "authenticate_receipt_withdrawals 2 ?events = Inr ()"
    by (simp add: authenticate_receipt_withdrawals_def Let_def matching_burn_def)
  have receipts: "sample_receipts = [\<lparr>rc_status = True, rc_logs = rc_logs (sample_receipts ! 0)\<rparr>,
      \<lparr>rc_status = True, rc_logs = rc_logs (sample_receipts ! 1)\<rparr>]"
    by (simp add: sample_receipts_def)
  have anchor: "authenticate_receipt_withdrawals 1 [AnchorEvent a] = Inr ()" for a
    by (simp add: authenticate_receipt_withdrawals_def withdrawal_burns_def windows3_def)
  have "\<not> is_checkpoint_block sample_zone_abi sample_transactions"
    by (simp add: is_checkpoint_block_def sample_transactions_def sample_zone_abi_def)
  then show ?thesis
    by (subst receipts) (simp add: collect_l2_block_evidence_def sample_transactions_def
        extract_receipt_def sample_zone_decoded mints burns anchor collector_finish_def sample_zone_evidence_def
        authenticate_receipt_mints.simps(2) [of 1] del: authenticate_receipt_mints.simps(2))
qed


end
