(* ===== verification/Deposit_Queue.thy ===== *)
theory Deposit_Queue
  imports Portal_Events Zone_Context Op_System
begin

text \<open>
  The node's queue of finalized L1 blocks (\<open>crates/l1/src/queue.rs\<close>) and the portal events it
  carries (\<open>event.rs\<close>, \<open>deposit.rs\<close>, \<open>L1BlockDeposits\<close> of \<open>block.rs\<close>). The subscriber appends
  blocks; a checkpoint-only zone block moves the blocks it crosses to the deferred work; a full zone
  block consumes the deferred work and its own block.

  A method with a \<open>&mut self\<close> receiver returns its result together with the state it leaves, also
  when it fails. Every public method takes the queue's lock once, so a run of the node is a sequence
  of these operations. Event decoding is generated code: the union decoder is a parameter, and the
  signature hashes are those of the \<open>portal_abi\<close>. The ABI encoders of the two deposit structs are
  the parameter \<open>deposit_abi\<close>.
\<close>

section \<open>Deposits observed on L1\<close>

record ObservedBounceBack =
  ob_token :: address
  ob_to :: address
  ob_amount :: u128
  ob_fee :: u128

definition from_bounce_back_event :: "PortalWithdrawalBounceBack \<Rightarrow> ObservedBounceBack" where
  "from_bounce_back_event event =
     \<lparr>ob_token = pwb_token event, ob_to = ucast (pwb_fallbackNonce event),
      ob_amount = pwb_amount event, ob_fee = 0\<rparr>"

record ObservedDeposit =
  od_token :: address
  od_sender :: address
  od_amount :: u128
  od_fee :: u128
  od_tempo_refund_recipient :: address
  od_key_index :: u256
  od_ephemeral_pubkey_x :: b256
  od_ephemeral_pubkey_y_parity :: u8
  od_ciphertext :: bytes
  od_nonce :: bytes
  od_tag :: bytes

definition from_event :: "DepositMade \<Rightarrow> ObservedDeposit" where
  "from_event event =
     \<lparr>od_token = dm_token event, od_sender = dm_sender event, od_amount = dm_netAmount event,
      od_fee = dm_fee event, od_tempo_refund_recipient = dm_tempoRefundRecipient event,
      od_key_index = dm_keyIndex event, od_ephemeral_pubkey_x = dm_ephemeralPubkeyX event,
      od_ephemeral_pubkey_y_parity = dm_ephemeralPubkeyYParity event,
      od_ciphertext = dm_ciphertext event, od_nonce = dm_nonce event, od_tag = dm_tag event\<rparr>"

datatype L1Deposit =
    L1WithdrawalBounceBack ObservedBounceBack
  | L1UserDeposit ObservedDeposit

text \<open>The ABI structs the two kinds of entry are encoded from.\<close>

definition abi_bounce_back :: "ObservedBounceBack \<Rightarrow> WithdrawalBounceBackDeposit" where
  "abi_bounce_back d = \<lparr>wb_token = ob_token d, wb_to = ob_to d, wb_amount = ob_amount d\<rparr>"

definition abi_deposit :: "ObservedDeposit \<Rightarrow> Deposit" where
  "abi_deposit d =
     \<lparr>dp_token = od_token d, dp_sender = od_sender d, dp_amount = od_amount d,
      dp_tempoRefundRecipient = od_tempo_refund_recipient d, dp_keyIndex = od_key_index d,
      dp_encrypted = \<lparr>pay_ephemeralPubkeyX = od_ephemeral_pubkey_x d,
        pay_ephemeralPubkeyYParity = od_ephemeral_pubkey_y_parity d,
        pay_ciphertext = od_ciphertext d, pay_nonce = od_nonce d, pay_tag = od_tag d\<rparr>\<rparr>"

record deposit_abi =
  enc_bounce_back :: "WithdrawalBounceBackDeposit \<Rightarrow> bytes"
  enc_deposit :: "Deposit \<Rightarrow> bytes"

fun to_abi_queued_deposit :: "deposit_abi \<Rightarrow> L1Deposit \<Rightarrow> QueuedDeposit" where
  "to_abi_queued_deposit abi (L1WithdrawalBounceBack d) =
     \<lparr>qd_depositType = BounceBackType, qd_depositData = enc_bounce_back abi (abi_bounce_back d),
      qd_rejected = False\<rparr>"
| "to_abi_queued_deposit abi (L1UserDeposit d) =
     \<lparr>qd_depositType = DepositKind, qd_depositData = enc_deposit abi (abi_deposit d),
      qd_rejected = False\<rparr>"

text \<open>The deposit the zone decodes from an entry.\<close>

fun observed :: "L1Deposit \<Rightarrow> DecodedQueuedDeposit" where
  "observed (L1WithdrawalBounceBack d) = DecodedBounceBack (abi_bounce_back d)"
| "observed (L1UserDeposit d) = DecodedDeposit (abi_deposit d)"

text \<open>\<open>enc\<close> is the parameter encoding of the tuple of type, deposit and previous hash.\<close>

fun l1_hash_chain ::
  "keccak \<Rightarrow> (DecodedQueuedDeposit \<Rightarrow> b256 \<Rightarrow> bytes) \<Rightarrow> L1Deposit \<Rightarrow> b256 \<Rightarrow> b256" where
  "l1_hash_chain keccak256 enc (L1WithdrawalBounceBack d) prev_hash =
     keccak256 (enc (DecodedBounceBack (abi_bounce_back d)) prev_hash)"
| "l1_hash_chain keccak256 enc (L1UserDeposit d) prev_hash =
     keccak256 (enc (DecodedDeposit (abi_deposit d)) prev_hash)"

section \<open>Portal events of a block\<close>

record EncryptionKeyRotation =
  kr_x :: b256
  kr_y_parity :: u8
  kr_pubkey :: address
  kr_key_index :: u256
  kr_activation_block :: u64

record LeaderTransition =
  lt_previous_leader :: address
  lt_new_leader :: address
  lt_epoch :: u64
  lt_activation_tempo_block :: u64

record ObservedToken =
  ot_token :: address
  ot_name :: string
  ot_symbol :: string
  ot_currency :: string

definition to_abi :: "ObservedToken \<Rightarrow> EnabledToken" where
  "to_abi t = \<lparr>et_token = ot_token t, et_name = ot_name t, et_symbol = ot_symbol t,
     et_currency = ot_currency t\<rparr>"

record L1PortalEvents =
  pe_deposits :: "L1Deposit list"
  pe_enabled_tokens :: "ObservedToken list"
  pe_encryption_key_rotations :: "EncryptionKeyRotation list"
  pe_leader_transitions :: "LeaderTransition list"
  pe_portal_pause :: "bool option"

definition no_events :: L1PortalEvents where
  "no_events = \<lparr>pe_deposits = [], pe_enabled_tokens = [], pe_encryption_key_rotations = [],
     pe_leader_transitions = [], pe_portal_pause = None\<rparr>"

definition from_deposits :: "L1Deposit list \<Rightarrow> L1PortalEvents" where
  "from_deposits ds = no_events\<lparr>pe_deposits := ds\<rparr>"

definition extend_operational :: "L1PortalEvents \<Rightarrow> L1PortalEvents \<Rightarrow> L1PortalEvents" where
  "extend_operational other self =
     self\<lparr>pe_deposits := pe_deposits self @ pe_deposits other,
          pe_enabled_tokens := pe_enabled_tokens self @ pe_enabled_tokens other\<rparr>"

datatype portal_inputs_error =
    DepositCountMismatch nat nat
  | DepositMismatch nat
  | TokenEnablesMismatch

definition validate_advance_tempo_inputs ::
  "deposit_abi \<Rightarrow> L1PortalEvents \<Rightarrow> QueuedDeposit list \<Rightarrow> EnabledToken list
   \<Rightarrow> portal_inputs_error + unit" where
  "validate_advance_tempo_inputs abi self ds enabled_tokens =
     rbind (check (length ds = length (pe_deposits self))
       (DepositCountMismatch (length (pe_deposits self)) (length ds))) (\<lambda>_.
     rbind (try_fold (\<lambda>(index, expected, actual) _.
         let expected = to_abi_queued_deposit abi expected in
         check (qd_depositType actual = qd_depositType expected \<and>
                qd_depositData actual = qd_depositData expected) (DepositMismatch index))
       (enumerate 0 (zip (pe_deposits self) ds)) ()) (\<lambda>_.
     check (enabled_tokens = map to_abi (pe_enabled_tokens self)) TokenEnablesMismatch))"

text \<open>The generated union of the portal's events; the variants the node ignores are one constructor.\<close>

datatype ZonePortalEvents =
    EvDepositMade DepositMade
  | EvWithdrawalBounceBack PortalWithdrawalBounceBack
  | EvTokenEnabled PortalTokenEnabled
  | EvSequencerEncryptionKeyUpdated SequencerEncryptionKeyUpdated
  | EvLeaderUpdated LeaderUpdated
  | EvPortalPaused address
  | EvPortalResumed address
  | EvOther

definition SIGNATURE_HASHES :: "portal_abi \<Rightarrow> b256 list" where
  "SIGNATURE_HASHES pa =
     [SIGNATURE_HASH (pa_DepositMade pa), SIGNATURE_HASH (pa_WithdrawalBounceBack pa),
      SIGNATURE_HASH (pa_TokenEnabled pa), SIGNATURE_HASH (pa_SequencerEncryptionKeyUpdated pa),
      SIGNATURE_HASH (pa_LeaderUpdated pa), SIGNATURE_HASH (pa_PortalPaused pa),
      SIGNATURE_HASH (pa_PortalResumed pa)]"

definition is_known_event :: "portal_abi \<Rightarrow> chain_log \<Rightarrow> bool" where
  "is_known_event pa log =
     (case topic0 log of None \<Rightarrow> False | Some t \<Rightarrow> t \<in> set (SIGNATURE_HASHES pa))"

fun push_event :: "ZonePortalEvents \<Rightarrow> L1PortalEvents \<Rightarrow> L1PortalEvents" where
  "push_event (EvDepositMade event) self =
     self\<lparr>pe_deposits := pe_deposits self @ [L1UserDeposit (from_event event)]\<rparr>"
| "push_event (EvWithdrawalBounceBack event) self =
     self\<lparr>pe_deposits := pe_deposits self @ [L1WithdrawalBounceBack (from_bounce_back_event event)]\<rparr>"
| "push_event (EvTokenEnabled event) self =
     self\<lparr>pe_enabled_tokens := pe_enabled_tokens self @
       [\<lparr>ot_token = pte_token event, ot_name = pte_name event, ot_symbol = pte_symbol event,
         ot_currency = pte_currency event\<rparr>]\<rparr>"
| "push_event (EvSequencerEncryptionKeyUpdated event) self =
     self\<lparr>pe_encryption_key_rotations := pe_encryption_key_rotations self @
       [\<lparr>kr_x = sku_x event, kr_y_parity = sku_yParity event, kr_pubkey = sku_pubkey event,
         kr_key_index = sku_keyIndex event, kr_activation_block = sku_activationBlock event\<rparr>]\<rparr>"
| "push_event (EvLeaderUpdated event) self =
     self\<lparr>pe_leader_transitions := pe_leader_transitions self @
       [\<lparr>lt_previous_leader = lu_previousLeader event, lt_new_leader = lu_newLeader event,
         lt_epoch = lu_epoch event, lt_activation_tempo_block = lu_activationTempoBlock event\<rparr>]\<rparr>"
| "push_event (EvPortalPaused _) self = self\<lparr>pe_portal_pause := Some True\<rparr>"
| "push_event (EvPortalResumed _) self = self\<lparr>pe_portal_pause := Some False\<rparr>"
| "push_event EvOther self = self"

definition push_log ::
  "portal_abi \<Rightarrow> (chain_log \<Rightarrow> 'e + ZonePortalEvents) \<Rightarrow> chain_log \<Rightarrow> L1PortalEvents \<Rightarrow> 'e + L1PortalEvents"
where
  "push_log pa decode_log log self =
     (if \<not> is_known_event pa log then Inr self
      else rbind (decode_log log) (\<lambda>event. Inr (push_event event self)))"

definition final_leader_transition :: "L1PortalEvents \<Rightarrow> nat + LeaderTransition option" where
  "final_leader_transition self =
     rbind (check (length (pe_leader_transitions self) \<le> 1) (length (pe_leader_transitions self)))
       (\<lambda>_. Inr (case pe_leader_transitions self of [] \<Rightarrow> None | t # _ \<Rightarrow> Some t))"

section \<open>The queue\<close>

record SealedHeader =
  sh_header :: TempoHeader
  sh_hash :: b256

definition sh_number :: "SealedHeader \<Rightarrow> u64" where
  "sh_number h = th_number (sh_header h)"

definition sh_parent_hash :: "SealedHeader \<Rightarrow> b256" where
  "sh_parent_hash h = th_parent_hash (sh_header h)"

definition num_hash :: "SealedHeader \<Rightarrow> BlockNumHash" where
  "num_hash h = \<lparr>bn_number = sh_number h, bn_hash = sh_hash h\<rparr>"

record L1BlockDeposits =
  lb_header :: SealedHeader
  lb_events :: L1PortalEvents

record DeferredPortalWork =
  last_header :: SealedHeader
  event_blocks :: "L1PortalEvents list"

definition push_events :: "L1PortalEvents \<Rightarrow> DeferredPortalWork \<Rightarrow> DeferredPortalWork" where
  "push_events events self =
     (if pe_deposits events \<noteq> [] \<or> pe_enabled_tokens events \<noteq> []
      then self\<lparr>event_blocks := event_blocks self @ [events]\<rparr> else self)"

definition deferred_new :: "L1BlockDeposits \<Rightarrow> DeferredPortalWork" where
  "deferred_new block =
     push_events (lb_events block) \<lparr>last_header = lb_header block, event_blocks = []\<rparr>"

definition last_num_hash :: "DeferredPortalWork \<Rightarrow> BlockNumHash" where
  "last_num_hash self = num_hash (last_header self)"

definition deferred_push :: "L1BlockDeposits \<Rightarrow> DeferredPortalWork \<Rightarrow> DeferredPortalWork" where
  "deferred_push block self = push_events (lb_events block) (self\<lparr>last_header := lb_header block\<rparr>)"

definition aggregated_block :: "DeferredPortalWork \<Rightarrow> L1BlockDeposits" where
  "aggregated_block self =
     \<lparr>lb_header = last_header self, lb_events = fold extend_operational (event_blocks self) no_events\<rparr>"

record PendingDeposits =
  pending :: "L1BlockDeposits list"
  deferred :: "DeferredPortalWork option"
  last_enqueued :: "BlockNumHash option"

definition empty_queue :: PendingDeposits where
  "empty_queue = \<lparr>pending = [], deferred = None, last_enqueued = None\<rparr>"

datatype queue_error =
    OutOfOrder u64 u64
  | ConflictingBlock u64 b256 b256
  | BlockNumberOverflowed
  | NonContiguous u64 u64
  | ParentMismatch u64 b256 b256
  | ConfirmEmpty
  | ConfirmationMismatch BlockNumHash BlockNumHash
  | CheckpointConflict u64 b256 b256
  | DeferredConflict u64 b256 b256
  | NoWork
  | AnchorMismatch BlockNumHash BlockNumHash
  | ConsumedConflict u64 b256 b256
  | SeedNonempty

type_synonym 'a queue_eff = "(PendingDeposits, queue_error, 'a) eff"

definition try_enqueue :: "SealedHeader \<Rightarrow> L1PortalEvents \<Rightarrow> bool queue_eff" where
  "try_enqueue header events self =
     (let block_number = sh_number header; block_hash = sh_hash header;
          appended = (Inr True, self\<lparr>last_enqueued := Some (num_hash header),
            pending := pending self @ [\<lparr>lb_header = header, lb_events = events\<rparr>]\<rparr>) in
      case last_enqueued self of
        None \<Rightarrow> appended
      | Some tip \<Rightarrow>
          if block_number < bn_number tip
          then (Inl (OutOfOrder block_number (bn_number tip)), self)
          else if block_number = bn_number tip
          then (if block_hash = bn_hash tip then (Inr False, self)
                else (Inl (ConflictingBlock block_number (bn_hash tip) block_hash), self))
          else (case checked_add (bn_number tip) 1 of
                 None \<Rightarrow> (Inl BlockNumberOverflowed, self)
               | Some expected \<Rightarrow>
                   if block_number \<noteq> expected then (Inl (NonContiguous expected block_number), self)
                   else if sh_parent_hash header \<noteq> bn_hash tip
                   then (Inl (ParentMismatch block_number (bn_hash tip) (sh_parent_hash header)), self)
                   else appended))"

definition peek :: "PendingDeposits \<Rightarrow> L1BlockDeposits option" where
  "peek self = (case pending self of [] \<Rightarrow> None | b # _ \<Rightarrow> Some b)"

definition peek_headers :: "nat \<Rightarrow> PendingDeposits \<Rightarrow> SealedHeader list" where
  "peek_headers maximum self = map lb_header (take maximum (pending self))"

definition latest_header :: "PendingDeposits \<Rightarrow> SealedHeader option" where
  "latest_header self = (if pending self = [] then None else Some (lb_header (last (pending self))))"

definition confirm :: "BlockNumHash \<Rightarrow> L1BlockDeposits queue_eff" where
  "confirm expected self =
     (case pending self of
        [] \<Rightarrow> (Inl ConfirmEmpty, self)
      | front # rest \<Rightarrow>
          if num_hash (lb_header front) \<noteq> expected
          then (Inl (ConfirmationMismatch expected (num_hash (lb_header front))), self)
          else (Inr front, self\<lparr>pending := rest\<rparr>))"

text \<open>The \<open>expect\<close> in the source is unreachable: the caller has just read the front.\<close>

definition defer_front :: "PendingDeposits \<Rightarrow> PendingDeposits" where
  "defer_front self =
     (case pending self of
        [] \<Rightarrow> self
      | block # rest \<Rightarrow>
          self\<lparr>pending := rest,
               deferred := Some (case deferred self of
                   Some d \<Rightarrow> deferred_push block d | None \<Rightarrow> deferred_new block)\<rparr>)"

text \<open>The two loops run over the front of the queue and stop at the first newer block.\<close>

function defer_loop :: "BlockNumHash \<Rightarrow> unit queue_eff" where
  "defer_loop expected self =
     (case pending self of
        [] \<Rightarrow> (Inr (), self)
      | entry # _ \<Rightarrow>
          let front = num_hash (lb_header entry) in
          if bn_number front \<le> bn_number expected
          then (if bn_number front < bn_number expected \<or> bn_hash front = bn_hash expected
                then defer_loop expected (defer_front self)
                else (Inl (CheckpointConflict (bn_number front) (bn_hash front) (bn_hash expected)), self))
          else (Inr (), self))"
  by pat_completeness auto
termination
  by (relation "measure (\<lambda>(_, self). length (pending self))") (auto simp: defer_front_def)

definition defer_through :: "BlockNumHash \<Rightarrow> unit queue_eff" where
  "defer_through expected self =
     (case defer_loop expected self of
        (Inl e, self') \<Rightarrow> (Inl e, self')
      | (Inr _, self') \<Rightarrow>
          (case deferred self' of
             Some d \<Rightarrow>
               if sh_number (last_header d) = bn_number expected \<and>
                  sh_hash (last_header d) \<noteq> bn_hash expected
               then (Inl (DeferredConflict (bn_number expected) (sh_hash (last_header d))
                       (bn_hash expected)), self')
               else (Inr (), self')
           | None \<Rightarrow> (Inr (), self')))"

definition operational_work :: "PendingDeposits \<Rightarrow> BlockNumHash \<Rightarrow> queue_error + L1BlockDeposits list" where
  "operational_work self expected =
     (case pending self of
        [] \<Rightarrow> Inl NoWork
      | current # _ \<Rightarrow>
          rbind (check (num_hash (lb_header current) = expected)
            (AnchorMismatch expected (num_hash (lb_header current)))) (\<lambda>_.
          Inr ((case deferred self of Some d \<Rightarrow> [aggregated_block d] | None \<Rightarrow> []) @ [current])))"

definition confirm_operational :: "BlockNumHash \<Rightarrow> unit queue_eff" where
  "confirm_operational expected self =
     (case confirm expected self of
        (Inl e, self') \<Rightarrow> (Inl e, self')
      | (Inr _, self') \<Rightarrow> (Inr (), self'\<lparr>deferred := None\<rparr>))"

function confirm_loop :: "BlockNumHash \<Rightarrow> unit queue_eff" where
  "confirm_loop expected self =
     (case pending self of
        [] \<Rightarrow> (Inr (), self)
      | entry # _ \<Rightarrow>
          let front = num_hash (lb_header entry) in
          if bn_number front > bn_number expected then (Inr (), self)
          else if bn_number front < bn_number expected \<or> bn_hash front = bn_hash expected
          then confirm_loop expected (snd (confirm front self))
          else (Inl (ConsumedConflict (bn_number front) (bn_hash front) (bn_hash expected)), self))"
  by pat_completeness auto
termination
  by (relation "measure (\<lambda>(_, self). length (pending self))") (auto simp: confirm_def)

definition confirm_operational_through :: "BlockNumHash \<Rightarrow> unit queue_eff" where
  "confirm_operational_through expected self =
     (case confirm_loop expected self of
        (Inl e, self') \<Rightarrow> (Inl e, self')
      | (Inr _, self') \<Rightarrow>
          (Inr (), case deferred self' of
             Some d \<Rightarrow> if sh_number (last_header d) \<le> bn_number expected
                       then self'\<lparr>deferred := None\<rparr> else self'
           | None \<Rightarrow> self'))"

declare defer_loop.simps [simp del] confirm_loop.simps [simp del]

text \<open>The shared handle: the queue behind its lock, and the permit of its notification.\<close>

record DepositQueue =
  dq_inner :: PendingDeposits
  dq_permit :: bool

definition queue_new :: DepositQueue where
  "queue_new = \<lparr>dq_inner = empty_queue, dq_permit = False\<rparr>"

definition notify_one :: "DepositQueue \<Rightarrow> DepositQueue" where
  "notify_one self = self\<lparr>dq_permit := True\<rparr>"

definition try_enqueue_sealed ::
  "SealedHeader \<Rightarrow> L1PortalEvents \<Rightarrow> (DepositQueue, queue_error, bool) eff" where
  "try_enqueue_sealed header events self =
     (case List.find (\<lambda>queued. sh_number (lb_header queued) = sh_number header)
             (pending (dq_inner self)) of
        Some queued \<Rightarrow>
          if sh_hash (lb_header queued) = sh_hash header then (Inr False, self)
          else (Inl (ConflictingBlock (sh_number header) (sh_hash (lb_header queued))
                  (sh_hash header)), self)
      | None \<Rightarrow>
          (case try_enqueue header events (dq_inner self) of
             (Inl e, q) \<Rightarrow> (Inl e, self\<lparr>dq_inner := q\<rparr>)
           | (Inr appended, q) \<Rightarrow>
               (Inr appended,
                if appended then notify_one (self\<lparr>dq_inner := q\<rparr>) else self\<lparr>dq_inner := q\<rparr>)))"

text \<open>\<open>None\<close> is the panic.\<close>

definition enqueue_sealed ::
  "SealedHeader \<Rightarrow> L1PortalEvents \<Rightarrow> DepositQueue \<Rightarrow> bool option \<times> DepositQueue" where
  "enqueue_sealed header events self =
     (case try_enqueue header events (dq_inner self) of
        (Inl _, q) \<Rightarrow> (None, self\<lparr>dq_inner := q\<rparr>)
      | (Inr appended, q) \<Rightarrow>
          (Some appended,
           if appended then notify_one (self\<lparr>dq_inner := q\<rparr>) else self\<lparr>dq_inner := q\<rparr>))"

definition restore_deferred :: "DeferredPortalWork \<Rightarrow> unit queue_eff" where
  "restore_deferred work self =
     (if pending self = [] \<and> deferred self = None \<and> last_enqueued self = None
      then (Inr (), self\<lparr>last_enqueued := Some (last_num_hash work), deferred := Some work\<rparr>)
      else (Inl SeedNonempty, self))"

section \<open>The queue is one contiguous chain\<close>

definition extends_tip :: "BlockNumHash \<Rightarrow> SealedHeader \<Rightarrow> bool" where
  "extends_tip tip h \<longleftrightarrow>
     unat (sh_number h) = unat (bn_number tip) + 1 \<and> sh_parent_hash h = bn_hash tip"

definition linked_headers :: "SealedHeader list \<Rightarrow> bool" where
  "linked_headers hs = successively (\<lambda>a b. extends_tip (num_hash a) b) hs"

text \<open>
  The pending blocks are linked by number and parent hash and end at the high-water mark; the
  deferred work lies before them.
\<close>

definition queue_wf :: "PendingDeposits \<Rightarrow> bool" where
  "queue_wf q \<longleftrightarrow>
     linked_headers (map lb_header (pending q)) \<and>
     (pending q \<noteq> [] \<longrightarrow> last_enqueued q = Some (num_hash (lb_header (last (pending q))))) \<and>
     (case deferred q of None \<Rightarrow> True | Some d \<Rightarrow>
        (case last_enqueued q of None \<Rightarrow> False
         | Some tip \<Rightarrow> sh_number (last_header d) \<le> bn_number tip) \<and>
        list_all (\<lambda>b. sh_number (last_header d) < sh_number (lb_header b)) (pending q))"

lemma num_hash_sel [simp]: "bn_number (num_hash h) = sh_number h" "bn_hash (num_hash h) = sh_hash h"
  by (simp_all add: num_hash_def)

lemma extends_tip_less: "extends_tip tip h \<Longrightarrow> bn_number tip < sh_number h"
  by (simp add: extends_tip_def word_less_nat_alt)

lemma linked_headers_Cons [simp]:
  "linked_headers (h # hs) \<longleftrightarrow> (hs \<noteq> [] \<longrightarrow> extends_tip (num_hash h) (hd hs)) \<and> linked_headers hs"
  by (cases hs) (auto simp: linked_headers_def)

lemma linked_headers_Nil [simp]: "linked_headers []"
  by (simp add: linked_headers_def)

lemma linked_headers_snoc:
  "linked_headers (hs @ [h]) \<longleftrightarrow>
     linked_headers hs \<and> (hs \<noteq> [] \<longrightarrow> extends_tip (num_hash (last hs)) h)"
  by (auto simp: linked_headers_def successively_append_iff)

lemma linked_headers_increasing:
  "linked_headers (h # hs) \<Longrightarrow> g \<in> set hs \<Longrightarrow> sh_number h < sh_number g"
proof (induction hs arbitrary: h)
  case Nil
  then show ?case by simp
next
  case (Cons a hs)
  then have "sh_number h < sh_number a" using extends_tip_less [of "num_hash h" a] by simp
  with Cons show ?case by (auto intro: less_trans)
qed

lemma list_all_map_header: "list_all (\<lambda>b. P (lb_header b)) bs \<longleftrightarrow> (\<forall>h \<in> set (map lb_header bs). P h)"
  by (auto simp: list_all_iff)

lemma queue_wf_tail:
  assumes "queue_wf q" and "pending q = b # bs"
  shows "list_all (\<lambda>c. sh_number (lb_header b) < sh_number (lb_header c)) bs"
    and "\<exists>tip. last_enqueued q = Some tip \<and> sh_number (lb_header b) \<le> bn_number tip"
proof -
  have l: "linked_headers (lb_header b # map lb_header bs)"
    and e: "last_enqueued q = Some (num_hash (lb_header (last (b # bs))))"
    using assms by (auto simp: queue_wf_def)
  show "list_all (\<lambda>c. sh_number (lb_header b) < sh_number (lb_header c)) bs"
    using linked_headers_increasing [OF l] by (auto simp: list_all_iff)
  then show "\<exists>tip. last_enqueued q = Some tip \<and> sh_number (lb_header b) \<le> bn_number tip"
    using e by (auto simp: list_all_iff less_imp_le)
qed

lemma queue_wf_pop:
  assumes "queue_wf q" and "pending q = b # bs"
  shows "queue_wf (q\<lparr>pending := bs\<rparr>)"
    and "queue_wf (q\<lparr>pending := bs, deferred := Some d\<rparr>) \<longleftrightarrow>
      (case last_enqueued q of None \<Rightarrow> False | Some tip \<Rightarrow> sh_number (last_header d) \<le> bn_number tip) \<and>
      list_all (\<lambda>c. sh_number (last_header d) < sh_number (lb_header c)) bs"
  using assms by (auto simp: queue_wf_def split: option.splits)

lemma queue_wf_release [simp]: "queue_wf q \<Longrightarrow> queue_wf (q\<lparr>deferred := None\<rparr>)"
  by (simp add: queue_wf_def)

lemma last_header_push [simp]:
  "last_header (push_events e d) = last_header d"
  "last_header (deferred_push b d) = lb_header b"
  "last_header (deferred_new b) = lb_header b"
  by (simp_all add: push_events_def deferred_push_def deferred_new_def)

lemma queue_wf_defer_front: "queue_wf q \<Longrightarrow> queue_wf (defer_front q)"
  using queue_wf_tail [of q] queue_wf_pop(2) [of q]
  by (auto simp: defer_front_def split: list.splits option.splits)

lemma queue_wf_try_enqueue:
  assumes "queue_wf q"
  shows "queue_wf (snd (try_enqueue h e q))"
proof (cases "last_enqueued q")
  case None
  then have "pending q = []" "deferred q = None"
    using assms by (auto simp: queue_wf_def split: option.splits)
  with None show ?thesis by (simp add: try_enqueue_def queue_wf_def)
next
  case (Some tip)
  have "queue_wf (q\<lparr>last_enqueued := Some (num_hash h), pending := pending q @ [\<lparr>lb_header = h, lb_events = e\<rparr>]\<rparr>)"
    if "extends_tip tip h"
  proof -
    have "bn_number tip < sh_number h" using extends_tip_less [OF that] .
    then show ?thesis using assms that Some
      by (auto simp: queue_wf_def linked_headers_snoc last_map split: option.splits)
  qed
  then show ?thesis using Some assms
    by (auto simp: try_enqueue_def extends_tip_def Let_def dest: checked_add_Some split: option.splits)
qed

lemma queue_wf_confirm: "queue_wf q \<Longrightarrow> queue_wf (snd (confirm n q))"
  using queue_wf_pop(1) by (auto simp: confirm_def split: list.splits)

lemma queue_wf_defer_loop: "queue_wf q \<Longrightarrow> queue_wf (snd (defer_loop n q))"
proof (induction n q rule: defer_loop.induct)
  case (1 n q)
  then show ?case
    by (subst defer_loop.simps) (auto simp: Let_def queue_wf_defer_front split: list.splits)
qed

lemma queue_wf_confirm_loop: "queue_wf q \<Longrightarrow> queue_wf (snd (confirm_loop n q))"
proof (induction n q rule: confirm_loop.induct)
  case (1 n q)
  then show ?case
    by (subst confirm_loop.simps) (auto simp: Let_def queue_wf_confirm split: list.splits)
qed

text \<open>The public operations of the handle, as one step each.\<close>

datatype queue_op =
    OpTryEnqueueSealed SealedHeader L1PortalEvents
  | OpEnqueueSealed SealedHeader L1PortalEvents
  | OpConfirm BlockNumHash
  | OpDeferThrough BlockNumHash
  | OpConfirmOperational BlockNumHash
  | OpConfirmOperationalThrough BlockNumHash
  | OpRestoreDeferred DeferredPortalWork
  | OpNotified

definition on_inner :: "(PendingDeposits \<Rightarrow> PendingDeposits) \<Rightarrow> DepositQueue \<Rightarrow> DepositQueue" where
  "on_inner f self = self\<lparr>dq_inner := f (dq_inner self)\<rparr>"

fun queue_exec :: "queue_op \<Rightarrow> DepositQueue \<Rightarrow> DepositQueue" where
  "queue_exec (OpTryEnqueueSealed h e) q = snd (try_enqueue_sealed h e q)"
| "queue_exec (OpEnqueueSealed h e) q = snd (enqueue_sealed h e q)"
| "queue_exec (OpConfirm n) q = on_inner (\<lambda>s. snd (confirm n s)) q"
| "queue_exec (OpDeferThrough n) q = on_inner (\<lambda>s. snd (defer_through n s)) q"
| "queue_exec (OpConfirmOperational n) q = on_inner (\<lambda>s. snd (confirm_operational n s)) q"
| "queue_exec (OpConfirmOperationalThrough n) q = on_inner (\<lambda>s. snd (confirm_operational_through n s)) q"
| "queue_exec (OpRestoreDeferred d) q = on_inner (\<lambda>s. snd (restore_deferred d s)) q"
| "queue_exec OpNotified q = q\<lparr>dq_permit := False\<rparr>"

lemma snd_defer_through [simp]: "snd (defer_through n q) = snd (defer_loop n q)"
  by (auto simp: defer_through_def split: prod.splits sum.splits option.splits)

lemma queue_wf_confirm_operational: "queue_wf q \<Longrightarrow> queue_wf (snd (confirm_operational n q))"
  using queue_wf_confirm [of q n]
  by (auto simp: confirm_operational_def split: prod.splits sum.splits)

lemma queue_wf_confirm_operational_through:
  "queue_wf q \<Longrightarrow> queue_wf (snd (confirm_operational_through n q))"
  using queue_wf_confirm_loop [of q n]
  by (auto simp: confirm_operational_through_def split: prod.splits sum.splits option.splits)

lemma queue_wf_restore: "queue_wf q \<Longrightarrow> queue_wf (snd (restore_deferred d q))"
  by (auto simp: restore_deferred_def) (simp add: queue_wf_def last_num_hash_def)

lemma dq_inner_notify [simp]: "dq_inner (notify_one q) = dq_inner q"
  by (simp add: notify_one_def)

lemma enqueue_sealed_inner:
  "dq_inner (snd (enqueue_sealed h e q)) = snd (try_enqueue h e (dq_inner q))"
  by (auto simp: enqueue_sealed_def split: prod.splits sum.splits)

lemma try_enqueue_sealed_inner:
  "dq_inner (snd (try_enqueue_sealed h e q)) = dq_inner q \<or>
   dq_inner (snd (try_enqueue_sealed h e q)) = snd (try_enqueue h e (dq_inner q))"
  by (auto simp: try_enqueue_sealed_def split: prod.splits sum.splits option.splits)

lemma queue_exec_wf: "queue_wf (dq_inner q) \<Longrightarrow> queue_wf (dq_inner (queue_exec op q))"
  using try_enqueue_sealed_inner
  by (cases op) (auto simp: on_inner_def enqueue_sealed_inner queue_wf_try_enqueue queue_wf_confirm
      queue_wf_defer_loop queue_wf_confirm_operational queue_wf_confirm_operational_through
      queue_wf_restore, metis queue_wf_try_enqueue)

interpretation l1_queue: op_system queue_exec "\<lambda>q. queue_wf (dq_inner q)"
  by unfold_locales (rule queue_exec_wf)


section \<open>No portal work is lost, duplicated or reordered\<close>

text \<open>The deposits (or token enablements) a queue still owes to the zone, oldest first.\<close>

definition work_of :: "(L1PortalEvents \<Rightarrow> 'a list) \<Rightarrow> L1BlockDeposits list \<Rightarrow> 'a list" where
  "work_of f bs = concat (map (\<lambda>b. f (lb_events b)) bs)"

definition owed :: "(L1PortalEvents \<Rightarrow> 'a list) \<Rightarrow> PendingDeposits \<Rightarrow> 'a list" where
  "owed f q =
     (case deferred q of None \<Rightarrow> [] | Some d \<Rightarrow> concat (map f (event_blocks d))) @
     work_of f (pending q)"

text \<open>The two kinds of work: both are empty in the events a deferral drops.\<close>

definition portal_work :: "(L1PortalEvents \<Rightarrow> 'a list) \<Rightarrow> bool" where
  "portal_work f \<longleftrightarrow>
     (\<forall>e. pe_deposits e = [] \<longrightarrow> pe_enabled_tokens e = [] \<longrightarrow> f e = []) \<and>
     (\<forall>e e'. f (extend_operational e' e) = f e @ f e')"

lemma portal_work_kinds [simp]: "portal_work pe_deposits" "portal_work pe_enabled_tokens"
  by (simp_all add: portal_work_def extend_operational_def)

lemma portal_work_no_events: "portal_work f \<Longrightarrow> f no_events = []"
  by (simp add: portal_work_def no_events_def)

lemma work_of_simps [simp]:
  "work_of f [] = []"
  "work_of f (b # bs) = f (lb_events b) @ work_of f bs"
  "work_of f (bs @ cs) = work_of f bs @ work_of f cs"
  by (simp_all add: work_of_def)

lemma concat_push_events:
  "portal_work f \<Longrightarrow>
     concat (map f (event_blocks (push_events e d))) = concat (map f (event_blocks d)) @ f e"
  by (auto simp: push_events_def portal_work_def)

lemma owed_defer_front: "portal_work f \<Longrightarrow> owed f (defer_front q) = owed f q"
  by (auto simp: owed_def defer_front_def deferred_push_def deferred_new_def concat_push_events
      split: list.splits option.splits)

lemma owed_defer_loop: "portal_work f \<Longrightarrow> owed f (snd (defer_loop n q)) = owed f q"
proof (induction n q rule: defer_loop.induct)
  case (1 n q)
  then show ?case
    by (subst defer_loop.simps) (auto simp: Let_def owed_defer_front split: list.splits)
qed

lemma aggregated_work:
  assumes "portal_work f"
  shows "f (lb_events (aggregated_block d)) = concat (map f (event_blocks d))"
proof -
  have "f (fold extend_operational es e) = f e @ concat (map f es)" for es e
    using assms by (induction es arbitrary: e) (auto simp: portal_work_def)
  then show ?thesis using portal_work_no_events [OF assms] by (simp add: aggregated_block_def)
qed

lemma owed_try_enqueue:
  "owed f (snd (try_enqueue h e q)) =
     owed f q @ (if fst (try_enqueue h e q) = Inr True then f e else [])"
  by (auto simp: try_enqueue_def owed_def Let_def split: option.splits)

lemma owed_try_enqueue_sealed:
  "owed f (dq_inner (snd (try_enqueue_sealed h e q))) =
     owed f (dq_inner q) @ (if fst (try_enqueue_sealed h e q) = Inr True then f e else [])"
  using owed_try_enqueue [of f h e "dq_inner q"]
  by (auto simp: try_enqueue_sealed_def split: prod.splits sum.splits option.splits)

lemma confirm_delivers:
  assumes "portal_work f" and "operational_work q n = Inr work"
    and "confirm_operational n q = (r, q')"
  shows "r = Inr () \<and> work_of f work @ owed f q' = owed f q"
  using assms(2,3) aggregated_work [OF assms(1)]
  by (auto simp: operational_work_def confirm_operational_def confirm_def owed_def
      split: list.splits option.splits if_splits)

text \<open>The loops, when they succeed, stop at the first block above the anchor.\<close>

lemma confirm_loop_ok:
  "confirm_loop n q = (Inr (), q') \<Longrightarrow>
     q' = q\<lparr>pending := dropWhile (\<lambda>b. sh_number (lb_header b) \<le> bn_number n) (pending q)\<rparr>"
proof (induction n q rule: confirm_loop.induct)
  case (1 n q)
  show ?case
  proof (cases "pending q")
    case Nil
    then show ?thesis using 1(2) by (simp add: confirm_loop.simps [of n q])
  next
    case (Cons b bs)
    have step: "snd (confirm (num_hash (lb_header b)) q) = q\<lparr>pending := bs\<rparr>"
      using Cons by (simp add: confirm_def)
    have same: "q\<lparr>pending := b # bs\<rparr> = q" using Cons by (cases q) simp
    consider "\<not> sh_number (lb_header b) \<le> bn_number n" "q' = q"
      | "sh_number (lb_header b) \<le> bn_number n" "q' = q\<lparr>pending := dropWhile (\<lambda>b. sh_number (lb_header b) \<le> bn_number n) bs\<rparr>"
      using 1(2) 1(1) [OF Cons refl, unfolded step]
      by (subst (asm) confirm_loop.simps) (auto simp: Let_def Cons step split: if_splits)
    then show ?thesis using Cons same by cases simp_all
  qed
qed

lemma defer_loop_ok:
  "defer_loop n q = (Inr (), q') \<Longrightarrow>
     pending q' = dropWhile (\<lambda>b. sh_number (lb_header b) \<le> bn_number n) (pending q)"
proof (induction n q rule: defer_loop.induct)
  case (1 n q)
  show ?case
  proof (cases "pending q")
    case Nil
    then show ?thesis using 1(2) by (simp add: defer_loop.simps [of n q])
  next
    case (Cons b bs)
    have step: "pending (defer_front q) = bs" using Cons by (simp add: defer_front_def)
    consider "\<not> sh_number (lb_header b) \<le> bn_number n" "q' = q"
      | "sh_number (lb_header b) \<le> bn_number n" "pending q' = dropWhile (\<lambda>b. sh_number (lb_header b) \<le> bn_number n) bs"
      using 1(2) 1(1) [OF Cons refl, unfolded step]
      by (subst (asm) defer_loop.simps) (auto simp: Let_def Cons step split: if_splits)
    then show ?thesis using Cons by cases simp_all
  qed
qed

lemma confirm_loop_newer:
  "list_all (\<lambda>b. bn_number n < sh_number (lb_header b)) (pending q) \<Longrightarrow> confirm_loop n q = (Inr (), q)"
  by (subst confirm_loop.simps) (auto simp: Let_def split: list.splits)

lemma defer_loop_newer:
  "list_all (\<lambda>b. bn_number n < sh_number (lb_header b)) (pending q) \<Longrightarrow> defer_loop n q = (Inr (), q)"
  by (subst defer_loop.simps) (auto simp: Let_def not_le split: list.splits)

lemma queue_wf_increasing:
  assumes "queue_wf q" and "pending q = bs @ c # cs"
  shows "list_all (\<lambda>b. sh_number (lb_header c) < sh_number (lb_header b)) cs"
proof -
  have "linked_headers (map lb_header bs @ map lb_header (c # cs))"
    using assms by (simp add: queue_wf_def)
  then have "linked_headers (map lb_header (c # cs))"
    by (simp add: linked_headers_def successively_append_iff del: list.map)
  then show ?thesis using linked_headers_increasing [of "lb_header c" "map lb_header cs"]
    by (auto simp: list_all_iff)
qed

lemma drop_older_newer:
  assumes "queue_wf q" and "bs = dropWhile (\<lambda>b. sh_number (lb_header b) \<le> n) (pending q)"
  shows "list_all (\<lambda>b. n < sh_number (lb_header b)) bs"
proof (cases bs)
  case Nil
  then show ?thesis by simp
next
  case (Cons c cs)
  then have "n < sh_number (lb_header c)"
    using assms(2) by (metis dropWhile_eq_Cons_conv not_le)
  moreover have "pending q = takeWhile (\<lambda>b. sh_number (lb_header b) \<le> n) (pending q) @ c # cs"
    using assms(2) Cons by (metis takeWhile_dropWhile_id)
  ultimately show ?thesis
    using queue_wf_increasing [OF assms(1)] Cons by (auto simp: list_all_iff intro: less_trans)
qed

text \<open>Confirming through the front block is confirming it.\<close>

lemma confirm_through_front:
  assumes "queue_wf q" and "pending q = b # bs" and "num_hash (lb_header b) = n"
  shows "confirm_operational_through n q = confirm_operational n q"
proof -
  have newer: "list_all (\<lambda>c. bn_number n < sh_number (lb_header c)) bs"
    using queue_wf_tail(1) [OF assms(1,2)] assms(3) by auto
  have "confirm_loop n q = confirm_loop n (q\<lparr>pending := bs\<rparr>)"
    using assms(2,3) by (subst confirm_loop.simps) (auto simp: Let_def confirm_def)
  also have "\<dots> = (Inr (), q\<lparr>pending := bs\<rparr>)"
    using newer by (simp add: confirm_loop_newer)
  finally have loop: "confirm_loop n q = (Inr (), q\<lparr>pending := bs\<rparr>)" .
  show ?thesis
  proof (cases "deferred q")
    case None
    then have "q\<lparr>pending := bs, deferred := None\<rparr> = q\<lparr>pending := bs\<rparr>" by (cases q) simp
    then show ?thesis using loop None assms(2,3)
      by (simp add: confirm_operational_through_def confirm_operational_def confirm_def)
  next
    case (Some d)
    then have "sh_number (last_header d) \<le> bn_number n"
      using assms by (auto simp: queue_wf_def split: option.splits)
    then show ?thesis using loop Some assms(2,3)
      by (simp add: confirm_operational_through_def confirm_operational_def confirm_def)
  qed
qed

section \<open>Runs of a node\<close>

text \<open>
  What the subscriber, the block-producing engine (\<open>ZoneEngine::advance\<close>) and the follower
  (\<open>import_peer_block\<close>) do with the queue: a full block reads the operational work for its anchor
  before it is executed and confirms it afterwards; a checkpoint-only block defers. The trace keeps
  the events that entered the queue and the blocks handed to full zone blocks.
\<close>

datatype node_step =
    Observe SealedHeader L1PortalEvents
  | CheckpointBlock BlockNumHash
  | FullBlock BlockNumHash
  | PeerFullBlock BlockNumHash

record node_trace =
  nt_queue :: DepositQueue
  nt_observed :: "L1PortalEvents list"
  nt_delivered :: "L1BlockDeposits list"

definition full_block ::
  "(BlockNumHash \<Rightarrow> unit queue_eff) \<Rightarrow> BlockNumHash \<Rightarrow> node_trace \<Rightarrow> node_trace" where
  "full_block consume at_block t =
     (case operational_work (dq_inner (nt_queue t)) at_block of
        Inl _ \<Rightarrow> t
      | Inr work \<Rightarrow>
          (case consume at_block (dq_inner (nt_queue t)) of
             (Inl _, q) \<Rightarrow> t\<lparr>nt_queue := (nt_queue t)\<lparr>dq_inner := q\<rparr>\<rparr>
           | (Inr _, q) \<Rightarrow> t\<lparr>nt_queue := (nt_queue t)\<lparr>dq_inner := q\<rparr>,
                             nt_delivered := nt_delivered t @ work\<rparr>))"

fun node_exec :: "node_step \<Rightarrow> node_trace \<Rightarrow> node_trace" where
  "node_exec (Observe h e) t =
     (case try_enqueue_sealed h e (nt_queue t) of
        (Inr True, q) \<Rightarrow> t\<lparr>nt_queue := q, nt_observed := nt_observed t @ [e]\<rparr>
      | (_, q) \<Rightarrow> t\<lparr>nt_queue := q\<rparr>)"
| "node_exec (CheckpointBlock at_block) t = t\<lparr>nt_queue := queue_exec (OpDeferThrough at_block) (nt_queue t)\<rparr>"
| "node_exec (FullBlock at_block) t = full_block confirm_operational at_block t"
| "node_exec (PeerFullBlock at_block) t = full_block confirm_operational_through at_block t"

definition accounted :: "(L1PortalEvents \<Rightarrow> 'a list) \<Rightarrow> node_trace \<Rightarrow> bool" where
  "accounted f t \<longleftrightarrow>
     work_of f (nt_delivered t) @ owed f (dq_inner (nt_queue t)) = concat (map f (nt_observed t))"

definition node_inv :: "node_trace \<Rightarrow> bool" where
  "node_inv t \<longleftrightarrow> queue_wf (dq_inner (nt_queue t)) \<and> accounted pe_deposits t \<and> accounted pe_enabled_tokens t"

lemma operational_work_front:
  "operational_work q n = Inr work \<Longrightarrow> \<exists>b bs. pending q = b # bs \<and> num_hash (lb_header b) = n"
  by (auto simp: operational_work_def split: list.splits)

lemma full_block_accounted:
  assumes "portal_work f" and "accounted f t"
    and "\<And>work. operational_work (dq_inner (nt_queue t)) n = Inr work \<Longrightarrow>
           consume n (dq_inner (nt_queue t)) = confirm_operational n (dq_inner (nt_queue t))"
  shows "accounted f (full_block consume n t)"
proof (cases "operational_work (dq_inner (nt_queue t)) n")
  case (Inl e)
  then show ?thesis using assms(2) by (simp add: full_block_def)
next
  case (Inr work)
  obtain r q where c: "confirm_operational n (dq_inner (nt_queue t)) = (r, q)"
    by (cases "confirm_operational n (dq_inner (nt_queue t))")
  from confirm_delivers [OF assms(1) Inr c] have "r = Inr ()"
    and w: "owed f (dq_inner (nt_queue t)) = work_of f work @ owed f q" by simp_all
  then show ?thesis using assms(2) Inr c assms(3) [OF Inr] by (simp add: full_block_def accounted_def)
qed

lemma full_block_wf:
  assumes "\<And>q. queue_wf q \<Longrightarrow> queue_wf (snd (consume n q))" and "queue_wf (dq_inner (nt_queue t))"
  shows "queue_wf (dq_inner (nt_queue (full_block consume n t)))"
  using assms(1) [OF assms(2)] assms(2) by (auto simp: full_block_def split: sum.splits prod.splits)

lemma accounted_step:
  assumes "portal_work f" and "accounted f t" and "queue_wf (dq_inner (nt_queue t))"
  shows "accounted f (node_exec s t)"
proof (cases s)
  case (Observe h e)
  then show ?thesis
    using assms(2) owed_try_enqueue_sealed [of f h e "nt_queue t"]
    by (auto simp: accounted_def split: prod.splits sum.splits bool.splits)
next
  case (CheckpointBlock n)
  then show ?thesis using assms by (simp add: accounted_def on_inner_def owed_defer_loop)
next
  case (FullBlock n)
  then show ?thesis using full_block_accounted [OF assms(1,2)] by simp
next
  case (PeerFullBlock n)
  have "confirm_operational_through n (dq_inner (nt_queue t)) = confirm_operational n (dq_inner (nt_queue t))"
    if "operational_work (dq_inner (nt_queue t)) n = Inr work" for work
    using operational_work_front [OF that] confirm_through_front [OF assms(3)] by blast
  then show ?thesis using full_block_accounted [OF assms(1,2)] PeerFullBlock by simp
qed

lemma node_exec_queue_wf:
  assumes "queue_wf (dq_inner (nt_queue t))"
  shows "queue_wf (dq_inner (nt_queue (node_exec s t)))"
proof (cases s)
  case (Observe h e)
  then show ?thesis using queue_exec_wf [OF assms, of "OpTryEnqueueSealed h e"]
    by (auto split: prod.splits sum.splits bool.splits)
next
  case (CheckpointBlock n)
  then show ?thesis using queue_exec_wf [OF assms, of "OpDeferThrough n"] by simp
next
  case (FullBlock n)
  then show ?thesis using full_block_wf [OF queue_wf_confirm_operational assms] by simp
next
  case (PeerFullBlock n)
  then show ?thesis using full_block_wf [OF queue_wf_confirm_operational_through assms] by simp
qed

interpretation node: op_system node_exec node_inv
  by unfold_locales (simp add: node_inv_def accounted_step node_exec_queue_wf)

definition node_new :: node_trace where
  "node_new = \<lparr>nt_queue = queue_new, nt_observed = [], nt_delivered = []\<rparr>"

text \<open>
  C35. No portal work is lost, duplicated or reordered between L1 and the zone. After any run of a
  node, in which blocks are observed, zone blocks produced or imported and any of these attempts may
  fail, the deposits handed to full zone blocks followed by those the queue still owes are exactly
  the deposits of the observed blocks in order, and likewise for the token enablements.
\<close>

theorem portal_work_delivered_once:
  "let t = fold node_exec steps node_new in
     work_of pe_deposits (nt_delivered t) @ owed pe_deposits (dq_inner (nt_queue t))
       = concat (map pe_deposits (nt_observed t)) \<and>
     work_of pe_enabled_tokens (nt_delivered t) @ owed pe_enabled_tokens (dq_inner (nt_queue t))
       = concat (map pe_enabled_tokens (nt_observed t))"
proof -
  have "node_inv node_new"
    by (simp add: node_inv_def node_new_def queue_new_def empty_queue_def queue_wf_def accounted_def owed_def)
  from node.run_inv [OF this, of steps] show ?thesis
    by (simp add: node_inv_def accounted_def Let_def)
qed

end
