(* ===== verification/L1_Import.thy ===== *)
theory L1_Import
  imports Deposit_Queue Zone_Inbox BTree_Map "HOL-Library.Product_Lexorder"
begin

text \<open>
  From the queue to the zone: the ring of decryption keys (\<open>crates/l1/src/encryption_keys.rs\<close>), the
  preparation of an \<open>advanceTempo\<close> call from queued L1 blocks (\<open>crates/l1/src/block.rs\<close>), and the
  checks a follower makes on a peer block's import against its own queue
  (\<open>crates/node/src/follower.rs\<close>). The last section composes them with the zone inbox.
\<close>

section \<open>Decryption keys\<close>

record EncryptionKeys =
  candidates :: "(b256 \<times> u8, scalar) btree"
  by_index :: "(u256, scalar) btree"

datatype key_error =
    MissingPrivateKey u256 u64
  | BoundToDifferentKey u256
  | NoKeyBound u256

definition public_key :: "crypto_ops \<Rightarrow> scalar \<Rightarrow> b256 \<times> u8" where
  "public_key co k = compressed_x_and_parity co (co_mul co (co_generator co) k)"

definition empty_ring :: EncryptionKeys where
  "empty_ring = \<lparr>candidates = [], by_index = []\<rparr>"

definition add_candidate :: "crypto_ops \<Rightarrow> scalar \<Rightarrow> EncryptionKeys \<Rightarrow> EncryptionKeys" where
  "add_candidate co k ring = ring\<lparr>candidates := bt_insert (public_key co k) k (candidates ring)\<rparr>"

definition ring_new :: "crypto_ops \<Rightarrow> scalar list \<Rightarrow> EncryptionKeys" where
  "ring_new co ks = fold (add_candidate co) ks empty_ring"

definition apply_rotation ::
  "crypto_ops \<Rightarrow> EncryptionKeyRotation \<Rightarrow> (EncryptionKeys, key_error, unit) eff" where
  "apply_rotation co rotation keys =
     (let public = (kr_x rotation, kr_y_parity rotation) in
      case bt_get (candidates keys) public of
        None \<Rightarrow> (Inl (MissingPrivateKey (kr_key_index rotation) (kr_activation_block rotation)), keys)
      | Some key \<Rightarrow>
          (case bt_get (by_index keys) (kr_key_index rotation) of
             Some existing \<Rightarrow>
               if public_key co existing = public then (Inr (), keys)
               else (Inl (BoundToDifferentKey (kr_key_index rotation)), keys)
           | None \<Rightarrow>
               (Inr (), keys\<lparr>by_index := bt_insert (kr_key_index rotation) key (by_index keys)\<rparr>)))"

definition ring_key :: "EncryptionKeys \<Rightarrow> u256 \<Rightarrow> key_error + scalar" where
  "ring_key keys key_index = ok_or (bt_get (by_index keys) key_index) (NoKeyBound key_index)"

definition has_candidate :: "EncryptionKeys \<Rightarrow> b256 \<Rightarrow> u8 \<Rightarrow> bool" where
  "has_candidate keys x y_parity = bt_contains (candidates keys) (x, y_parity)"

record EncryptionKeyPublicStatus =
  ks_candidates :: "(b256 \<times> u8) list"
  ks_bound :: "(u256 \<times> b256 \<times> u8) list"

definition public_status :: "crypto_ops \<Rightarrow> EncryptionKeys \<Rightarrow> EncryptionKeyPublicStatus" where
  "public_status co keys =
     \<lparr>ks_candidates = bt_keys (candidates keys),
      ks_bound = map (\<lambda>(i, k). (i, public_key co k)) (by_index keys)\<rparr>"

subsection \<open>Bindings are append-only and match the portal\<close>

datatype ring_op = AddCandidate scalar | ApplyRotation EncryptionKeyRotation

fun ring_exec :: "crypto_ops \<Rightarrow> ring_op \<Rightarrow> EncryptionKeys \<Rightarrow> EncryptionKeys" where
  "ring_exec co (AddCandidate k) keys = add_candidate co k keys"
| "ring_exec co (ApplyRotation r) keys = snd (apply_rotation co r keys)"

definition ring_wf :: "crypto_ops \<Rightarrow> EncryptionKeys \<Rightarrow> bool" where
  "ring_wf co keys \<longleftrightarrow>
     bt_invar (candidates keys) \<and> bt_invar (by_index keys) \<and>
     (\<forall>(p, k) \<in> set (candidates keys). public_key co k = p)"

definition bindings_kept :: "EncryptionKeys \<Rightarrow> EncryptionKeys \<Rightarrow> bool" where
  "bindings_kept keys keys' \<longleftrightarrow>
     (\<forall>i k. bt_get (by_index keys) i = Some k \<longrightarrow> bt_get (by_index keys') i = Some k)"

lemma ring_wf_add: "ring_wf co keys \<Longrightarrow> ring_wf co (add_candidate co k keys)"
  by (fastforce simp: ring_wf_def add_candidate_def bt_invars dest: set_bt_insert)

lemma apply_rotation_wf: "ring_wf co keys \<Longrightarrow> ring_wf co (snd (apply_rotation co r keys))"
  by (auto simp: ring_wf_def apply_rotation_def Let_def bt_invars split: option.splits)

interpretation keys: progress_system "ring_exec co" "ring_wf co" bindings_kept for co
proof
  fix s :: EncryptionKeys and op :: ring_op
  assume "ring_wf co s"
  then show "ring_wf co (ring_exec co op s)"
    by (cases op) (simp_all add: ring_wf_add apply_rotation_wf)
  show "bindings_kept s (ring_exec co op s)"
    by (cases op) (auto simp: bindings_kept_def add_candidate_def apply_rotation_def Let_def bt_laws
        split: option.splits)
qed (auto simp: bindings_kept_def)

lemma ring_wf_empty: "ring_wf co empty_ring"
  by (simp add: ring_wf_def empty_ring_def bt_invars)

lemma rotation_binds:
  assumes "ring_wf co keys" and "apply_rotation co r keys = (Inr (), keys')"
  shows "\<exists>k. bt_get (by_index keys') (kr_key_index r) = Some k
    \<and> public_key co k = (kr_x r, kr_y_parity r)"
  using assms
  by (auto simp: apply_rotation_def Let_def ring_wf_def bt_laws split: option.splits if_splits
      dest!: bt_get_Some_mem)

text \<open>
  A key index that the portal registered is decrypted with the registered key, for good: when a
  rotation is accepted at some point of the ring's life, the index answers from then on, whatever
  candidates and rotations follow, with one private key whose public key is the registered one.
\<close>

lemma registered_key_stays_bound:
  assumes "apply_rotation co r (fold (ring_exec co) before empty_ring) = (Inr (), keys)"
  shows "\<exists>k. public_key co k = (kr_x r, kr_y_parity r) \<and>
    (\<forall>after. ring_key (fold (ring_exec co) after keys) (kr_key_index r) = Inr k)"
proof -
  have wf: "ring_wf co (fold (ring_exec co) before empty_ring)"
    by (rule keys.run_inv [OF ring_wf_empty])
  obtain k where k: "bt_get (by_index keys) (kr_key_index r) = Some k" "public_key co k = (kr_x r, kr_y_parity r)"
    using rotation_binds [OF wf assms] by blast
  have "ring_wf co keys" using apply_rotation_wf [OF wf, of r] assms by simp
  then have "bindings_kept keys (fold (ring_exec co) after keys)" for after
    by (rule keys.run_below)
  then have "ring_key (fold (ring_exec co) after keys) (kr_key_index r) = Inr k" for after
    using k(1) by (simp add: bindings_kept_def ring_key_def)
  then show ?thesis using k(2) by blast
qed

section \<open>Preparing an import\<close>

definition MIN_PARALLEL_DEPOSITS :: nat where
  "MIN_PARALLEL_DEPOSITS = 10"

definition MAX_UNPROCESSED_DEPOSITS :: nat where
  "MAX_UNPROCESSED_DEPOSITS = 230"

definition MAX_UNPROCESSED_TOKEN_ENABLEMENTS :: nat where
  "MAX_UNPROCESSED_TOKEN_ENABLEMENTS = 8"

record PreparedL1Block =
  pb_header :: SealedHeader
  pb_queued_deposits :: "QueuedDeposit list"
  pb_decryptions :: "DecryptionData list"
  pb_enabled_tokens :: "EnabledToken list"
  pb_follows_checkpoint_blocks :: bool

datatype prepare_error =
    EmptyRange
  | KeyError key_error
  | PreparePanic
  | TooManyDeposits
  | TooManyEnablements

definition proof_data :: "EcdhProofResult \<Rightarrow> DecryptionData" where
  "proof_data p = \<lparr>dec_sharedSecret = ep_shared_secret p,
     dec_sharedSecretYParity = ep_shared_secret_y_parity p, dec_cpProof = ep_cp_proof p\<rparr>"

definition zeroed_decryption :: DecryptionData where
  "zeroed_decryption = \<lparr>dec_sharedSecret = 0, dec_sharedSecretYParity = 2, dec_cpProof = \<lparr>cp_s = 0, cp_c = 0\<rparr>\<rparr>"

text \<open>\<open>None\<close> is the panic of the \<open>expect\<close>.\<close>

fun prepare_deposit ::
  "crypto_ops \<Rightarrow> deposit_abi \<Rightarrow> address \<Rightarrow> (u256, scalar) btree \<Rightarrow> L1Deposit
   \<Rightarrow> (QueuedDeposit \<times> DecryptionData option) option" where
  "prepare_deposit co abi portal_address keys (L1WithdrawalBounceBack d) =
     Some (to_abi_queued_deposit abi (L1WithdrawalBounceBack d), None)"
| "prepare_deposit co abi portal_address keys (L1UserDeposit d) =
     (case bt_get keys (od_key_index d) of
        None \<Rightarrow> None
      | Some decryption_key \<Rightarrow>
          let queued = to_abi_queued_deposit abi (L1UserDeposit d) in
          (case decrypt_deposit co decryption_key (od_ephemeral_pubkey_x d)
                  (od_ephemeral_pubkey_y_parity d) (od_ciphertext d) (od_nonce d) (od_tag d)
                  portal_address (od_key_index d) (od_sender d) of
             Some dec \<Rightarrow> Some (queued, Some (proof_data (dd_proof dec)))
           | None \<Rightarrow>
               (case compute_ecdh_proof co decryption_key (od_ephemeral_pubkey_x d)
                       (od_ephemeral_pubkey_y_parity d) of
                  Some proof \<Rightarrow> Some (queued, Some (proof_data proof))
                | None \<Rightarrow> Some (queued, Some zeroed_decryption))))"

text \<open>The keys of the deposits, resolved in deposit order, and the number of user deposits.\<close>

fun resolve_key ::
  "EncryptionKeys \<Rightarrow> L1Deposit \<Rightarrow> (u256, scalar) btree \<times> nat \<Rightarrow> key_error + (u256, scalar) btree \<times> nat" where
  "resolve_key ring (L1WithdrawalBounceBack d) (keys, n) = Inr (keys, n)"
| "resolve_key ring (L1UserDeposit d) (keys, n) =
     (if bt_contains keys (od_key_index d) then Inr (keys, n + 1)
      else rbind (ring_key ring (od_key_index d)) (\<lambda>k.
        Inr (bt_insert (od_key_index d) k keys, n + 1)))"

text \<open>
  A Rayon \<open>par_iter\<close> collects in order, so both branches compute the same list; the branch is
  kept because the source has it.
\<close>

definition prepare ::
  "crypto_ops \<Rightarrow> deposit_abi \<Rightarrow> EncryptionKeys \<Rightarrow> address \<Rightarrow> L1BlockDeposits
   \<Rightarrow> prepare_error + PreparedL1Block" where
  "prepare co abi encryption_keys portal_address self =
     (let ds = pe_deposits (lb_events self);
          one = (\<lambda>keys d. ok_or (prepare_deposit co abi portal_address keys d) PreparePanic) in
      rbind (map_err KeyError (try_fold (resolve_key encryption_keys) ds ([], 0)))
        (\<lambda>(keys, encrypted_deposits).
      rbind (if encrypted_deposits < MIN_PARALLEL_DEPOSITS then try_map (one keys) ds
             else try_map (one keys) ds) (\<lambda>prepared.
      Inr \<lparr>pb_header = lb_header self,
           pb_queued_deposits = map fst prepared,
           pb_decryptions = concat (map (\<lambda>p. case snd p of None \<Rightarrow> [] | Some d \<Rightarrow> [d]) prepared),
           pb_enabled_tokens = map to_abi (pe_enabled_tokens (lb_events self)),
           pb_follows_checkpoint_blocks = False\<rparr>)))"

definition extend_prepared :: "PreparedL1Block \<Rightarrow> PreparedL1Block \<Rightarrow> PreparedL1Block" where
  "extend_prepared prepared next_block =
     prepared\<lparr>pb_header := pb_header next_block,
       pb_queued_deposits := pb_queued_deposits prepared @ pb_queued_deposits next_block,
       pb_decryptions := pb_decryptions prepared @ pb_decryptions next_block,
       pb_enabled_tokens := pb_enabled_tokens prepared @ pb_enabled_tokens next_block\<rparr>"

definition prepare_many ::
  "crypto_ops \<Rightarrow> deposit_abi \<Rightarrow> EncryptionKeys \<Rightarrow> address \<Rightarrow> L1BlockDeposits list
   \<Rightarrow> prepare_error + PreparedL1Block" where
  "prepare_many co abi encryption_keys portal_address blocks =
     (case blocks of
        [] \<Rightarrow> Inl EmptyRange
      | b # bs \<Rightarrow>
          rbind (prepare co abi encryption_keys portal_address b) (\<lambda>prepared.
          rbind (try_fold (\<lambda>block acc.
              rbind (prepare co abi encryption_keys portal_address block) (\<lambda>next_block.
              Inr (extend_prepared acc next_block))) bs prepared) (\<lambda>prepared.
          rbind (check (length (pb_queued_deposits prepared) \<le> MAX_UNPROCESSED_DEPOSITS)
            TooManyDeposits) (\<lambda>_.
          rbind (check (length (pb_enabled_tokens prepared) \<le> MAX_UNPROCESSED_TOKEN_ENABLEMENTS)
            TooManyEnablements) (\<lambda>_.
          Inr (prepared\<lparr>pb_follows_checkpoint_blocks := length blocks > 1\<rparr>))))))"

subsection \<open>Preparation is total on bound keys\<close>

fun user_keys :: "L1Deposit list \<Rightarrow> u256 list" where
  "user_keys [] = []"
| "user_keys (L1WithdrawalBounceBack d # ds) = user_keys ds"
| "user_keys (L1UserDeposit d # ds) = od_key_index d # user_keys ds"

lemma user_keys_append [simp]: "user_keys (xs @ ys) = user_keys xs @ user_keys ys"
  by (induction xs rule: user_keys.induct) simp_all

text \<open>The index whose absence is reported: the first one in deposit order.\<close>

definition first_unbound :: "EncryptionKeys \<Rightarrow> L1Deposit list \<Rightarrow> u256 option" where
  "first_unbound ring ds = List.find (\<lambda>i. bt_get (by_index ring) i = None) (user_keys ds)"

lemma find_append:
  "List.find P (xs @ ys) = (case List.find P xs of Some x \<Rightarrow> Some x | None \<Rightarrow> List.find P ys)"
  by (induction xs) simp_all

lemma first_unbound_append:
  "first_unbound ring (xs @ ys) =
     (case first_unbound ring xs of Some i \<Rightarrow> Some i | None \<Rightarrow> first_unbound ring ys)"
  by (simp add: first_unbound_def find_append split: option.splits)

lemma resolve_keys_result:
  assumes "\<And>i k. bt_get keys i = Some k \<Longrightarrow> bt_get (by_index ring) i = Some k"
  shows "case first_unbound ring ds of
      Some i \<Rightarrow> try_fold (resolve_key ring) ds (keys, n) = Inl (NoKeyBound i)
    | None \<Rightarrow> \<exists>keys'. try_fold (resolve_key ring) ds (keys, n) = Inr (keys', n + length (user_keys ds))
        \<and> (\<forall>i. bt_get keys i \<noteq> None \<longrightarrow> bt_get keys' i \<noteq> None)
        \<and> (\<forall>i \<in> set (user_keys ds). bt_get keys' i \<noteq> None)"
  using assms
proof (induction ds arbitrary: keys n rule: user_keys.induct)
  case 1
  then show ?case by (simp add: first_unbound_def)
next
  case (2 d ds)
  from 2(1) [where keys = keys and n = n, OF 2(2)] show ?case by (simp add: first_unbound_def split: option.splits)
next
  case (3 d ds)
  let ?i = "od_key_index d"
  show ?case
  proof (cases "bt_get keys ?i")
    case (Some k)
    then have "first_unbound ring (L1UserDeposit d # ds) = first_unbound ring ds"
      using 3(2) by (auto simp: first_unbound_def)
    then show ?thesis
      using 3(1) [where keys = keys and n = "n + 1", OF 3(2)] Some
      by (auto simp: bt_contains_def split: option.splits)
  next
    case None
    show ?thesis
    proof (cases "bt_get (by_index ring) ?i")
      case None
      then show ?thesis using \<open>bt_get keys ?i = None\<close>
        by (simp add: first_unbound_def bt_contains_def ring_key_def)
    next
      case (Some k)
      then have f: "first_unbound ring (L1UserDeposit d # ds) = first_unbound ring ds"
        by (simp add: first_unbound_def)
      have "\<And>i k'. bt_get (bt_insert ?i k keys) i = Some k' \<Longrightarrow> bt_get (by_index ring) i = Some k'"
        using 3(2) Some by (auto simp: bt_laws split: if_splits)
      from 3(1) [where keys = "bt_insert ?i k keys" and n = "n + 1", OF this] show ?thesis
        using Some None f by (auto simp: bt_contains_def ring_key_def bt_laws split: option.splits)
    qed
  qed
qed

text \<open>What one deposit contributes: its queue entry, and decryption data if it is a user's.\<close>

definition is_user :: "L1Deposit \<Rightarrow> bool" where
  "is_user d = (case d of L1UserDeposit _ \<Rightarrow> True | _ \<Rightarrow> False)"

lemma prepare_deposit_shape:
  assumes "\<forall>i \<in> set (user_keys [d]). bt_get keys i \<noteq> None"
  shows "\<exists>dec. prepare_deposit co abi portal keys d = Some (to_abi_queued_deposit abi d, dec)
    \<and> (dec \<noteq> None \<longleftrightarrow> is_user d)"
  using assms by (cases d) (auto simp: is_user_def Let_def split: option.splits)

lemma prepare_deposits_shape:
  assumes "\<forall>i \<in> set (user_keys ds). bt_get keys i \<noteq> None"
  shows "\<exists>ps. try_map (\<lambda>d. ok_or (prepare_deposit co abi portal keys d) PreparePanic) ds = Inr ps
    \<and> map fst ps = map (to_abi_queued_deposit abi) ds
    \<and> length (concat (map (\<lambda>p. case snd p of None \<Rightarrow> [] | Some d \<Rightarrow> [d]) ps)) = length (user_keys ds)"
  using assms
proof (induction ds)
  case Nil
  then show ?case by simp
next
  case (Cons d ds)
  have "user_keys (d # ds) = user_keys [d] @ user_keys ds" by (cases d) simp_all
  with Cons.prems have d: "\<forall>i \<in> set (user_keys [d]). bt_get keys i \<noteq> None"
    and ds: "\<forall>i \<in> set (user_keys ds). bt_get keys i \<noteq> None" by auto
  from prepare_deposit_shape [OF d, of co abi portal] obtain dec
    where one: "prepare_deposit co abi portal keys d = Some (to_abi_queued_deposit abi d, dec)"
      "dec \<noteq> None \<longleftrightarrow> is_user d" by blast
  from Cons.IH [OF ds] obtain ps where ps:
    "try_map (\<lambda>d. ok_or (prepare_deposit co abi portal keys d) PreparePanic) ds = Inr ps"
    "map fst ps = map (to_abi_queued_deposit abi) ds"
    "length (concat (map (\<lambda>p. case snd p of None \<Rightarrow> [] | Some d \<Rightarrow> [d]) ps)) = length (user_keys ds)"
    by blast
  show ?case using one ps
    by (cases d) (auto simp: is_user_def split: option.splits)
qed

definition prepared_for :: "deposit_abi \<Rightarrow> L1BlockDeposits list \<Rightarrow> PreparedL1Block \<Rightarrow> bool" where
  "prepared_for abi work p \<longleftrightarrow>
     pb_queued_deposits p = map (to_abi_queued_deposit abi) (work_of pe_deposits work) \<and>
     pb_enabled_tokens p = map to_abi (work_of pe_enabled_tokens work) \<and>
     length (pb_decryptions p) = length (user_keys (work_of pe_deposits work)) \<and>
     (work \<noteq> [] \<longrightarrow> pb_header p = lb_header (last work))"

lemma prepare_result:
  "case first_unbound ring (pe_deposits (lb_events b)) of
     Some i \<Rightarrow> prepare co abi ring portal b = Inl (KeyError (NoKeyBound i))
   | None \<Rightarrow> \<exists>p. prepare co abi ring portal b = Inr p \<and> prepared_for abi [b] p"
proof (cases "first_unbound ring (pe_deposits (lb_events b))")
  case None
  let ?ds = "pe_deposits (lb_events b)"
  from None resolve_keys_result [of "[]" ring ?ds 0] obtain keys where
    keys: "try_fold (resolve_key ring) ?ds ([], 0) = Inr (keys, length (user_keys ?ds))"
      "\<forall>i \<in> set (user_keys ?ds). bt_get keys i \<noteq> None" by auto
  from prepare_deposits_shape [OF keys(2)] keys(1) None show ?thesis
    by (fastforce simp: prepare_def Let_def prepared_for_def)
next
  case (Some i)
  then show ?thesis using resolve_keys_result [of "[]" ring "pe_deposits (lb_events b)" 0]
    by (simp add: prepare_def Let_def)
qed

lemma prepared_extend:
  "prepared_for abi bs p \<Longrightarrow> prepared_for abi [b] q \<Longrightarrow> prepared_for abi (bs @ [b]) (extend_prepared p q)"
  by (simp add: prepared_for_def extend_prepared_def)

lemma prepare_rest:
  "case first_unbound ring (work_of pe_deposits bs) of
     Some i \<Rightarrow> try_fold (\<lambda>block acc. rbind (prepare co abi ring portal block) (\<lambda>next_block.
         Inr (extend_prepared acc next_block))) bs p = Inl (KeyError (NoKeyBound i))
   | None \<Rightarrow> \<forall>cs. prepared_for abi cs p \<longrightarrow> (\<exists>q. try_fold (\<lambda>block acc.
         rbind (prepare co abi ring portal block) (\<lambda>next_block.
         Inr (extend_prepared acc next_block))) bs p = Inr q \<and> prepared_for abi (cs @ bs) q)"
proof (induction bs arbitrary: p)
  case Nil
  then show ?case by (simp add: first_unbound_def)
next
  case (Cons b bs)
  have split: "first_unbound ring (work_of pe_deposits (b # bs)) =
      (case first_unbound ring (pe_deposits (lb_events b)) of Some i \<Rightarrow> Some i
       | None \<Rightarrow> first_unbound ring (work_of pe_deposits bs))"
    by (simp add: first_unbound_append)
  show ?case
  proof (cases "first_unbound ring (pe_deposits (lb_events b))")
    case (Some i)
    then show ?thesis using split prepare_result [where ring = ring and b = b and co = co and abi = abi and portal = portal] by simp
  next
    case None
    with prepare_result [where ring = ring and b = b and co = co and abi = abi and portal = portal] obtain q
      where q: "prepare co abi ring portal b = Inr q" "prepared_for abi [b] q" by auto
    show ?thesis
      using Cons.IH [of "extend_prepared p q"] split None q prepared_extend [OF _ q(2)]
      by (fastforce split: option.splits)
  qed
qed

text \<open>The one reason for which a piece of work cannot be prepared.\<close>

definition import_error :: "EncryptionKeys \<Rightarrow> L1BlockDeposits list \<Rightarrow> prepare_error option" where
  "import_error ring work =
     (if work = [] then Some EmptyRange
      else case first_unbound ring (work_of pe_deposits work) of
        Some i \<Rightarrow> Some (KeyError (NoKeyBound i))
      | None \<Rightarrow>
          if length (work_of pe_deposits work) > MAX_UNPROCESSED_DEPOSITS then Some TooManyDeposits
          else if length (work_of pe_enabled_tokens work) > MAX_UNPROCESSED_TOKEN_ENABLEMENTS
          then Some TooManyEnablements
          else None)"

lemma prepare_many_outcome:
  "case import_error ring work of
     Some e \<Rightarrow> prepare_many co abi ring portal work = Inl e
   | None \<Rightarrow> \<exists>p. prepare_many co abi ring portal work = Inr p \<and> prepared_for abi work p
       \<and> pb_follows_checkpoint_blocks p = (length work > 1)"
proof (cases work)
  case Nil
  then show ?thesis by (simp add: prepare_many_def import_error_def)
next
  case (Cons b bs)
  have split: "first_unbound ring (work_of pe_deposits work) =
      (case first_unbound ring (pe_deposits (lb_events b)) of Some i \<Rightarrow> Some i
       | None \<Rightarrow> first_unbound ring (work_of pe_deposits bs))"
    using Cons by (simp add: first_unbound_append)
  show ?thesis
  proof (cases "first_unbound ring (pe_deposits (lb_events b))")
    case (Some i)
    then show ?thesis using split prepare_result [where ring = ring and b = b and co = co and abi = abi and portal = portal] Cons
      by (simp add: prepare_many_def import_error_def del: work_of_simps)
  next
    case None
    with prepare_result [where ring = ring and b = b and co = co and abi = abi and portal = portal] obtain p
      where p: "prepare co abi ring portal b = Inr p" "prepared_for abi [b] p" by auto
    show ?thesis
    proof (cases "first_unbound ring (work_of pe_deposits bs)")
      case (Some i)
      then show ?thesis using split None p prepare_rest [where ring = ring and bs = bs and co = co and abi = abi and portal = portal and p = p] Cons
        by (simp add: prepare_many_def import_error_def del: work_of_simps)
    next
      case None2: None
      with prepare_rest [where ring = ring and bs = bs and co = co and abi = abi and portal = portal and p = p] p obtain q where
        q: "try_fold (\<lambda>block acc. rbind (prepare co abi ring portal block) (\<lambda>next_block.
            Inr (extend_prepared acc next_block))) bs p = Inr q" "prepared_for abi work q"
        using Cons by (auto dest!: spec [of _ "[b]"])
      then have len: "length (pb_queued_deposits q) = length (work_of pe_deposits work)"
        "length (pb_enabled_tokens q) = length (work_of pe_enabled_tokens work)"
        by (simp_all add: prepared_for_def)
      have "prepare_many co abi ring portal work =
        (if length (work_of pe_deposits work) > MAX_UNPROCESSED_DEPOSITS then Inl TooManyDeposits
         else if length (work_of pe_enabled_tokens work) > MAX_UNPROCESSED_TOKEN_ENABLEMENTS
         then Inl TooManyEnablements
         else Inr (q\<lparr>pb_follows_checkpoint_blocks := length work > 1\<rparr>))"
        using p q Cons len by (simp add: prepare_many_def del: work_of_simps)
      then show ?thesis
        using split None None2 q(2) Cons
        by (auto simp: prepared_for_def import_error_def simp del: work_of_simps)
    qed
  qed
qed

text \<open>
  Preparing an import never panics and loses nothing. When every user deposit of the work names
  a bound key and the work is within the protocol's capacity, the prepared call has one queue entry
  per deposit in order, as many decryption data as user deposits, all the token enablements and the
  last block's header; otherwise the result is exactly the error for the first unbound key or for
  the exceeded capacity.
\<close>

lemma prepare_many_result:
  "case import_error ring work of
     Some e \<Rightarrow> prepare_many co abi ring portal work = Inl e
   | None \<Rightarrow> \<exists>p. prepare_many co abi ring portal work = Inr p \<and> prepared_for abi work p
       \<and> pb_follows_checkpoint_blocks p = (length work > 1)"
  by (rule prepare_many_outcome)

section \<open>Peer imports\<close>

datatype DecodedTempoImport =
    Full SealedHeader "QueuedDeposit list" "EnabledToken list"
  | CheckpointOnly "SealedHeader list"

fun import_headers :: "DecodedTempoImport \<Rightarrow> SealedHeader list" where
  "import_headers (Full header ds tokens) = [header]"
| "import_headers (CheckpointOnly headers) = headers"

definition leader_anchor :: "DecodedTempoImport \<Rightarrow> u64 option" where
  "leader_anchor import = (case import_headers import of [] \<Rightarrow> None | h # _ \<Rightarrow> Some (sh_number h))"

datatype import_check_error =
    NoTempoHeaders
  | WrongTempoNumber u64 u64 u64
  | ParentNotExtended u64 b256 b256
  | QueueError queue_error
  | CalldataShorter
  | PortalInputs portal_inputs_error
  | ExtraDeposits nat nat
  | ExtraTokens nat nat

definition validate_l1_header ::
  "SealedHeader \<Rightarrow> u64 \<times> b256 \<Rightarrow> import_check_error + u64 \<times> b256" where
  "validate_l1_header l1_header previous =
     rbind (check (sh_number l1_header = saturating_add (fst previous) 1)
       (WrongTempoNumber (sh_number l1_header) (fst previous) (saturating_add (fst previous) 1))) (\<lambda>_.
     rbind (check (sh_parent_hash l1_header = snd previous)
       (ParentNotExtended (sh_number l1_header) (sh_parent_hash l1_header) (snd previous))) (\<lambda>_.
     Inr (sh_number l1_header, sh_hash l1_header)))"

definition validate_l1_checkpoint_range ::
  "SealedHeader list \<Rightarrow> u64 \<Rightarrow> b256 \<Rightarrow> import_check_error + unit" where
  "validate_l1_checkpoint_range headers local_number local_hash =
     rbind (check (headers \<noteq> []) NoTempoHeaders) (\<lambda>_.
     rbind (try_fold validate_l1_header headers (local_number, local_hash)) (\<lambda>_. Inr ()))"

text \<open>\<open>None\<close> is the panic on an import without headers, which the range check excludes.\<close>

definition reconcile_canonical_import ::
  "DecodedTempoImport \<Rightarrow> PendingDeposits \<Rightarrow> ((queue_error + unit) \<times> PendingDeposits) option" where
  "reconcile_canonical_import import q =
     (if import_headers import = [] then None
      else let at_block = num_hash (last (import_headers import)) in
        Some (case import of
            CheckpointOnly _ \<Rightarrow> defer_through at_block q
          | Full _ _ _ \<Rightarrow> confirm_operational_through at_block q))"

definition validate_portal_block ::
  "deposit_abi \<Rightarrow> QueuedDeposit list \<Rightarrow> EnabledToken list \<Rightarrow> L1BlockDeposits \<Rightarrow> nat \<times> nat
   \<Rightarrow> import_check_error + nat \<times> nat" where
  "validate_portal_block abi ds tokens block offsets =
     (let (deposit_offset, token_offset) = offsets;
          next_deposit_offset = deposit_offset + length (pe_deposits (lb_events block));
          next_token_offset = token_offset + length (pe_enabled_tokens (lb_events block)) in
      rbind (check (next_deposit_offset \<le> length ds \<and> next_token_offset \<le> length tokens)
        CalldataShorter) (\<lambda>_.
      rbind (map_err PortalInputs (validate_advance_tempo_inputs abi (lb_events block)
          (take (next_deposit_offset - deposit_offset) (drop deposit_offset ds))
          (take (next_token_offset - token_offset) (drop token_offset tokens)))) (\<lambda>_.
      Inr (next_deposit_offset, next_token_offset))))"

definition validate_full_portal_inputs ::
  "deposit_abi \<Rightarrow> PendingDeposits \<Rightarrow> BlockNumHash \<Rightarrow> QueuedDeposit list \<Rightarrow> EnabledToken list
   \<Rightarrow> import_check_error + unit" where
  "validate_full_portal_inputs abi q at_block ds tokens =
     rbind (map_err QueueError (operational_work q at_block)) (\<lambda>work.
     rbind (try_fold (validate_portal_block abi ds tokens) work (0, 0))
       (\<lambda>(deposit_offset, token_offset).
     rbind (check (deposit_offset = length ds) (ExtraDeposits (length ds) deposit_offset)) (\<lambda>_.
     check (token_offset = length tokens) (ExtraTokens (length tokens) token_offset))))"

definition validate_block_timestamp :: "u64 \<Rightarrow> nat \<Rightarrow> bool" where
  "validate_block_timestamp timestamp_millis now_millis = (unat timestamp_millis \<le> now_millis + 100)"

subsection \<open>What acceptance means\<close>

text \<open>A queue entry that carries an observed deposit, whatever its \<open>rejected\<close> flag.\<close>

definition carries :: "deposit_abi \<Rightarrow> QueuedDeposit \<Rightarrow> L1Deposit \<Rightarrow> bool" where
  "carries abi actual d \<longleftrightarrow>
     qd_depositType actual = qd_depositType (to_abi_queued_deposit abi d) \<and>
     qd_depositData actual = qd_depositData (to_abi_queued_deposit abi d)"

lemma validate_deposits_iff:
  "length ds = length es \<Longrightarrow>
   try_fold (\<lambda>(index, expected, actual) _.
       let expected = to_abi_queued_deposit abi expected in
       check (qd_depositType actual = qd_depositType expected \<and>
              qd_depositData actual = qd_depositData expected) (DepositMismatch index))
     (enumerate n (zip es ds)) () = Inr () \<longleftrightarrow> list_all2 (carries abi) ds es"
proof (induction ds arbitrary: n es)
  case Nil
  then show ?case by simp
next
  case (Cons d ds)
  then obtain e es' where "es = e # es'" "length ds = length es'" by (cases es) auto
  then show ?case using Cons.IH [of es' "Suc n"] by (auto simp: carries_def Let_def)
qed

lemma validate_advance_tempo_inputs_iff:
  "validate_advance_tempo_inputs abi ev ds tokens = Inr () \<longleftrightarrow>
     list_all2 (carries abi) ds (pe_deposits ev) \<and> tokens = map to_abi (pe_enabled_tokens ev)"
  using validate_deposits_iff [of ds "pe_deposits ev" abi 0]
  by (auto simp: validate_advance_tempo_inputs_def dest: list_all2_lengthD)

text \<open>The slice of a list at an offset matches another list.\<close>

definition slice_matches :: "('a \<Rightarrow> 'b \<Rightarrow> bool) \<Rightarrow> nat \<Rightarrow> 'a list \<Rightarrow> 'b list \<Rightarrow> bool" where
  "slice_matches P n ds xs \<longleftrightarrow>
     n + length xs \<le> length ds \<and> list_all2 P (take (length xs) (drop n ds)) xs"

lemma slice_matches_Nil: "slice_matches P n ds [] \<longleftrightarrow> n \<le> length ds"
  by (simp add: slice_matches_def)

lemma slice_matches_append:
  "slice_matches P n ds (xs @ ys) \<longleftrightarrow> slice_matches P n ds xs \<and> slice_matches P (n + length xs) ds ys"
proof (cases "n + length xs + length ys \<le> length ds")
  case True
  have "take (length (xs @ ys)) (drop n ds) =
      take (length xs) (drop n ds) @ take (length ys) (drop (n + length xs) ds)"
    by (simp add: take_add add.commute)
  moreover have "length (take (length xs) (drop n ds)) = length xs" using True by simp
  ultimately show ?thesis using True by (auto simp: slice_matches_def list_all2_append)
next
  case False
  then show ?thesis by (auto simp: slice_matches_def)
qed

lemma slice_matches_all: "slice_matches P 0 ds xs \<and> length xs = length ds \<longleftrightarrow> list_all2 P ds xs"
  by (cases "length xs = length ds") (auto simp: slice_matches_def dest: list_all2_lengthD)

lemma eq_map_iff: "ts = map f us \<longleftrightarrow> list_all2 (\<lambda>t u. t = f u) ts us"
  by (induction us arbitrary: ts) (auto simp: list_all2_Cons2)

abbreviation token_matches :: "EnabledToken \<Rightarrow> ObservedToken \<Rightarrow> bool" where
  "token_matches t u \<equiv> t = to_abi u"

lemma validate_portal_block_iff:
  "validate_portal_block abi ds tokens b (n, m) = Inr p \<longleftrightarrow>
     slice_matches (carries abi) n ds (pe_deposits (lb_events b)) \<and>
     slice_matches token_matches m tokens (pe_enabled_tokens (lb_events b)) \<and>
     p = (n + length (pe_deposits (lb_events b)), m + length (pe_enabled_tokens (lb_events b)))"
  by (auto simp: validate_portal_block_def validate_advance_tempo_inputs_iff Let_def eq_map_iff
      slice_matches_def)

lemma validate_portal_blocks:
  assumes "n \<le> length ds" and "m \<le> length tokens"
  shows "try_fold (validate_portal_block abi ds tokens) work (n, m) = Inr p \<longleftrightarrow>
    slice_matches (carries abi) n ds (work_of pe_deposits work) \<and>
    slice_matches token_matches m tokens (work_of pe_enabled_tokens work) \<and>
    p = (n + length (work_of pe_deposits work), m + length (work_of pe_enabled_tokens work))"
  using assms
proof (induction work arbitrary: n m)
  case Nil
  then show ?case by (auto simp: slice_matches_Nil)
next
  case (Cons b bs)
  let ?d = "pe_deposits (lb_events b)" and ?t = "pe_enabled_tokens (lb_events b)"
  have "try_fold (validate_portal_block abi ds tokens) (b # bs) (n, m) = Inr p \<longleftrightarrow>
      (slice_matches (carries abi) n ds ?d \<and> slice_matches token_matches m tokens ?t) \<and>
      try_fold (validate_portal_block abi ds tokens) bs (n + length ?d, m + length ?t) = Inr p"
    by (auto simp: validate_portal_block_iff)
  also have "\<dots> \<longleftrightarrow> (slice_matches (carries abi) n ds ?d \<and> slice_matches token_matches m tokens ?t) \<and>
      slice_matches (carries abi) (n + length ?d) ds (work_of pe_deposits bs) \<and>
      slice_matches token_matches (m + length ?t) tokens (work_of pe_enabled_tokens bs) \<and>
      p = (n + length ?d + length (work_of pe_deposits bs), m + length ?t + length (work_of pe_enabled_tokens bs))"
    by (rule conj_cong [OF refl], rule Cons.IH) (auto simp: slice_matches_def)
  finally show ?case by (auto simp: slice_matches_append)
qed

lemma validate_full_portal_inputs_exact:
  "validate_full_portal_inputs abi q at_block ds tokens = Inr () \<longleftrightarrow>
     (\<exists>work. operational_work q at_block = Inr work \<and>
        list_all2 (carries abi) ds (work_of pe_deposits work) \<and>
        tokens = map to_abi (work_of pe_enabled_tokens work))"
proof (cases "operational_work q at_block")
  case (Inl e)
  then show ?thesis by (simp add: validate_full_portal_inputs_def)
next
  case (Inr work)
  have "validate_full_portal_inputs abi q at_block ds tokens = Inr () \<longleftrightarrow>
      (slice_matches (carries abi) 0 ds (work_of pe_deposits work) \<and> length (work_of pe_deposits work) = length ds) \<and>
      (slice_matches token_matches 0 tokens (work_of pe_enabled_tokens work) \<and>
       length (work_of pe_enabled_tokens work) = length tokens)"
    using Inr by (auto simp: validate_full_portal_inputs_def validate_portal_blocks)
  then show ?thesis using Inr by (simp add: slice_matches_all eq_map_iff)
qed

section \<open>From L1 to the zone's commitments\<close>

text \<open>The calldata of a deposit decodes to the observed deposit in the zone.\<close>

definition decodes_back :: "'w zone_env \<Rightarrow> deposit_abi \<Rightarrow> L1Deposit \<Rightarrow> bool" where
  "decodes_back env abi d \<longleftrightarrow> decode_deposit env (to_abi_queued_deposit abi d) = Inr (observed d)"

lemma carries_decode:
  "carries abi a d \<Longrightarrow> decode_deposit env a = decode_deposit env (to_abi_queued_deposit abi d)"
  by (cases d) (simp_all add: carries_def decode_deposit_def)

lemma decode_carried:
  assumes "list_all2 (carries abi) as ds" and "list_all (decodes_back env abi) ds"
  shows "decode_deposits env as = Inr (map observed ds)"
  using assms unfolding decode_deposits_def
  by (induction rule: list_all2_induct) (auto simp: carries_decode decodes_back_def)

lemma l1_hash_chain_observed:
  "l1_hash_chain (ze_keccak env) (ze_deposit_enc env) d h = deposit_hash_with_tail env (observed d) h"
  by (cases d) (simp_all add: deposit_hash_with_tail_def)

lemma deposit_chain_observed:
  "deposit_chain env (map observed ds) h = fold (l1_hash_chain (ze_keccak env) (ze_deposit_enc env)) ds h"
  unfolding deposit_chain_def by (induction ds arbitrary: h) (simp_all add: l1_hash_chain_observed)

lemma user_deposits_observed: "user_deposits (map observed ds) = length (user_keys ds)"
  by (induction ds rule: user_keys.induct) simp_all

text \<open>
  C36. The zone follows L1. When a follower accepts the portal inputs of a full peer block and the
  zone executes its \<open>advanceTempo\<close>, the zone's deposit-queue commitment advances by exactly the
  node's own hash chain over the deposits it observed on L1 since the last full block, the
  processed count by their number, and the token-enablement commitment by the observed tokens.
\<close>

theorem accepted_import_follows_l1:
  assumes "validate_full_portal_inputs abi q at_block (at_deposits call) (at_enabledTokens call) = Inr ()"
    and "operational_work q at_block = Inr work"
    and "list_all (decodes_back env abi) (work_of pe_deposits work)"
    and "advance_tempo env caller call c = (Inr (), c')"
  shows "processed_deposit_queue_hash (zc_inbox c') =
      fold (l1_hash_chain (ze_keccak env) (ze_deposit_enc env)) (work_of pe_deposits work)
        (processed_deposit_queue_hash (zc_inbox c))
    \<and> unat (processed_deposit_number (zc_inbox c')) =
        unat (processed_deposit_number (zc_inbox c)) + length (work_of pe_deposits work)
    \<and> processed_token_enablement_hash (zc_inbox c') =
        fold (hash_with_previous env) (map to_abi (work_of pe_enabled_tokens work))
          (processed_token_enablement_hash (zc_inbox c))
    \<and> length (at_decryptions call) = length (user_keys (work_of pe_deposits work))"
proof -
  from assms(1,2) have "list_all2 (carries abi) (at_deposits call) (work_of pe_deposits work)"
    and tokens: "at_enabledTokens call = map to_abi (work_of pe_enabled_tokens work)"
    by (auto simp: validate_full_portal_inputs_exact)
  from decode_carried [OF this(1) assms(3)] advance_tempo_effect [OF assms(4)] tokens show ?thesis
    by (auto simp: deposit_chain_observed user_deposits_observed)
qed

section \<open>Witnesses\<close>

definition sample_rotation :: EncryptionKeyRotation where
  "sample_rotation = \<lparr>kr_x = fst (public_key toy_crypto 5), kr_y_parity = snd (public_key toy_crypto 5),
     kr_pubkey = 0, kr_key_index = 3, kr_activation_block = 7\<rparr>"

lemma registered_key_stays_bound_witness:
  "apply_rotation toy_crypto sample_rotation (fold (ring_exec toy_crypto) [AddCandidate 5] empty_ring)
     = (Inr (), \<lparr>candidates = [(public_key toy_crypto 5, 5)], by_index = [(3, 5)]\<rparr>) \<and>
   (\<exists>k. public_key toy_crypto k = public_key toy_crypto 5 \<and> (\<forall>after.
      ring_key (fold (ring_exec toy_crypto) after
        \<lparr>candidates = [(public_key toy_crypto 5, 5)], by_index = [(3, 5)]\<rparr>) 3 = Inr k))"
proof -
  have run: "apply_rotation toy_crypto sample_rotation (fold (ring_exec toy_crypto) [AddCandidate 5] empty_ring)
      = (Inr (), \<lparr>candidates = [(public_key toy_crypto 5, 5)], by_index = [(3, 5)]\<rparr>)"
    by (simp add: apply_rotation_def sample_rotation_def add_candidate_def empty_ring_def)
  from registered_key_stays_bound [OF run] run show ?thesis by (simp add: sample_rotation_def)
qed

definition sample_deposit_abi :: deposit_abi where
  "sample_deposit_abi = \<lparr>enc_bounce_back = (\<lambda>d. [ucast (wb_to d), ucast (wb_amount d)]),
     enc_deposit = (\<lambda>d. ucast (dp_amount d) # ucast (pay_ephemeralPubkeyX (dp_encrypted d))
       # pay_ciphertext (dp_encrypted d))\<rparr>"

definition sample_observed :: L1Deposit where
  "sample_observed = L1UserDeposit
     \<lparr>od_token = 1, od_sender = 11, od_amount = 7, od_fee = 0, od_tempo_refund_recipient = 13,
      od_key_index = 0, od_ephemeral_pubkey_x = 7, od_ephemeral_pubkey_y_parity = 2,
      od_ciphertext = [], od_nonce = [], od_tag = replicate 16 0\<rparr>"

definition sample_l1_header :: SealedHeader where
  "sample_l1_header = \<lparr>sh_header = \<lparr>th_parent_hash = 3, th_number = 5, th_state_root = 0,
     th_timestamp = 0, th_timestamp_millis_part = 0\<rparr>, sh_hash = 8\<rparr>"

definition sample_queue :: PendingDeposits where
  "sample_queue = snd (try_enqueue sample_l1_header (from_deposits [sample_observed]) empty_queue)"

lemma sample_queue_work:
  "operational_work sample_queue (num_hash sample_l1_header) =
     Inr [\<lparr>lb_header = sample_l1_header, lb_events = from_deposits [sample_observed]\<rparr>]"
  by (simp add: sample_queue_def try_enqueue_def empty_queue_def operational_work_def Let_def)

lemma sample_accepted:
  "validate_full_portal_inputs sample_deposit_abi sample_queue (num_hash sample_l1_header)
     (at_deposits sample_advance) (at_enabledTokens sample_advance) = Inr ()"
  by (simp add: validate_full_portal_inputs_def sample_queue_work validate_portal_block_def Let_def
      validate_advance_tempo_inputs_def sample_advance_def from_deposits_def no_events_def
      sample_observed_def sample_deposit_abi_def abi_deposit_def)

lemma sample_decodes: "decodes_back (sample_env queue_portal) sample_deposit_abi sample_observed"
  by (simp add: decodes_back_def sample_observed_def sample_deposit_abi_def abi_deposit_def
      decode_deposit_def sample_env_def)

theorem accepted_import_follows_l1_witness:
  "\<exists>c'. advance_tempo (sample_env queue_portal) 0 sample_advance inbox_sample_ctx = (Inr (), c')
     \<and> unat (processed_deposit_number (zc_inbox c')) = 1"
proof -
  obtain c' where c': "advance_tempo (sample_env queue_portal) 0 sample_advance inbox_sample_ctx = (Inr (), c')"
    using sample_advance_ok by blast
  have "list_all (decodes_back (sample_env queue_portal) sample_deposit_abi)
      (work_of pe_deposits [\<lparr>lb_header = sample_l1_header, lb_events = from_deposits [sample_observed]\<rparr>])"
    by (simp add: from_deposits_def no_events_def sample_decodes)
  from accepted_import_follows_l1 [OF sample_accepted sample_queue_work this c'] c' show ?thesis
    by (simp add: inbox_sample_ctx_def sample_inbox_def from_deposits_def no_events_def)
qed

end
