(* ===== verification/L1_Tracker.thy ===== *)
theory L1_Tracker
  imports L1_Evidence Deposit_Queue BTree_Map
begin

text \<open>
  The tracker of authenticated L1 blocks (\<open>L1BlockTracker\<close> in \<open>crates/l1/src/subscriber.rs\<close>): the
  blocks the subscriber has validated and applied and the zone has not consumed yet, the recent
  portal evidence of consumed blocks, the finalized target, and the portal-wide pause. Each method
  takes the tracker's lock once; the watch channel is the count of its notifications. A method that
  waits is modelled by the test it repeats at every notification.
\<close>

section \<open>State and operations\<close>

definition MAX_L1_LOOKAHEAD_BLOCKS :: u64 where
  "MAX_L1_LOOKAHEAD_BLOCKS = 7200"

definition RECENT_PORTAL_EVIDENCE_BLOCKS :: u64 where
  "RECENT_PORTAL_EVIDENCE_BLOCKS = 256"

record FinalizedTarget =
  ft_number :: u64
  ft_ready :: bool

record L1BlockObservation =
  bo_hash :: b256
  bo_portal_events :: L1PortalEvents
  bo_portal_evidence :: "AuthenticatedPortalLogs option"

record L1BlockTracker =
  observed_blocks :: "(u64, L1BlockObservation) btree"
  recent_portal_evidence :: "(u64, AuthenticatedPortalLogs) btree"
  latest_observed :: "BlockNumHash option"
  pruned_through :: "u64 option"
  tracker_target :: "FinalizedTarget option"
  portal_pause :: "(BlockNumHash \<times> bool) option"
  tracker_l1_timestamp :: "u64 option"
  tracker_changed :: nat

definition tracker_default :: L1BlockTracker where
  "tracker_default =
     \<lparr>observed_blocks = [], recent_portal_evidence = [], latest_observed = None, pruned_through = None,
      tracker_target = None, portal_pause = None, tracker_l1_timestamp = None, tracker_changed = 0\<rparr>"

datatype tracker_error =
    ConflictingPauseHash u64 b256 b256
  | ContradictoryPause u64
  | UnannouncedTarget
  | OtherTarget u64 u64
  | DifferentHash u64 b256 b256
  | AlreadyPruned u64
  | MissingBelowLatest u64 u64
  | ExceedsLookahead u64 u64
  | NonContiguousObservation u64 u64
  | NonContiguousFirst u64 u64

type_synonym 'a tracker_eff = "(L1BlockTracker, tracker_error, 'a) eff"

definition tracker_notify :: "L1BlockTracker \<Rightarrow> L1BlockTracker" where
  "tracker_notify s = s\<lparr>tracker_changed := tracker_changed s + 1\<rparr>"

definition portal_paused :: "L1BlockTracker \<Rightarrow> bool" where
  "portal_paused s = (case portal_pause s of None \<Rightarrow> False | Some (_, paused) \<Rightarrow> paused)"

definition portal_pause_block :: "L1BlockTracker \<Rightarrow> BlockNumHash option" where
  "portal_pause_block s = map_option fst (portal_pause s)"

definition observe_portal_pause :: "BlockNumHash \<Rightarrow> bool \<Rightarrow> bool tracker_eff" where
  "observe_portal_pause block paused s =
     (let apply_it = (Inr (portal_paused s \<noteq> paused), s\<lparr>portal_pause := Some (block, paused)\<rparr>) in
      case portal_pause s of
        None \<Rightarrow> apply_it
      | Some (current, current_paused) \<Rightarrow>
          if bn_number block < bn_number current then (Inr False, s)
          else if bn_number block = bn_number current
          then (if bn_hash block \<noteq> bn_hash current
                then (Inl (ConflictingPauseHash (bn_number block) (bn_hash current) (bn_hash block)), s)
                else if paused \<noteq> current_paused then (Inl (ContradictoryPause (bn_number block)), s)
                else (Inr False, s))
          else apply_it)"

definition observe_finalized_l1_timestamp :: "u64 \<Rightarrow> L1BlockTracker \<Rightarrow> L1BlockTracker" where
  "observe_finalized_l1_timestamp timestamp s =
     (if (case tracker_l1_timestamp s of None \<Rightarrow> True | Some current \<Rightarrow> timestamp > current)
      then s\<lparr>tracker_l1_timestamp := Some timestamp\<rparr> else s)"

definition record_finalized_target :: "u64 \<Rightarrow> L1BlockTracker \<Rightarrow> L1BlockTracker" where
  "record_finalized_target number s =
     (if (case tracker_target s of None \<Rightarrow> True | Some target \<Rightarrow> number > ft_number target)
      then tracker_notify (s\<lparr>tracker_target := Some \<lparr>ft_number = number, ft_ready = False\<rparr>\<rparr>)
      else s)"

definition mark_finalized_target_ready :: "u64 \<Rightarrow> unit tracker_eff" where
  "mark_finalized_target_ready number s =
     (case tracker_target s of
        None \<Rightarrow> (Inl UnannouncedTarget, s)
      | Some target \<Rightarrow>
          if ft_number target \<noteq> number then (Inl (OtherTarget number (ft_number target)), s)
          else if ft_ready target then (Inr (), s)
          else (Inr (), tracker_notify (s\<lparr>tracker_target := Some (target\<lparr>ft_ready := True\<rparr>)\<rparr>)))"

definition raise_pruned :: "u64 \<Rightarrow> L1BlockTracker \<Rightarrow> L1BlockTracker" where
  "raise_pruned number s =
     s\<lparr>pruned_through := Some (case pruned_through s of None \<Rightarrow> number | Some old \<Rightarrow> max old number)\<rparr>"

definition initialize_consumed_through :: "u64 \<Rightarrow> L1BlockTracker \<Rightarrow> L1BlockTracker" where
  "initialize_consumed_through number s = tracker_notify (raise_pruned number s)"

definition observed_hash :: "L1BlockTracker \<Rightarrow> u64 \<Rightarrow> b256 option" where
  "observed_hash s number = map_option bo_hash (bt_get (observed_blocks s) number)"

definition has_capacity_for :: "L1BlockTracker \<Rightarrow> u64 \<Rightarrow> bool" where
  "has_capacity_for s number =
     (case pruned_through s of None \<Rightarrow> True
      | Some consumed \<Rightarrow> number \<le> saturating_add consumed MAX_L1_LOOKAHEAD_BLOCKS)"

definition next_observation_number :: "L1BlockTracker \<Rightarrow> u64 option" where
  "next_observation_number s =
     (case latest_observed s of
        Some latest \<Rightarrow> Some (saturating_add (bn_number latest) 1)
      | None \<Rightarrow> map_option (\<lambda>consumed. saturating_add consumed 1) (pruned_through s))"

text \<open>The test of \<open>wait_for_observation\<close>: an answer, an error, or \<open>None\<close> to keep waiting.\<close>

definition poll_observation ::
  "BlockNumHash \<Rightarrow> L1BlockTracker \<Rightarrow> (tracker_error + L1BlockObservation) option" where
  "poll_observation block s =
     (case bt_get (observed_blocks s) (bn_number block) of
        Some observation \<Rightarrow>
          Some (if bo_hash observation = bn_hash block then Inr observation
                else Inl (DifferentHash (bn_number block) (bn_hash block) (bo_hash observation)))
      | None \<Rightarrow>
          if (case pruned_through s of None \<Rightarrow> False | Some height \<Rightarrow> height \<ge> bn_number block)
          then Some (Inl (AlreadyPruned (bn_number block)))
          else (case latest_observed s of
                  None \<Rightarrow> None
                | Some latest \<Rightarrow>
                    if bn_number latest \<ge> bn_number block
                    then Some (Inl (MissingBelowLatest (bn_number block) (bn_number latest)))
                    else None))"

definition authenticated_portal_logs ::
  "BlockNumHash \<Rightarrow> L1BlockTracker \<Rightarrow> tracker_error + AuthenticatedPortalLogs option" where
  "authenticated_portal_logs block s =
     (case bt_get (observed_blocks s) (bn_number block) of
        Some observation \<Rightarrow>
          rbind (check (bo_hash observation = bn_hash block)
            (DifferentHash (bn_number block) (bn_hash block) (bo_hash observation))) (\<lambda>_.
          Inr (bo_portal_evidence observation))
      | None \<Rightarrow>
          (case bt_get (recent_portal_evidence s) (bn_number block) of
             Some evidence \<Rightarrow>
               rbind (check (bn_hash (apl_block evidence) = bn_hash block)
                 (DifferentHash (bn_number block) (bn_hash block) (bn_hash (apl_block evidence)))) (\<lambda>_.
               Inr (Some evidence))
           | None \<Rightarrow> Inr None))"

definition record_observation ::
  "BlockNumHash \<Rightarrow> L1PortalEvents \<Rightarrow> AuthenticatedPortalLogs option \<Rightarrow> unit tracker_eff" where
  "record_observation block events evidence s =
     (case bt_get (observed_blocks s) (bn_number block) of
        Some observation \<Rightarrow>
          if bo_hash observation = bn_hash block then (Inr (), s)
          else (Inl (DifferentHash (bn_number block) (bo_hash observation) (bn_hash block)), s)
      | None \<Rightarrow>
          if latest_observed s = Some block then (Inr (), s)
          else
            let consumed = (case pruned_through s of Some c \<Rightarrow> c
                            | None \<Rightarrow> saturating_sub (bn_number block) 1);
                s1 = s\<lparr>pruned_through := Some consumed\<rparr>;
                limit = saturating_add consumed MAX_L1_LOOKAHEAD_BLOCKS;
                expected = (case latest_observed s of
                    Some latest \<Rightarrow> saturating_add (bn_number latest) 1
                  | None \<Rightarrow> saturating_add consumed 1) in
            if \<not> bn_number block \<le> limit then (Inl (ExceedsLookahead (bn_number block) limit), s1)
            else if bn_number block \<noteq> expected
            then (Inl (case latest_observed s of
                      Some latest \<Rightarrow> NonContiguousObservation (bn_number latest) (bn_number block)
                    | None \<Rightarrow> NonContiguousFirst consumed (bn_number block)), s1)
            else (Inr (), tracker_notify (s1\<lparr>
                   observed_blocks := bt_insert (bn_number block)
                     \<lparr>bo_hash = bn_hash block, bo_portal_events = events, bo_portal_evidence = evidence\<rparr>
                     (observed_blocks s1),
                   latest_observed := Some block\<rparr>)))"

definition record_with_portal_events :: "BlockNumHash \<Rightarrow> L1PortalEvents \<Rightarrow> unit tracker_eff" where
  "record_with_portal_events block events = record_observation block events None"

definition record_block :: "BlockNumHash \<Rightarrow> unit tracker_eff" where
  "record_block block = record_observation block no_events None"

definition record_with_portal_evidence ::
  "BlockNumHash \<Rightarrow> b256 \<Rightarrow> u64 \<Rightarrow> L1PortalEvents \<Rightarrow> chain_log list \<Rightarrow> unit tracker_eff" where
  "record_with_portal_evidence block parent_hash timestamp_millis events logs =
     record_observation block events (Some \<lparr>apl_block = block, apl_parent_hash = parent_hash,
       apl_timestamp_millis = timestamp_millis, apl_logs = logs\<rparr>)"

definition consumed_evidence :: "u64 \<Rightarrow> (u64, L1BlockObservation) btree \<Rightarrow> (u64 \<times> AuthenticatedPortalLogs) list" where
  "consumed_evidence number m =
     concat (map (\<lambda>e. case bo_portal_evidence (snd e) of
         None \<Rightarrow> [] | Some evidence \<Rightarrow> [(bn_number (apl_block evidence), evidence)])
       (bt_retain (\<lambda>height. height \<le> number) m))"

definition prune_through :: "u64 \<Rightarrow> L1BlockTracker \<Rightarrow> L1BlockTracker" where
  "prune_through number s =
     (let recent = bt_extend (consumed_evidence number (observed_blocks s)) (recent_portal_evidence s);
          retain_after = saturating_sub number RECENT_PORTAL_EVIDENCE_BLOCKS in
      tracker_notify (raise_pruned number
        (s\<lparr>recent_portal_evidence := bt_retain (\<lambda>height. height > retain_after) recent,
           observed_blocks := bt_retain (\<lambda>height. height > number) (observed_blocks s)\<rparr>)))"

section \<open>The window of observations\<close>

datatype tracker_op =
    TrackPause BlockNumHash bool
  | TrackTimestamp u64
  | TrackTarget u64
  | TrackReady u64
  | TrackConsumed u64
  | TrackRecord BlockNumHash L1PortalEvents
  | TrackRecordEvidence BlockNumHash b256 u64 L1PortalEvents "chain_log list"
  | TrackPrune u64

fun tracker_exec :: "tracker_op \<Rightarrow> L1BlockTracker \<Rightarrow> L1BlockTracker" where
  "tracker_exec (TrackPause b p) s = snd (observe_portal_pause b p s)"
| "tracker_exec (TrackTimestamp t) s = observe_finalized_l1_timestamp t s"
| "tracker_exec (TrackTarget n) s = record_finalized_target n s"
| "tracker_exec (TrackReady n) s = snd (mark_finalized_target_ready n s)"
| "tracker_exec (TrackConsumed n) s = initialize_consumed_through n s"
| "tracker_exec (TrackRecord b e) s = snd (record_with_portal_events b e s)"
| "tracker_exec (TrackRecordEvidence b p t e l) s = snd (record_with_portal_evidence b p t e l s)"
| "tracker_exec (TrackPrune n) s = prune_through n s"

text \<open>The heights of a map are consecutive and end at a given one, or there are none.\<close>

definition window :: "(u64, 'v) btree \<Rightarrow> nat \<Rightarrow> bool" where
  "window m hi \<longleftrightarrow> (\<exists>lo. map (\<lambda>e. unat (fst e)) m = [lo..<Suc hi])"

text \<open>
  The retained heights are consecutive and end at the latest observation, which is at most the
  lookahead ahead of the consumed height; evidence is filed under its own height.
\<close>

definition own_height :: "u64 \<times> L1BlockObservation \<Rightarrow> bool" where
  "own_height e = (case bo_portal_evidence (snd e) of None \<Rightarrow> True
     | Some ev \<Rightarrow> bn_number (apl_block ev) = fst e)"

definition tracker_wf :: "L1BlockTracker \<Rightarrow> bool" where
  "tracker_wf s \<longleftrightarrow>
     bt_invar (observed_blocks s) \<and> bt_invar (recent_portal_evidence s) \<and>
     list_all own_height (observed_blocks s) \<and>
     (case latest_observed s of
        None \<Rightarrow> observed_blocks s = []
      | Some latest \<Rightarrow>
          window (observed_blocks s) (unat (bn_number latest)) \<and>
          (case pruned_through s of None \<Rightarrow> False | Some consumed \<Rightarrow>
             unat (bn_number latest) \<le> unat consumed + unat MAX_L1_LOOKAHEAD_BLOCKS))"

subsection \<open>Windows\<close>

lemma window_Nil [simp]: "window [] hi"
  by (auto simp: window_def intro: exI [of _ "Suc hi"])

lemma window_single [simp]: "window [(k, v)] (unat k)"
  by (auto simp: window_def intro: exI [of _ "unat k"])

lemma upt_filter_gt: "filter (\<lambda>i. n < i) [lo..<hi] = [max lo (Suc n)..<hi]"
  by (induction hi) (auto simp: max_def)

lemma window_retain_gt: "window m hi \<Longrightarrow> window (bt_retain (\<lambda>h. h > n) m) hi"
proof -
  assume "window m hi"
  then obtain lo where lo: "map (\<lambda>e. unat (fst e)) m = [lo..<Suc hi]" by (auto simp: window_def)
  have "map (\<lambda>e. unat (fst e)) (bt_retain (\<lambda>h. h > n) m) = filter (\<lambda>i. unat n < i) (map (\<lambda>e. unat (fst e)) m)"
    by (simp add: bt_retain_def filter_map o_def word_less_nat_alt)
  then show ?thesis unfolding window_def lo upt_filter_gt by blast
qed

lemma window_snoc:
  assumes "window m hi" and "unat k = Suc hi"
  shows "bt_insert k v m = m @ [(k, v)]" and "window (bt_insert k v m) (unat k)"
proof -
  from assms(1) obtain lo where lo: "map (\<lambda>e. unat (fst e)) m = [lo..<Suc hi]" by (auto simp: window_def)
  have "\<forall>x \<in> set (map (\<lambda>e. unat (fst e)) m). x < unat k" unfolding lo using assms(2) by auto
  then have "list_all (\<lambda>e. fst e < k) m" by (auto simp: list_all_iff word_less_nat_alt)
  then show ins: "bt_insert k v m = m @ [(k, v)]" by (induction m) auto
  show "window (bt_insert k v m) (unat k)"
  proof (cases m)
    case Nil
    then show ?thesis by simp
  next
    case (Cons e es)
    then have "lo \<le> Suc hi" using lo by (cases "lo \<le> hi") auto
    then have "map (\<lambda>e. unat (fst e)) (m @ [(k, v)]) = [lo..<Suc (unat k)]"
      using lo assms(2) by (simp del: upt_Suc add: upt_Suc_append [of lo "Suc hi"])
    then show ?thesis unfolding window_def ins by blast
  qed
qed

lemma window_top: "window m (unat k) \<Longrightarrow> m \<noteq> [] \<Longrightarrow> bt_get m k \<noteq> None"
proof -
  assume "window m (unat k)" "m \<noteq> []"
  then obtain lo where "map (\<lambda>e. unat (fst e)) m = [lo..<unat k] @ [unat k]"
    by (auto simp: window_def split: if_splits)
  then have "unat k \<in> set (map (\<lambda>e. unat (fst e)) m)" by (simp only: set_append) simp
  then obtain e where "e \<in> set m" "fst e = k" by (auto simp: word_unat_eq_iff)
  then show ?thesis unfolding bt_get_None_iff by force
qed

subsection \<open>Every operation keeps the window\<close>

lemma tracker_notify_sel [simp]:
  "observed_blocks (tracker_notify s) = observed_blocks s"
  "recent_portal_evidence (tracker_notify s) = recent_portal_evidence s"
  "latest_observed (tracker_notify s) = latest_observed s"
  "pruned_through (tracker_notify s) = pruned_through s"
  by (simp_all add: tracker_notify_def)

lemma raise_pruned_sel [simp]:
  "observed_blocks (raise_pruned n s) = observed_blocks s"
  "recent_portal_evidence (raise_pruned n s) = recent_portal_evidence s"
  "latest_observed (raise_pruned n s) = latest_observed s"
  by (simp_all add: raise_pruned_def)

lemma tracker_wf_frame [simp]:
  "tracker_wf (tracker_notify s) = tracker_wf s"
  "tracker_wf (s\<lparr>portal_pause := p\<rparr>) = tracker_wf s"
  "tracker_wf (s\<lparr>tracker_l1_timestamp := t\<rparr>) = tracker_wf s"
  "tracker_wf (s\<lparr>tracker_target := g\<rparr>) = tracker_wf s"
  by (simp_all add: tracker_wf_def tracker_notify_def split: option.splits)

lemma tracker_wf_raise: "tracker_wf s \<Longrightarrow> tracker_wf (raise_pruned n s)"
  by (auto simp: tracker_wf_def raise_pruned_def max_def word_le_nat_alt split: option.splits)

lemma tracker_wf_consumed:
  "tracker_wf s \<Longrightarrow> pruned_through s = None \<or> pruned_through s = Some c \<Longrightarrow> tracker_wf (s\<lparr>pruned_through := Some c\<rparr>)"
  by (auto simp: tracker_wf_def split: option.splits)

lemma list_all_bt_retain: "list_all P m \<Longrightarrow> list_all P (bt_retain q m)"
  by (auto simp: list_all_iff bt_retain_def)

lemma tracker_wf_prune: "tracker_wf s \<Longrightarrow> tracker_wf (prune_through n s)"
proof -
  assume wf: "tracker_wf s"
  have "tracker_wf (s\<lparr>recent_portal_evidence := bt_retain p (bt_extend es (recent_portal_evidence s)),
      observed_blocks := bt_retain (\<lambda>h. h > n) (observed_blocks s)\<rparr>)" for p es
    using wf
    by (auto simp: tracker_wf_def bt_invars bt_invar_extend window_retain_gt list_all_bt_retain
        bt_retain_def [of _ "[]"] split: option.splits)
  then show ?thesis by (simp add: prune_through_def Let_def tracker_wf_raise)
qed

text \<open>A successful new observation, with the consumed height it was measured against.\<close>

definition recorded ::
  "BlockNumHash \<Rightarrow> L1PortalEvents \<Rightarrow> AuthenticatedPortalLogs option \<Rightarrow> u64 \<Rightarrow> L1BlockTracker \<Rightarrow> L1BlockTracker \<Rightarrow> bool" where
  "recorded b e ev c s s' \<longleftrightarrow>
     bt_get (observed_blocks s) (bn_number b) = None \<and>
     bn_number b \<le> saturating_add c MAX_L1_LOOKAHEAD_BLOCKS \<and>
     bn_number b = (case latest_observed s of Some l \<Rightarrow> saturating_add (bn_number l) 1
       | None \<Rightarrow> saturating_add c 1) \<and>
     s' = tracker_notify (s\<lparr>pruned_through := Some c,
       observed_blocks := bt_insert (bn_number b)
         \<lparr>bo_hash = bn_hash b, bo_portal_events = e, bo_portal_evidence = ev\<rparr> (observed_blocks s),
       latest_observed := Some b\<rparr>)"

lemma record_observation_outcome:
  fixes s :: L1BlockTracker and b :: BlockNumHash
  defines "c \<equiv> (case pruned_through s of Some c \<Rightarrow> c | None \<Rightarrow> saturating_sub (bn_number b) 1)"
  shows "snd (record_observation b e ev s) = s \<or>
    snd (record_observation b e ev s) = s\<lparr>pruned_through := Some c\<rparr> \<or>
    (fst (record_observation b e ev s) = Inr () \<and> recorded b e ev c s (snd (record_observation b e ev s)))"
proof (cases "bt_get (observed_blocks s) (bn_number b)")
  case (Some o1)
  then show ?thesis by (simp add: record_observation_def)
next
  case None
  show ?thesis
  proof (cases "latest_observed s = Some b")
    case True
    then show ?thesis using None by (simp add: record_observation_def)
  next
    case False
    then show ?thesis using None
      by (simp add: record_observation_def Let_def recorded_def c_def [symmetric])
  qed
qed

lemma consumed_choice:
  "pruned_through s = None \<or>
   pruned_through s = Some (case pruned_through s of Some c \<Rightarrow> c | None \<Rightarrow> saturating_sub n 1)"
  by (cases "pruned_through s") simp_all

lemma recorded_wf:
  assumes "tracker_wf s" and "recorded b e ev c s s'"
    and "case ev of None \<Rightarrow> True | Some x \<Rightarrow> apl_block x = b"
    and "pruned_through s = None \<or> pruned_through s = Some c"
  shows "tracker_wf s'"
proof -
  let ?m = "observed_blocks s" and ?k = "bn_number b"
  let ?o = "\<lparr>bo_hash = bn_hash b, bo_portal_events = e, bo_portal_evidence = ev\<rparr>"
  note r = assms(2) [unfolded recorded_def]
  have "?k \<le> saturating_add c MAX_L1_LOOKAHEAD_BLOCKS" using r by blast
  then have bound: "unat ?k \<le> unat c + unat MAX_L1_LOOKAHEAD_BLOCKS"
    by (simp add: word_le_nat_alt unat_saturating_add)
  have win: "window (bt_insert ?k ?o ?m) (unat ?k)"
  proof (cases "latest_observed s")
    case None
    then show ?thesis using assms(1) by (simp add: tracker_wf_def)
  next
    case (Some l)
    then have w: "window ?m (unat (bn_number l))" using assms(1) by (simp add: tracker_wf_def)
    have k: "unat ?k = min (unat (bn_number l) + 1) (2 ^ 64 - 1)"
      using r Some by (simp add: unat_saturating_add)
    show ?thesis
    proof (cases "unat ?k = Suc (unat (bn_number l))")
      case True
      then show ?thesis using window_snoc(2) [OF w] by simp
    next
      case False
      then have "?k = bn_number l" using k unsigned_less [of "bn_number l", where 'a = nat]
        by (simp add: word_unat_eq_iff min_def split: if_splits)
      moreover have "bt_get ?m ?k = None" using r by blast
      ultimately have "?m = []" using window_top [OF w] by metis
      then show ?thesis by simp
    qed
  qed
  have "list_all own_height (bt_insert ?k ?o ?m)"
  proof -
    have "own_height (?k, ?o)" using assms(3) by (simp add: own_height_def split: option.splits)
    then show ?thesis using assms(1) by (auto simp: tracker_wf_def list_all_iff dest!: set_bt_insert)
  qed
  then show ?thesis using r win bound assms(1) by (simp add: tracker_wf_def bt_invars)
qed

lemma tracker_wf_record:
  assumes "tracker_wf s" and "case ev of None \<Rightarrow> True | Some x \<Rightarrow> apl_block x = b"
  shows "tracker_wf (snd (record_observation b e ev s))"
  using record_observation_outcome [of b e ev s] consumed_choice [of s "bn_number b"]
    tracker_wf_consumed [OF assms(1)] recorded_wf [OF assms(1) _ assms(2)] assms(1) by metis

interpretation tracker: op_system tracker_exec tracker_wf
proof
  fix s and op :: tracker_op
  assume "tracker_wf s"
  then show "tracker_wf (tracker_exec op s)"
    by (cases op) (auto simp: tracker_wf_record record_with_portal_events_def record_with_portal_evidence_def
        tracker_wf_prune tracker_wf_raise initialize_consumed_through_def observe_portal_pause_def
        observe_finalized_l1_timestamp_def record_finalized_target_def mark_finalized_target_ready_def Let_def
        split: option.splits)
qed

lemma tracker_wf_default: "tracker_wf tracker_default"
  by (simp add: tracker_wf_def tracker_default_def bt_invars)


section \<open>Evidence outlives consumption\<close>

text \<open>The evidence of a block is at hand: in its observation, or among the recent evidence.\<close>

definition evidence_at :: "BlockNumHash \<Rightarrow> AuthenticatedPortalLogs \<Rightarrow> L1BlockTracker \<Rightarrow> bool" where
  "evidence_at b ev s \<longleftrightarrow>
     apl_block ev = b \<and>
     (case bt_get (observed_blocks s) (bn_number b) of
        Some obs \<Rightarrow> bo_hash obs = bn_hash b \<and> bo_portal_evidence obs = Some ev
      | None \<Rightarrow> bt_get (recent_portal_evidence s) (bn_number b) = Some ev) \<and>
     (case latest_observed s of None \<Rightarrow> False | Some l \<Rightarrow> bn_number b \<le> bn_number l)"

lemma evidence_at_logs: "evidence_at b ev s \<Longrightarrow> authenticated_portal_logs b s = Inr (Some ev)"
  by (auto simp: evidence_at_def authenticated_portal_logs_def split: option.splits)

lemma evidence_at_frame [simp]:
  "evidence_at b ev (tracker_notify s) = evidence_at b ev s"
  "evidence_at b ev (raise_pruned n s) = evidence_at b ev s"
  "evidence_at b ev (s\<lparr>portal_pause := p\<rparr>) = evidence_at b ev s"
  "evidence_at b ev (s\<lparr>tracker_l1_timestamp := t\<rparr>) = evidence_at b ev s"
  "evidence_at b ev (s\<lparr>tracker_target := g\<rparr>) = evidence_at b ev s"
  "evidence_at b ev (s\<lparr>pruned_through := c\<rparr>) = evidence_at b ev s"
  by (simp_all add: evidence_at_def raise_pruned_def cong: option.case_cong)

lemma evidence_at_record:
  assumes "evidence_at b ev s" and "bn_number b < - 1"
  shows "evidence_at b ev (snd (record_observation b' e' ev' s))"
proof -
  define c where "c = (case pruned_through s of Some c \<Rightarrow> c | None \<Rightarrow> saturating_sub (bn_number b') 1)"
  consider "snd (record_observation b' e' ev' s) = s"
    | "snd (record_observation b' e' ev' s) = s\<lparr>pruned_through := Some c\<rparr>"
    | "recorded b' e' ev' c s (snd (record_observation b' e' ev' s))"
    using record_observation_outcome [of b' e' ev' s] unfolding c_def by blast
  then show ?thesis
  proof cases
    case 3
    obtain l where l: "latest_observed s = Some l" "bn_number b \<le> bn_number l"
      using assms(1) by (auto simp: evidence_at_def split: option.splits)
    have k: "bn_number b' = saturating_add (bn_number l) 1"
      using 3 l by (simp add: recorded_def)
    have "bn_number b < bn_number b'"
      using l(2) assms(2) unsigned_less [of "bn_number l", where 'a = nat]
      by (simp add: k word_less_nat_alt word_le_nat_alt unat_saturating_add unat_max_word)
    then have "bn_number b \<noteq> bn_number b'" "bn_number b \<le> bn_number b'" by simp_all
    then have "evidence_at b ev (tracker_notify (s\<lparr>pruned_through := Some c,
       observed_blocks := bt_insert (bn_number b') obs (observed_blocks s), latest_observed := Some b'\<rparr>))" for obs
      using assms(1) by (cases "bt_get (observed_blocks s) (bn_number b)") (simp_all add: evidence_at_def bt_laws)
    then show ?thesis using 3 by (simp add: recorded_def)
  qed (use assms(1) in simp_all)
qed

lemma map_of_unique:
  assumes "(k, v) \<in> set xs" and "\<And>w. (k, w) \<in> set xs \<Longrightarrow> w = v"
  shows "map_of xs k = Some v"
proof (cases "map_of xs k")
  case None
  then show ?thesis using assms(1) by (force simp: map_of_eq_None_iff)
next
  case (Some w)
  then show ?thesis using assms(2) [OF map_of_SomeD [OF Some]] by simp
qed

lemma consumed_evidence_mem:
  assumes "tracker_wf s"
  shows "(k, ev) \<in> set (consumed_evidence n (observed_blocks s)) \<longleftrightarrow>
    k \<le> n \<and> (\<exists>obs. bt_get (observed_blocks s) k = Some obs \<and> bo_portal_evidence obs = Some ev)"
proof -
  have inv: "bt_invar (observed_blocks s)"
    and own: "\<And>h obs e. (h, obs) \<in> set (observed_blocks s) \<Longrightarrow> bo_portal_evidence obs = Some e
      \<Longrightarrow> bn_number (apl_block e) = h"
    using assms by (auto simp: tracker_wf_def list_all_iff own_height_def)
  have "(k, ev) \<in> set (consumed_evidence n (observed_blocks s)) \<longleftrightarrow>
      (\<exists>h obs. (h, obs) \<in> set (observed_blocks s) \<and> h \<le> n \<and> bo_portal_evidence obs = Some ev
        \<and> k = bn_number (apl_block ev))"
  proof -
    have "(k, ev) \<in> set (case x of None \<Rightarrow> [] | Some e \<Rightarrow> [(bn_number (apl_block e), e)]) \<longleftrightarrow>
        x = Some ev \<and> k = bn_number (apl_block ev)" for x by (cases x) auto
    then show ?thesis by (auto simp: consumed_evidence_def bt_retain_def)
  qed
  also have "\<dots> \<longleftrightarrow> (\<exists>obs. (k, obs) \<in> set (observed_blocks s) \<and> k \<le> n \<and> bo_portal_evidence obs = Some ev)"
    by (auto dest: own)
  finally show ?thesis by (auto simp: bt_get_mem_iff [OF inv])
qed

lemma evidence_at_prune:
  assumes wf: "tracker_wf s" and ev: "evidence_at b ev s"
    and near: "unat n < unat (bn_number b) + 256" and pos: "bn_number b \<noteq> 0"
  shows "evidence_at b ev (prune_through n s)"
proof -
  let ?k = "bn_number b" and ?es = "consumed_evidence n (observed_blocks s)"
  let ?recent = "bt_extend ?es (recent_portal_evidence s)"
  have "0 < unat ?k" using pos by (simp add: unat_gt_0)
  then have keep: "?k > saturating_sub n RECENT_PORTAL_EVIDENCE_BLOCKS" using near
    by (simp add: word_less_nat_alt unat_saturating_sub RECENT_PORTAL_EVIDENCE_BLOCKS_def)
  have recent: "bt_get ?recent ?k = Some ev" if gone: "bt_get (bt_retain (\<lambda>h. h > n) (observed_blocks s)) ?k = None"
  proof (cases "bt_get (observed_blocks s) ?k")
    case None
    then have "map_of (rev ?es) ?k = None"
      using consumed_evidence_mem [OF wf] by (fastforce simp: map_of_eq_None_iff)
    then show ?thesis using ev None by (simp add: bt_get_extend evidence_at_def)
  next
    case (Some obs)
    then have "?k \<le> n" using gone by (simp add: bt_laws not_less split: if_splits)
    moreover have "bo_portal_evidence obs = Some ev" using ev Some by (simp add: evidence_at_def)
    ultimately have "map_of (rev ?es) ?k = Some ev"
      using Some by (intro map_of_unique) (auto simp: consumed_evidence_mem [OF wf])
    then show ?thesis by (simp add: bt_get_extend)
  qed
  have after: "observed_blocks (prune_through n s) = bt_retain (\<lambda>h. h > n) (observed_blocks s)"
    "latest_observed (prune_through n s) = latest_observed s"
    "bt_get (recent_portal_evidence (prune_through n s)) ?k = bt_get ?recent ?k"
    using keep by (simp_all add: prune_through_def Let_def bt_laws)
  show ?thesis
  proof (cases "bt_get (bt_retain (\<lambda>h. h > n) (observed_blocks s)) ?k")
    case None
    then show ?thesis using recent [OF None] ev by (simp add: evidence_at_def after)
  next
    case (Some obs)
    then have "bt_get (observed_blocks s) ?k = Some obs" by (simp add: bt_laws split: if_splits)
    then show ?thesis using Some ev by (simp add: evidence_at_def after)
  qed
qed

text \<open>No pruning in the sequence reaches 256 blocks past the given height.\<close>

definition prunes_near :: "u64 \<Rightarrow> tracker_op list \<Rightarrow> bool" where
  "prunes_near k ops = list_all (\<lambda>op. case op of TrackPrune n \<Rightarrow> unat n < unat k + 256 | _ \<Rightarrow> True) ops"

lemma evidence_at_exec:
  assumes "tracker_wf s" and "evidence_at b ev s" and "prunes_near (bn_number b) [op]"
    and "bn_number b \<noteq> 0" and "bn_number b < - 1"
  shows "evidence_at b ev (tracker_exec op s)"
  using assms
  by (cases op) (auto simp: evidence_at_record record_with_portal_events_def record_with_portal_evidence_def
      evidence_at_prune prunes_near_def initialize_consumed_through_def observe_portal_pause_def
      observe_finalized_l1_timestamp_def record_finalized_target_def mark_finalized_target_ready_def Let_def
      split: option.splits)

lemma evidence_at_run:
  assumes "tracker_wf s" and "evidence_at b ev s" and "prunes_near (bn_number b) ops"
    and "bn_number b \<noteq> 0" and "bn_number b < - 1"
  shows "evidence_at b ev (fold tracker_exec ops s)"
  using assms(1-3)
proof (induction ops arbitrary: s)
  case Nil
  then show ?case by simp
next
  case (Cons op ops)
  then show ?case
    using evidence_at_exec [OF Cons.prems(1,2) _ assms(4,5), of op] tracker.exec_inv [OF Cons.prems(1)]
    by (simp add: prunes_near_def)
qed

lemma recorded_evidence_at:
  assumes "record_with_portal_evidence b p t e l s = (Inr (), s')"
    and "bt_get (observed_blocks s) (bn_number b) = None" and "latest_observed s \<noteq> Some b"
  shows "evidence_at b \<lparr>apl_block = b, apl_parent_hash = p, apl_timestamp_millis = t, apl_logs = l\<rparr> s'"
  using assms
  by (auto simp: record_with_portal_evidence_def record_observation_def Let_def evidence_at_def bt_laws
      split: option.splits if_splits)

text \<open>
  Authenticated evidence survives the block's consumption. Once the subscriber has recorded a
  block with its portal logs, asking for exactly this block returns these logs, whatever is
  recorded, announced and consumed afterwards, as long as no consumption reaches 256 blocks past
  it. (Height zero is excluded: its evidence is dropped when it is consumed.)
\<close>

lemma evidence_outlives_consumption:
  assumes "s = fold tracker_exec before tracker_default"
    and "record_with_portal_evidence b p t e l s = (Inr (), s')"
    and "observed_hash s (bn_number b) = None" and "latest_observed s \<noteq> Some b"
    and "bn_number b \<noteq> 0" and "bn_number b < - 1"
    and "prunes_near (bn_number b) after"
  shows "authenticated_portal_logs b (fold tracker_exec after s') =
    Inr (Some \<lparr>apl_block = b, apl_parent_hash = p, apl_timestamp_millis = t, apl_logs = l\<rparr>)"
proof (rule evidence_at_logs, rule evidence_at_run)
  have "tracker_wf (tracker_exec (TrackRecordEvidence b p t e l) s)"
    unfolding assms(1) by (rule tracker.exec_inv, rule tracker.run_inv, rule tracker_wf_default)
  then show "tracker_wf s'" using assms(2) by simp
  show "evidence_at b \<lparr>apl_block = b, apl_parent_hash = p, apl_timestamp_millis = t, apl_logs = l\<rparr> s'"
    using recorded_evidence_at [OF assms(2)] assms(3,4) by (simp add: observed_hash_def)
qed (use assms in simp_all)

lemma evidence_outlives_consumption_witness:
  "\<exists>s'. record_with_portal_evidence \<lparr>bn_number = 7, bn_hash = 70\<rparr> 60 5 no_events []
      (fold tracker_exec [TrackConsumed 6] tracker_default) = (Inr (), s')
    \<and> observed_hash s' 7 = Some 70
    \<and> authenticated_portal_logs \<lparr>bn_number = 7, bn_hash = 70\<rparr>
        (fold tracker_exec [TrackPrune 7, TrackRecord \<lparr>bn_number = 8, bn_hash = 80\<rparr> no_events, TrackPrune 8] s')
      = Inr (Some \<lparr>apl_block = \<lparr>bn_number = 7, bn_hash = 70\<rparr>, apl_parent_hash = 60, apl_timestamp_millis = 5,
          apl_logs = []\<rparr>)"
proof -
  let ?s = "fold tracker_exec [TrackConsumed 6] tracker_default" and ?b = "\<lparr>bn_number = 7, bn_hash = 70\<rparr>"
  let ?after = "[TrackPrune 7, TrackRecord \<lparr>bn_number = 8, bn_hash = 80\<rparr> no_events, TrackPrune 8]"
  have s: "observed_blocks ?s = []" "latest_observed ?s = None" "pruned_through ?s = Some 6"
    by (simp_all add: initialize_consumed_through_def tracker_default_def) (simp add: raise_pruned_def)
  obtain s' where s': "record_with_portal_evidence ?b 60 5 no_events [] ?s = (Inr (), s')" "observed_hash s' 7 = Some 70"
    using s by (simp add: record_with_portal_evidence_def record_observation_def Let_def saturating_add_def
        MAX_L1_LOOKAHEAD_BLOCKS_def observed_hash_def del: fold.simps)
  have "authenticated_portal_logs ?b (fold tracker_exec ?after s') =
      Inr (Some \<lparr>apl_block = ?b, apl_parent_hash = 60, apl_timestamp_millis = 5, apl_logs = []\<rparr>)"
    by (rule evidence_outlives_consumption [OF refl s'(1)])
      (use s in \<open>simp_all add: observed_hash_def prunes_near_def del: fold.simps\<close>)
  then show ?thesis using s' by blast
qed

end
