(* ===== verification/Leadership.thy ===== *)
theory Leadership
  imports BTree_Map Op_System
begin

text \<open>
  The leadership schedule of a multi-node zone (\<open>LeadershipSchedule\<close> and the types around it in
  \<open>crates/p2p/src/manifest.rs\<close>): finalized leadership transitions indexed by the Tempo block at which
  they become active, pruned as the local checkpoint advances, and an operator's forced-recovery
  override. Each public method takes the schedule's lock once. The watch channel is the count of its
  notifications.

  The specification is the schedule that never forgets a transition: the lemmas show that pruning
  does not change the authority of any anchor still to be consumed, and that publishing a transition
  does not change the authority of any anchor before its activation.
\<close>

type_synonym peer_id = b256

section \<open>Records\<close>

datatype NodeRole = Leader | Follower | RpcFollower

record LeadershipState =
  ls_epoch :: u64
  ls_leader :: peer_id
  ls_activation :: u64

record ForcedRecoveryState =
  fr_epoch :: u64
  fr_leader :: peer_id
  fr_recovery_block_hash :: b256
  fr_recovery_start :: u64
  fr_portal_activation :: "u64 option"

definition is_bounded :: "ForcedRecoveryState \<Rightarrow> bool" where
  "is_bounded r = (fr_portal_activation r \<noteq> None)"

definition leadership_record_for :: "ForcedRecoveryState \<Rightarrow> u64 \<Rightarrow> LeadershipState option" where
  "leadership_record_for r tempo_anchor =
     (if tempo_anchor < fr_recovery_start r \<or>
         (case fr_portal_activation r of None \<Rightarrow> False | Some activation \<Rightarrow> tempo_anchor \<ge> activation)
      then None
      else Some \<lparr>ls_epoch = fr_epoch r, ls_leader = fr_leader r, ls_activation = fr_recovery_start r\<rparr>)"

record LeadershipSchedule =
  transitions :: "(u64, LeadershipState) btree"
  applied_anchor :: "u64 option"
  forced_recovery :: "ForcedRecoveryState option"
  rpc_followers :: "peer_id set"
  changed :: nat

definition is_retained_leader :: "LeadershipSchedule \<Rightarrow> peer_id \<Rightarrow> bool" where
  "is_retained_leader s peer \<longleftrightarrow>
     list_ex (\<lambda>e. ls_leader (snd e) = peer) (transitions s) \<or>
     (case forced_recovery s of None \<Rightarrow> False | Some r \<Rightarrow> fr_leader r = peer)"

definition scheduled_leader :: "(u64, LeadershipState) btree \<Rightarrow> u64 \<Rightarrow> LeadershipState option" where
  "scheduled_leader m tempo_anchor = map_option snd (bt_last_le m tempo_anchor)"

definition leader_for :: "LeadershipSchedule \<Rightarrow> u64 \<Rightarrow> LeadershipState option" where
  "leader_for s tempo_anchor =
     (let scheduled = scheduled_leader (transitions s) tempo_anchor;
          recovery = Option.bind (forced_recovery s) (\<lambda>r. leadership_record_for r tempo_anchor) in
      case recovery of Some r \<Rightarrow> Some r | None \<Rightarrow> scheduled)"

definition next_anchor_record :: "LeadershipSchedule \<Rightarrow> LeadershipState option" where
  "next_anchor_record s =
     leader_for s (case applied_anchor s of None \<Rightarrow> - 1 | Some applied \<Rightarrow> saturating_add applied 1)"

definition maybe_bound_forced_recovery :: "LeadershipSchedule \<Rightarrow> LeadershipSchedule" where
  "maybe_bound_forced_recovery s =
     (case forced_recovery s of
        None \<Rightarrow> s
      | Some recovery \<Rightarrow>
          if is_bounded recovery then s
          else (case List.find (\<lambda>e. ls_epoch (snd e) \<ge> fr_epoch recovery) (transitions s) of
                  None \<Rightarrow> s
                | Some (_, record) \<Rightarrow>
                    s\<lparr>forced_recovery := Some (recovery\<lparr>fr_portal_activation := Some (ls_activation record)\<rparr>)\<rparr>))"

section \<open>Operations\<close>

definition for_membership :: "peer_id set \<Rightarrow> LeadershipSchedule" where
  "for_membership followers =
     \<lparr>transitions = [], applied_anchor = None, forced_recovery = None, rpc_followers = followers,
      changed = 0\<rparr>"

definition uninitialized :: LeadershipSchedule where
  "uninitialized = for_membership {}"

definition is_initialized :: "LeadershipSchedule \<Rightarrow> bool" where
  "is_initialized s = (transitions s \<noteq> [])"

definition send_replace :: "LeadershipSchedule \<Rightarrow> LeadershipSchedule" where
  "send_replace s = s\<lparr>changed := changed s + 1\<rparr>"

datatype schedule_error =
    ConflictingTransition LeadershipState LeadershipState
  | DuplicateEpoch u64 u64 u64
  | NonContiguousEpoch u64 u64
  | ActivationMovedBackwards u64 u64
  | EpochOverflow
  | ConflictingRecovery

text \<open>
  The part of \<open>publish\<close> that decides about the transitions; the result says whether the record is
  appended, and gives the record as stored. The addition \<open>last.epoch + 1\<close> of the source panics on
  overflow, which is the error \<open>EpochOverflow\<close> here.
\<close>

definition accept_transition ::
  "(u64, LeadershipState) btree \<Rightarrow> LeadershipState \<Rightarrow> schedule_error + (bool \<times> LeadershipState)" where
  "accept_transition m record0 =
     (let record = (if m = [] then record0\<lparr>ls_activation := 0\<rparr> else record0) in
      case bt_get m (ls_activation record) of
        Some existing \<Rightarrow>
          rbind (check (existing = record) (ConflictingTransition existing record)) (\<lambda>_.
          Inr (False, record))
      | None \<Rightarrow>
          (case bt_last m of
             None \<Rightarrow> Inr (True, record)
           | Some (last_activation, tip) \<Rightarrow>
               if ls_epoch record = ls_epoch tip
               then (if ls_leader record = ls_leader tip \<and> last_activation = 0 \<and> length m = 1
                     then Inr (False, record)
                     else Inl (DuplicateEpoch (ls_epoch record) last_activation (ls_activation record)))
               else
                 rbind (ok_or (checked_add (ls_epoch tip) 1) EpochOverflow) (\<lambda>expected.
                 rbind (check (ls_epoch record = expected)
                   (NonContiguousEpoch (ls_epoch tip) (ls_epoch record))) (\<lambda>_.
                 rbind (check (ls_activation record > last_activation)
                   (ActivationMovedBackwards last_activation (ls_activation record))) (\<lambda>_.
                 Inr (True, record))))))"

definition publish ::
  "LeadershipState \<Rightarrow> LeadershipSchedule \<Rightarrow> (schedule_error + bool) \<times> LeadershipSchedule" where
  "publish record0 s =
     (case accept_transition (transitions s) record0 of
        Inl e \<Rightarrow> (Inl e, s)
      | Inr (False, _) \<Rightarrow> (Inr False, s)
      | Inr (True, record) \<Rightarrow>
          (Inr True, send_replace (maybe_bound_forced_recovery
             (s\<lparr>transitions := bt_insert (ls_activation record) record (transitions s)\<rparr>))))"

text \<open>\<open>None\<close> is the panic of the \<open>expect\<close>.\<close>

definition seeded :: "LeadershipState \<Rightarrow> LeadershipSchedule option" where
  "seeded initial = (case publish initial uninitialized of (Inr _, s) \<Rightarrow> Some s | (Inl _, _) \<Rightarrow> None)"

definition latest :: "LeadershipSchedule \<Rightarrow> LeadershipState option" where
  "latest s = map_option snd (bt_last (transitions s))"

definition authority_snapshot :: "LeadershipSchedule \<Rightarrow> peer_id set \<times> LeadershipState option" where
  "authority_snapshot s =
     (ls_leader ` snd ` set (transitions s) \<union>
        (case forced_recovery s of None \<Rightarrow> {} | Some r \<Rightarrow> {fr_leader r}),
      next_anchor_record s)"

definition install_forced_recovery ::
  "u64 \<Rightarrow> peer_id \<Rightarrow> b256 \<Rightarrow> u64 \<Rightarrow> LeadershipSchedule \<Rightarrow> (schedule_error + bool) \<times> LeadershipSchedule" where
  "install_forced_recovery recovery_epoch leader recovery_block_hash recovery_start s =
     (case forced_recovery s of
        Some existing \<Rightarrow>
          if fr_epoch existing = recovery_epoch \<and> fr_leader existing = leader \<and>
             fr_recovery_block_hash existing = recovery_block_hash \<and>
             fr_recovery_start existing = recovery_start
          then (Inr False, s) else (Inl ConflictingRecovery, s)
      | None \<Rightarrow>
          (Inr True, send_replace (maybe_bound_forced_recovery
             (s\<lparr>forced_recovery := Some \<lparr>fr_epoch = recovery_epoch, fr_leader = leader,
                  fr_recovery_block_hash = recovery_block_hash, fr_recovery_start = recovery_start,
                  fr_portal_activation = None\<rparr>\<rparr>))))"

definition latest_observed_epoch :: "LeadershipSchedule \<Rightarrow> u64 option" where
  "latest_observed_epoch s = map_option ls_epoch (latest s)"

definition locally_applied_epoch :: "LeadershipSchedule \<Rightarrow> u64 option" where
  "locally_applied_epoch s =
     Option.bind (applied_anchor s) (\<lambda>applied. map_option ls_epoch (scheduled_leader (transitions s) applied))"

definition pending_transitions :: "LeadershipSchedule \<Rightarrow> nat" where
  "pending_transitions s =
     (let applied = (case applied_anchor s of None \<Rightarrow> 0 | Some a \<Rightarrow> a) in
      length (bt_retain (\<lambda>a. a \<ge> applied + 1) (transitions s)))"

text \<open>The first activation that is kept: the predecessor of the active one, if there is one.\<close>

definition prune_transitions :: "u64 \<Rightarrow> (u64, LeadershipState) btree \<Rightarrow> (u64, LeadershipState) btree" where
  "prune_transitions applied m =
     (case bt_last_le m (saturating_add applied 1) of
        None \<Rightarrow> m
      | Some (active, _) \<Rightarrow>
          let keep_from = (case bt_last (bt_retain (\<lambda>a. a < active) m) of
                             None \<Rightarrow> active | Some (predecessor, _) \<Rightarrow> predecessor) in
          bt_retain (\<lambda>activation. activation \<ge> keep_from) m)"

definition advance_applied :: "u64 option \<Rightarrow> u64 \<Rightarrow> u64" where
  "advance_applied old tempo_anchor =
     (case old of None \<Rightarrow> tempo_anchor | Some applied \<Rightarrow> max applied tempo_anchor)"

definition record_applied_anchor :: "u64 \<Rightarrow> LeadershipSchedule \<Rightarrow> LeadershipSchedule" where
  "record_applied_anchor tempo_anchor s =
     (let previous = next_anchor_record s;
          applied = advance_applied (applied_anchor s) tempo_anchor;
          s1 = s\<lparr>applied_anchor := Some applied, transitions := prune_transitions applied (transitions s)\<rparr>;
          recovery_completed =
            (case Option.bind (forced_recovery s1) fr_portal_activation of
               None \<Rightarrow> False | Some activation \<Rightarrow> applied \<ge> activation);
          s2 = (if recovery_completed then s1\<lparr>forced_recovery := None\<rparr> else s1) in
      if next_anchor_record s2 \<noteq> previous \<or> recovery_completed then send_replace s2 else s2)"

definition role_of :: "peer_id \<Rightarrow> peer_id \<Rightarrow> peer_id set \<Rightarrow> NodeRole" where
  "role_of key leader followers =
     (if key = leader then Leader else if key \<in> followers then RpcFollower else Follower)"

definition role_for :: "LeadershipSchedule \<Rightarrow> peer_id \<Rightarrow> u64 \<Rightarrow> NodeRole option" where
  "role_for s key tempo_anchor =
     map_option (\<lambda>record. role_of key (ls_leader record) (rpc_followers s)) (leader_for s tempo_anchor)"

definition is_rpc_only :: "LeadershipSchedule \<Rightarrow> peer_id \<Rightarrow> bool" where
  "is_rpc_only s key = (key \<in> rpc_followers s)"

definition is_quorum_member :: "LeadershipSchedule \<Rightarrow> peer_id \<Rightarrow> bool" where
  "is_quorum_member s key = (\<not> is_rpc_only s key)"

definition quorum_peers :: "LeadershipSchedule \<Rightarrow> peer_id list \<Rightarrow> peer_id list" where
  "quorum_peers s peers = filter (is_quorum_member s) peers"

section \<open>Ordered transitions\<close>

lemma last_filter: "xs \<noteq> [] \<Longrightarrow> Q (last xs) \<Longrightarrow> filter Q xs \<noteq> [] \<and> last (filter Q xs) = last xs"
  by (induction xs rule: rev_induct) auto

lemma bt_last_retain_ge:
  "bt_last m = Some (a, v) \<Longrightarrow> k \<le> a \<Longrightarrow> bt_last (bt_retain (\<lambda>x. k \<le> x) m) = Some (a, v)"
  using last_filter [of m "\<lambda>e. k \<le> fst e"] by (auto simp: bt_last_def bt_retain_def split: if_splits)

lemma bt_last_le_retain:
  assumes "bt_invar m" and "bt_contains m active" and "k \<le> active" and "active \<le> a"
  shows "bt_last_le (bt_retain (\<lambda>x. k \<le> x) m) a = bt_last_le m a"
proof -
  obtain x v where x: "bt_last_le m a = Some (x, v)"
    using assms(2,4) bt_last_le_None [of m a] by (cases "bt_last_le m a") auto
  then have "k \<le> x" using bt_last_le_Some(3) [OF assms(1) x assms(2,4)] assms(3) by simp
  then have "bt_last (bt_retain (\<lambda>b. k \<le> b) (bt_retain (\<lambda>b. b \<le> a) m)) = Some (x, v)"
    using x by (simp add: bt_last_le_def bt_last_retain_ge)
  then show ?thesis using x by (simp add: bt_last_le_def bt_retain_retain conj_commute)
qed

lemma bt_last_greatest: "bt_invar m \<Longrightarrow> bt_last m = Some (a, v) \<Longrightarrow> e \<in> set m \<Longrightarrow> fst e \<le> a"
  by (induction m rule: rev_induct)
    (auto simp: bt_last_def bt_invar_def sorted_wrt_append less_imp_le split: if_splits)

lemma bt_insert_above: "list_all (\<lambda>e. fst e < k) m \<Longrightarrow> bt_insert k v m = m @ [(k, v)]"
  by (induction m) auto

text \<open>Whether a record is appended depends on the last retained transition only.\<close>

lemma accept_transition_True:
  assumes "bt_invar m"
  shows "accept_transition m r = Inr (True, rec) \<longleftrightarrow>
    (case bt_last m of
       None \<Rightarrow> rec = r\<lparr>ls_activation := 0\<rparr>
     | Some (la, tip) \<Rightarrow> rec = r \<and> checked_add (ls_epoch tip) 1 = Some (ls_epoch r) \<and> la < ls_activation r)"
proof (cases "bt_last m")
  case None
  then show ?thesis by (auto simp: accept_transition_def bt_last_def split: if_splits)
next
  case (Some lt)
  then obtain la tip where l: "bt_last m = Some (la, tip)" and ne: "m \<noteq> []"
    by (cases lt) (auto simp: bt_last_def split: if_splits)
  have "bt_get m (ls_activation r) = None" if "la < ls_activation r"
    using that bt_last_greatest [OF assms l] by (fastforce simp: bt_get_None_iff not_le)
  moreover have "ls_epoch r \<noteq> ls_epoch tip" if "checked_add (ls_epoch tip) 1 = Some (ls_epoch r)"
    using checked_add_Some(2) [OF that] by auto
  ultimately show ?thesis using l ne
    by (auto simp: accept_transition_def Let_def split: option.splits if_splits)
qed

lemma accept_transition_insert:
  assumes "bt_invar m" and "accept_transition m r = Inr (True, rec)"
  shows "bt_insert (ls_activation rec) rec m = m @ [(ls_activation rec, rec)]"
proof (cases "bt_last m")
  case None
  then show ?thesis by (simp add: bt_last_def split: if_splits)
next
  case (Some lt)
  then obtain la tip where l: "bt_last m = Some (la, tip)" by (cases lt) simp
  then have "la < ls_activation rec" using assms by (simp add: accept_transition_True)
  then have "list_all (\<lambda>e. fst e < ls_activation rec) m"
    using bt_last_greatest [OF assms(1) l] by (meson le_less_trans list_all_iff)
  then show ?thesis by (rule bt_insert_above)
qed

section \<open>The schedule never loses an authority that still matters\<close>

text \<open>The transitions that a list of published records leaves when nothing is ever pruned.\<close>

definition add_published ::
  "LeadershipState \<Rightarrow> (u64, LeadershipState) btree \<Rightarrow> (u64, LeadershipState) btree" where
  "add_published r m =
     (case accept_transition m r of Inr (True, rec) \<Rightarrow> bt_insert (ls_activation rec) rec m | _ \<Rightarrow> m)"

datatype schedule_op = Publish LeadershipState | RecordApplied u64

fun schedule_exec :: "schedule_op \<Rightarrow> LeadershipSchedule \<Rightarrow> LeadershipSchedule" where
  "schedule_exec (Publish r) s = snd (publish r s)"
| "schedule_exec (RecordApplied a) s = record_applied_anchor a s"

fun published :: "schedule_op list \<Rightarrow> LeadershipState list" where
  "published [] = []"
| "published (Publish r # ops) = r # published ops"
| "published (RecordApplied a # ops) = published ops"

text \<open>
  The retained transitions are those from some activation on, and the one governing the next
  anchor is among them.
\<close>

definition retains :: "LeadershipSchedule \<Rightarrow> (u64, LeadershipState) btree \<Rightarrow> bool" where
  "retains s m \<longleftrightarrow> bt_invar m \<and> forced_recovery s = None \<and>
     (\<exists>k. transitions s = bt_retain (\<lambda>a. k \<le> a) m \<and>
        (k = 0 \<or> (\<exists>active applied. bt_contains m active \<and> k \<le> active \<and>
           applied_anchor s = Some applied \<and> active \<le> saturating_add applied 1)))"

lemma bt_contains_retain [simp]: "bt_contains (bt_retain p m) k \<longleftrightarrow> p k \<and> bt_contains m k"
  by (simp add: bt_contains_def bt_laws)

lemma bt_contains_last_le: "bt_invar m \<Longrightarrow> bt_contains m a \<Longrightarrow> bt_last m = Some (b, v) \<Longrightarrow> a \<le> b"
  using bt_last_greatest [of m b v]
  by (auto simp: bt_contains_def dest!: bt_get_Some_mem)

lemma retains_last:
  assumes "retains s m"
  shows "bt_last (transitions s) = bt_last m"
proof (cases "bt_last m")
  case None
  then show ?thesis using assms by (auto simp: retains_def bt_last_def bt_retain_def split: if_splits)
next
  case (Some e)
  obtain a v where l: "bt_last m = Some (a, v)" using Some by (cases e) simp
  from assms obtain k where k: "transitions s = bt_retain (\<lambda>a. k \<le> a) m"
    and "bt_invar m" "k = 0 \<or> (\<exists>active. bt_contains m active \<and> k \<le> active)"
    by (auto simp: retains_def)
  then have "k \<le> a" using bt_contains_last_le [OF _ _ l] by (auto intro: order_trans)
  then show ?thesis using k l by (simp add: bt_last_retain_ge)
qed

lemma retains_accept:
  assumes "retains s m"
  shows "accept_transition (transitions s) r = Inr (True, rec) \<longleftrightarrow> accept_transition m r = Inr (True, rec)"
proof -
  have "bt_invar (transitions s)" "bt_invar m"
    using assms by (auto simp: retains_def bt_invars)
  then show ?thesis by (simp add: accept_transition_True retains_last [OF assms])
qed

lemma publish_transitions:
  assumes "forced_recovery s = None"
  shows "transitions (snd (publish r s)) = add_published r (transitions s)
    \<and> applied_anchor (snd (publish r s)) = applied_anchor s
    \<and> forced_recovery (snd (publish r s)) = None"
  using assms
  by (auto simp: publish_def add_published_def maybe_bound_forced_recovery_def send_replace_def
      split: sum.splits bool.splits prod.splits)

lemma add_published_cases:
  obtains "add_published r m = m" "\<And>rec. accept_transition m r \<noteq> Inr (True, rec)"
  | rec where "accept_transition m r = Inr (True, rec)" "add_published r m = bt_insert (ls_activation rec) rec m"
  by (cases "\<exists>rec. accept_transition m r = Inr (True, rec)")
    (auto simp: add_published_def split: sum.splits bool.splits prod.splits)

lemma retains_publish:
  assumes "retains s m"
  shows "retains (snd (publish r s)) (add_published r m)"
proof -
  from assms obtain k where inv: "bt_invar m" and fr: "forced_recovery s = None"
    and k: "transitions s = bt_retain (\<lambda>a. k \<le> a) m"
    and keep: "k = 0 \<or> (\<exists>active applied. bt_contains m active \<and> k \<le> active \<and>
      applied_anchor s = Some applied \<and> active \<le> saturating_add applied 1)"
    by (auto simp: retains_def)
  note p = publish_transitions [OF fr, of r]
  show ?thesis
  proof (cases rule: add_published_cases [of r m])
    case 1
    then have "add_published r (transitions s) = transitions s"
      using retains_accept [OF assms] by (cases rule: add_published_cases [of r "transitions s"]) auto
    then show ?thesis using p 1(1) assms by (auto simp: retains_def)
  next
    case (2 rec)
    then have acc: "accept_transition (transitions s) r = Inr (True, rec)"
      using retains_accept [OF assms] by simp
    have new: "add_published r m = m @ [(ls_activation rec, rec)]"
      using 2 accept_transition_insert [OF inv] by simp
    have "add_published r (transitions s) = transitions s @ [(ls_activation rec, rec)]"
      using acc accept_transition_insert [of "transitions s" r rec] inv k
      by (simp add: add_published_def bt_invars)
    moreover have "k \<le> ls_activation rec"
    proof (cases "k = 0")
      case False
      then obtain active where "bt_contains m active" "k \<le> active" using keep by blast
      moreover from this(1) obtain la tip where l: "bt_last m = Some (la, tip)"
        by (cases m rule: rev_cases) (auto simp: bt_last_def bt_contains_def)
      ultimately have "k \<le> la" using bt_contains_last_le [OF inv _ l] by (auto intro: order_trans)
      then show ?thesis using 2(1) l inv by (auto simp: accept_transition_True)
    qed simp
    ultimately have t: "transitions (snd (publish r s)) = bt_retain (\<lambda>a. k \<le> a) (add_published r m)"
      using p k new by (simp add: bt_retain_def)
    have "bt_invar (add_published r m)" using 2(2) inv by (simp add: bt_invars)
    moreover have "bt_contains (add_published r m) a" if "bt_contains m a" for a
      using that 2(2) by (simp add: bt_contains_def bt_laws)
    ultimately show ?thesis using t p keep by (auto simp: retains_def)
  qed
qed

lemma saturating_succ_mono: "(a :: u64) \<le> b \<Longrightarrow> saturating_add a 1 \<le> saturating_add b 1"
  by (simp add: word_le_nat_alt unat_saturating_add)

lemma bt_last_mem: "bt_last m = Some e \<Longrightarrow> e \<in> set m"
  by (auto simp: bt_last_def split: if_splits)

lemma prune_transitions_retain:
  assumes "bt_invar m"
  shows "\<exists>k. prune_transitions applied m = bt_retain (\<lambda>a. k \<le> a) m \<and>
    (k = 0 \<or> (\<exists>active. bt_contains m active \<and> k \<le> active \<and> active \<le> saturating_add applied 1))"
proof (cases "bt_last_le m (saturating_add applied 1)")
  case None
  then have "prune_transitions applied m = bt_retain (\<lambda>a. 0 \<le> a) m"
    by (simp add: prune_transitions_def bt_retain_def)
  then show ?thesis by blast
next
  case (Some e)
  then obtain active v where e: "bt_last_le m (saturating_add applied 1) = Some (active, v)" by (cases e) simp
  note act = bt_last_le_Some(1,2) [OF assms e]
  define k where "k = (case bt_last (bt_retain (\<lambda>a. a < active) m) of
    None \<Rightarrow> active | Some (predecessor, _) \<Rightarrow> predecessor)"
  have "p < active" if "bt_last (bt_retain (\<lambda>a. a < active) m) = Some (p, w)" for p w
    using bt_last_mem [OF that] by (simp add: bt_retain_def)
  then have "k \<le> active" by (auto simp: k_def less_imp_le split: option.splits)
  moreover have "prune_transitions applied m = bt_retain (\<lambda>a. k \<le> a) m"
    using e by (simp add: prune_transitions_def k_def Let_def)
  ultimately show ?thesis using act by (auto simp: bt_contains_def)
qed

lemma record_applied_fields:
  assumes "forced_recovery s = None"
  shows "transitions (record_applied_anchor a s) =
      prune_transitions (advance_applied (applied_anchor s) a) (transitions s)
    \<and> applied_anchor (record_applied_anchor a s) = Some (advance_applied (applied_anchor s) a)
    \<and> forced_recovery (record_applied_anchor a s) = None"
  using assms by (simp add: record_applied_anchor_def Let_def send_replace_def)

lemma retains_record_applied:
  assumes "retains s m"
  shows "retains (record_applied_anchor a s) m"
proof -
  from assms obtain k where inv: "bt_invar m" and fr: "forced_recovery s = None"
    and k: "transitions s = bt_retain (\<lambda>a. k \<le> a) m"
    and keep: "k = 0 \<or> (\<exists>active applied. bt_contains m active \<and> k \<le> active \<and>
      applied_anchor s = Some applied \<and> active \<le> saturating_add applied 1)"
    by (auto simp: retains_def)
  let ?ap = "advance_applied (applied_anchor s) a"
  have mono: "active \<le> saturating_add ?ap 1" if "applied_anchor s = Some x" "active \<le> saturating_add x 1" for x active
    using that saturating_succ_mono [of x ?ap] by (auto simp: advance_applied_def)
  have "bt_invar (transitions s)" using inv k by (simp add: bt_invars)
  from prune_transitions_retain [OF this, of ?ap] obtain j where
    j: "prune_transitions ?ap (transitions s) = bt_retain (\<lambda>a. j \<le> a) (transitions s)"
    and keepj: "j = 0 \<or> (\<exists>active. bt_contains (transitions s) active \<and> j \<le> active \<and> active \<le> saturating_add ?ap 1)"
    by blast
  have t: "transitions (record_applied_anchor a s) = bt_retain (\<lambda>a. max k j \<le> a) m"
    using record_applied_fields [OF fr, of a] j k by (simp add: bt_retain_retain)
  have "max k j = 0 \<or> (\<exists>active. bt_contains m active \<and> max k j \<le> active \<and> active \<le> saturating_add ?ap 1)"
  proof (cases "j = 0")
    case True
    then show ?thesis using keep mono by (auto simp: max_def)
  next
    case False
    then show ?thesis using keepj k by auto
  qed
  then show ?thesis
    unfolding retains_def using inv record_applied_fields [OF fr, of a]
    by (intro conjI exI [of _ "max k j"] t) simp_all
qed

lemma retains_run:
  "retains s m \<Longrightarrow> retains (fold schedule_exec ops s) (fold add_published (published ops) m)"
  by (induction ops arbitrary: s m rule: published.induct)
    (simp_all add: retains_publish retains_record_applied)

text \<open>Above the applied anchor the pruned and the complete schedule agree.\<close>

definition unapplied :: "LeadershipSchedule \<Rightarrow> u64 \<Rightarrow> bool" where
  "unapplied s a = (case applied_anchor s of None \<Rightarrow> True | Some applied \<Rightarrow> applied < a)"

lemma retains_leader:
  assumes "retains s m" and "unapplied s a"
  shows "leader_for s a = scheduled_leader m a"
proof -
  from assms(1) obtain k where inv: "bt_invar m" and fr: "forced_recovery s = None"
    and k: "transitions s = bt_retain (\<lambda>a. k \<le> a) m"
    and keep: "k = 0 \<or> (\<exists>active applied. bt_contains m active \<and> k \<le> active \<and>
      applied_anchor s = Some applied \<and> active \<le> saturating_add applied 1)"
    by (auto simp: retains_def)
  have "bt_last_le (transitions s) a = bt_last_le m a"
  proof (cases "k = 0")
    case True
    then show ?thesis using k by (simp add: bt_retain_def)
  next
    case False
    then obtain active applied where act: "bt_contains m active" "k \<le> active"
      "applied_anchor s = Some applied" "active \<le> saturating_add applied 1" using keep by blast
    then have "applied < a" using assms(2) by (simp add: unapplied_def)
    then have "active \<le> a" using act(4)
      by (simp add: word_le_nat_alt word_less_nat_alt unat_saturating_add)
    then show ?thesis using bt_last_le_retain [OF inv act(1,2)] k by simp
  qed
  then show ?thesis using fr by (simp add: leader_for_def scheduled_leader_def)
qed

lemma retains_new: "retains (for_membership followers) []"
  by (simp add: retains_def for_membership_def bt_invars bt_retain_def)

text \<open>
  C37. Pruning never changes who leads: after any sequence of published transitions and applied
  checkpoints, the leader of every anchor above the applied one is the leader in the schedule that
  keeps every transition ever accepted.
\<close>

theorem leader_for_refines_history:
  assumes "unapplied (fold schedule_exec ops (for_membership followers)) a"
  shows "leader_for (fold schedule_exec ops (for_membership followers)) a =
    scheduled_leader (fold add_published (published ops) []) a"
  by (rule retains_leader [OF retains_run [OF retains_new] assms])

section \<open>The schedule with forced recovery\<close>

text \<open>
  Activations increase, epochs are consecutive, every record is stored under its activation, and an
  override that finalized L1 has not bounded is newer than every retained transition.
\<close>

definition consecutive :: "(u64, LeadershipState) btree \<Rightarrow> bool" where
  "consecutive m = successively (\<lambda>x y. unat (ls_epoch (snd y)) = unat (ls_epoch (snd x)) + 1) m"

definition schedule_wf :: "LeadershipSchedule \<Rightarrow> bool" where
  "schedule_wf s \<longleftrightarrow>
     bt_invar (transitions s) \<and> consecutive (transitions s) \<and>
     list_all (\<lambda>e. ls_activation (snd e) = fst e) (transitions s) \<and>
     (case forced_recovery s of None \<Rightarrow> True | Some r \<Rightarrow>
        is_bounded r \<or> list_all (\<lambda>e. ls_epoch (snd e) < fr_epoch r) (transitions s))"

datatype authority_op =
    AuthPublish LeadershipState
  | AuthInstall u64 peer_id b256 u64
  | AuthApplied u64

fun authority_exec :: "authority_op \<Rightarrow> LeadershipSchedule \<Rightarrow> LeadershipSchedule" where
  "authority_exec (AuthPublish r) s = snd (publish r s)"
| "authority_exec (AuthInstall e l h b) s = snd (install_forced_recovery e l h b s)"
| "authority_exec (AuthApplied a) s = record_applied_anchor a s"

lemma schedule_wf_send_replace [simp]: "schedule_wf (send_replace s) = schedule_wf s"
  by (simp add: schedule_wf_def send_replace_def split: option.splits)

lemma find_None_list_all: "List.find P xs = None \<Longrightarrow> list_all (\<lambda>x. \<not> P x) xs"
  by (induction xs) (auto split: if_splits)

lemma schedule_wf_bound:
  assumes "bt_invar (transitions s)" "consecutive (transitions s)"
    "list_all (\<lambda>e. ls_activation (snd e) = fst e) (transitions s)"
  shows "schedule_wf (maybe_bound_forced_recovery s)"
  using assms
  by (auto simp: schedule_wf_def maybe_bound_forced_recovery_def is_bounded_def not_le
      split: option.splits dest!: find_None_list_all)

lemma schedule_wf_publish: "schedule_wf s \<Longrightarrow> schedule_wf (snd (publish r s))"
proof -
  assume wf: "schedule_wf s"
  then have inv: "bt_invar (transitions s)" by (simp add: schedule_wf_def)
  have "schedule_wf (maybe_bound_forced_recovery
      (s\<lparr>transitions := bt_insert (ls_activation rec) rec (transitions s)\<rparr>))"
    if acc: "accept_transition (transitions s) r = Inr (True, rec)" for rec
  proof (rule schedule_wf_bound)
    note ins = accept_transition_insert [OF inv acc]
    have "unat (ls_epoch rec) = unat (ls_epoch (snd (last (transitions s)))) + 1" if "transitions s \<noteq> []"
    proof -
      have "bt_last (transitions s) = Some (fst (last (transitions s)), snd (last (transitions s)))"
        using that by (simp add: bt_last_def)
      then show ?thesis using acc accept_transition_True [OF inv, of r rec]
        by (auto dest: checked_add_Some(2))
    qed
    then show "consecutive (transitions (s\<lparr>transitions := bt_insert (ls_activation rec) rec (transitions s)\<rparr>))"
      using wf ins by (auto simp: schedule_wf_def consecutive_def successively_append_iff)
    show "list_all (\<lambda>e. ls_activation (snd e) = fst e)
        (transitions (s\<lparr>transitions := bt_insert (ls_activation rec) rec (transitions s)\<rparr>))"
      using wf ins by (simp add: schedule_wf_def)
  qed (use inv in \<open>simp add: bt_invars\<close>)
  then show ?thesis using wf by (auto simp: publish_def split: sum.splits prod.splits bool.splits)
qed

lemma schedule_wf_install: "schedule_wf s \<Longrightarrow> schedule_wf (snd (install_forced_recovery e l h b s))"
  by (auto simp: install_forced_recovery_def split: option.splits intro!: schedule_wf_bound)
    (simp_all add: schedule_wf_def)

lemma retain_ge_dropWhile: "bt_invar m \<Longrightarrow> bt_retain (\<lambda>a. k \<le> a) m = dropWhile (\<lambda>e. fst e < k) m"
proof (induction m)
  case Nil
  then show ?case by (simp add: bt_retain_def)
next
  case (Cons e m)
  show ?case
  proof (cases "fst e < k")
    case True
    then show ?thesis using Cons by (cases e) (auto simp: bt_retain_def bt_invar_Cons)
  next
    case False
    have "filter (\<lambda>e. k \<le> fst e) m = m"
      using False Cons.prems by (cases e) (auto simp: bt_invar_Cons filter_id_conv not_less)
    then show ?thesis using False by (simp add: bt_retain_def)
  qed
qed

lemma consecutive_retain:
  assumes "bt_invar m" and "consecutive m"
  shows "consecutive (bt_retain (\<lambda>a. k \<le> a) m)"
proof -
  have "consecutive (takeWhile (\<lambda>e. fst e < k) m @ dropWhile (\<lambda>e. fst e < k) m)" using assms by simp
  then show ?thesis
    unfolding consecutive_def retain_ge_dropWhile [OF assms(1)] successively_append_iff by blast
qed

lemma list_all_retain: "list_all P m \<Longrightarrow> list_all P (bt_retain q m)"
  by (auto simp: list_all_iff bt_retain_def)

lemma schedule_wf_record_applied: "schedule_wf s \<Longrightarrow> schedule_wf (record_applied_anchor a s)"
proof -
  assume wf: "schedule_wf s"
  then obtain k where k: "prune_transitions (advance_applied (applied_anchor s) a) (transitions s) =
      bt_retain (\<lambda>a. k \<le> a) (transitions s)"
    using prune_transitions_retain by (auto simp: schedule_wf_def)
  have "schedule_wf (s\<lparr>applied_anchor := Some x, transitions := bt_retain (\<lambda>a. k \<le> a) (transitions s)\<rparr>)"
    "schedule_wf (s\<lparr>applied_anchor := Some x, transitions := bt_retain (\<lambda>a. k \<le> a) (transitions s),
      forced_recovery := None\<rparr>)" for x
    using wf by (auto simp: schedule_wf_def bt_invars consecutive_retain list_all_retain split: option.splits)
  then show ?thesis using k by (simp add: record_applied_anchor_def Let_def)
qed

text \<open>Recording an applied anchor keeps the authority of every anchor above it.\<close>

lemma applied_record_applied [simp]:
  "applied_anchor (record_applied_anchor a s) = Some (advance_applied (applied_anchor s) a)"
  by (simp add: record_applied_anchor_def Let_def send_replace_def)

lemma transitions_record_applied:
  "transitions (record_applied_anchor a s) =
     prune_transitions (advance_applied (applied_anchor s) a) (transitions s)"
  by (simp add: record_applied_anchor_def Let_def send_replace_def)

lemma bt_invar_record_applied:
  "bt_invar (transitions s) \<Longrightarrow> bt_invar (transitions (record_applied_anchor a s))"
  using prune_transitions_retain [of "transitions s" "advance_applied (applied_anchor s) a"]
  by (auto simp: transitions_record_applied bt_invars)

lemma scheduled_leader_prune:
  assumes "bt_invar m" and "applied < b"
  shows "scheduled_leader (prune_transitions applied m) b = scheduled_leader m b"
proof -
  obtain k where k: "prune_transitions applied m = bt_retain (\<lambda>a. k \<le> a) m"
    "k = 0 \<or> (\<exists>active. bt_contains m active \<and> k \<le> active \<and> active \<le> saturating_add applied 1)"
    using prune_transitions_retain [OF assms(1)] by blast
  have "active \<le> b" if "active \<le> saturating_add applied 1" for active
    using that assms(2) by (simp add: word_le_nat_alt word_less_nat_alt unat_saturating_add)
  then have "bt_last_le (bt_retain (\<lambda>a. k \<le> a) m) b = bt_last_le m b"
    using k(2) bt_last_le_retain [OF assms(1)] by (auto simp: bt_retain_def)
  then show ?thesis using k(1) by (simp add: scheduled_leader_def)
qed

lemma leader_for_record_applied:
  assumes "bt_invar (transitions s)" and "advance_applied (applied_anchor s) a < b"
  shows "leader_for (record_applied_anchor a s) b = leader_for s b"
proof -
  let ?ap = "advance_applied (applied_anchor s) a"
  note t = transitions_record_applied [of a s]
  have "Option.bind (forced_recovery (record_applied_anchor a s)) (\<lambda>r. leadership_record_for r b) =
      Option.bind (forced_recovery s) (\<lambda>r. leadership_record_for r b)"
    using assms(2)
    by (cases "forced_recovery s")
      (auto simp: record_applied_anchor_def Let_def send_replace_def leadership_record_for_def split: option.splits)
  then show ?thesis using t scheduled_leader_prune [OF assms] by (simp add: leader_for_def)
qed

interpretation authority: op_system authority_exec schedule_wf
proof
  fix s and op :: authority_op
  assume "schedule_wf s"
  then show "schedule_wf (authority_exec op s)"
    by (cases op) (simp_all add: schedule_wf_publish schedule_wf_install schedule_wf_record_applied)
qed

lemma schedule_wf_new: "schedule_wf (for_membership followers)"
  by (simp add: schedule_wf_def for_membership_def bt_invars consecutive_def)

lemma find_snoc_absent:
  "list_all (\<lambda>x. \<not> P x) xs \<Longrightarrow> List.find P (xs @ [y]) = (if P y then Some y else None)"
  by (induction xs) auto

lemma scheduled_leader_insert_later:
  "bt_invar m \<Longrightarrow> a < k \<Longrightarrow> scheduled_leader (bt_insert k v m) a = scheduled_leader m a"
  by (simp add: scheduled_leader_def bt_last_le_def bt.retain_insert_outside not_le)

lemma publish_earlier:
  assumes "schedule_wf s" and "publish r s = (Inr True, s')"
    and "a < (if transitions s = [] then 0 else ls_activation r)"
  shows "leader_for s' a = leader_for s a"
proof -
  have inv: "bt_invar (transitions s)" using assms(1) by (simp add: schedule_wf_def)
  from assms(3) have ne: "transitions s \<noteq> []" and a: "a < ls_activation r" by (auto split: if_splits)
  from assms(2) obtain rec where acc: "accept_transition (transitions s) r = Inr (True, rec)"
    and s': "s' = send_replace (maybe_bound_forced_recovery
      (s\<lparr>transitions := bt_insert (ls_activation rec) rec (transitions s)\<rparr>))"
    by (auto simp: publish_def split: sum.splits prod.splits bool.splits)
  have rec: "rec = r" using acc ne by (simp add: accept_transition_True [OF inv] bt_last_def split: prod.splits)
  have sched: "scheduled_leader (transitions s') a = scheduled_leader (transitions s) a"
    using s' rec scheduled_leader_insert_later [OF inv a]
    by (auto simp: maybe_bound_forced_recovery_def send_replace_def split: option.splits)
  show ?thesis
  proof (cases "forced_recovery s")
    case None
    then show ?thesis using s' sched by (simp add: leader_for_def maybe_bound_forced_recovery_def send_replace_def)
  next
    case (Some f)
    have same: "Option.bind (forced_recovery s') (\<lambda>r. leadership_record_for r a) = leadership_record_for f a"
    proof (cases "is_bounded f")
      case True
      then show ?thesis using s' Some by (simp add: maybe_bound_forced_recovery_def send_replace_def)
    next
      case False
      then have "list_all (\<lambda>e. \<not> fr_epoch f \<le> ls_epoch (snd e)) (transitions s)"
        using assms(1) Some by (simp add: schedule_wf_def not_le)
      from find_snoc_absent [OF this, of "(ls_activation r, r)"]
      have "List.find (\<lambda>e. fr_epoch f \<le> ls_epoch (snd e)) (bt_insert (ls_activation rec) rec (transitions s)) =
          (if fr_epoch f \<le> ls_epoch r then Some (ls_activation r, r) else None)"
        using accept_transition_insert [OF inv acc] rec by simp
      then show ?thesis
        using s' Some False a [folded not_le]
        by (simp add: maybe_bound_forced_recovery_def send_replace_def leadership_record_for_def
            is_bounded_def)
    qed
    then show ?thesis using Some sched by (simp add: leader_for_def)
  qed
qed

text \<open>
  C38. The authority over an anchor is settled by the transitions up to it. On any schedule reached
  by publications, applied checkpoints and forced recoveries, publishing a further transition leaves
  the leader of every anchor before its activation as it was, also while a recovery override is in
  force that the transition bounds.
\<close>

theorem publish_keeps_earlier_authority:
  assumes "publish r (fold authority_exec ops (for_membership followers)) = (Inr True, s')"
    and "a < (if transitions (fold authority_exec ops (for_membership followers)) = [] then 0 else ls_activation r)"
  shows "leader_for s' a = leader_for (fold authority_exec ops (for_membership followers)) a"
  using publish_earlier [OF authority.run_inv [OF schedule_wf_new] assms] .

text \<open>
  Whatever is published, installed and applied, and however the calls fail, the retained
  transitions have increasing activations and consecutive epochs, each stored under its activation,
  and an unbounded recovery override has an epoch above all of them.
\<close>

lemma schedule_stays_well_formed: "schedule_wf (fold authority_exec ops (for_membership followers))"
  by (rule authority.run_inv [OF schedule_wf_new])

text \<open>
  A replay of the first transition is accepted as a no-op only as long as no other transition has
  followed: the record is stored with activation zero, so it is not found under its own activation,
  and the comparison with the last record fails.
\<close>

lemma first_transition_replay_rejected:
  defines "r1 \<equiv> \<lparr>ls_epoch = 1, ls_leader = 10, ls_activation = 500\<rparr>"
    and "r2 \<equiv> \<lparr>ls_epoch = 2, ls_leader = 20, ls_activation = 600\<rparr>"
  shows "fst (publish r1 (fold schedule_exec [Publish r1] uninitialized)) = Inr False"
    and "fst (publish r1 (fold schedule_exec [Publish r1, Publish r2] uninitialized)) = Inl (NonContiguousEpoch 2 1)"
  by (simp_all add: r1_def r2_def publish_def accept_transition_def uninitialized_def for_membership_def
      Let_def maybe_bound_forced_recovery_def send_replace_def bt_last_def checked_add_def)

section \<open>Witnesses\<close>

definition sample_transitions :: "LeadershipState list" where
  "sample_transitions = [\<lparr>ls_epoch = 1, ls_leader = 10, ls_activation = 0\<rparr>,
     \<lparr>ls_epoch = 2, ls_leader = 20, ls_activation = 100\<rparr>, \<lparr>ls_epoch = 3, ls_leader = 30, ls_activation = 200\<rparr>]"

lemmas schedule_eval = sample_transitions_def publish_def accept_transition_def for_membership_def Let_def
  maybe_bound_forced_recovery_def send_replace_def bt_last_def checked_add_def record_applied_anchor_def
  advance_applied_def prune_transitions_def bt_last_le_def bt_retain_def saturating_add_def
  next_anchor_record_def leader_for_def scheduled_leader_def unapplied_def is_bounded_def
  leadership_record_for_def install_forced_recovery_def

theorem leader_for_refines_history_witness:
  "unapplied (fold schedule_exec (map Publish sample_transitions @ [RecordApplied 150, RecordApplied 199])
     (for_membership {})) 200 \<and>
   leader_for (fold schedule_exec (map Publish sample_transitions @ [RecordApplied 150, RecordApplied 199])
     (for_membership {})) 200 = Some \<lparr>ls_epoch = 3, ls_leader = 30, ls_activation = 200\<rparr>"
proof -
  let ?ops = "map Publish sample_transitions @ [RecordApplied 150, RecordApplied 199]"
  have u: "unapplied (fold schedule_exec ?ops (for_membership {})) 200" by (simp add: schedule_eval)
  have "scheduled_leader (fold add_published (published ?ops) []) 200 =
      Some \<lparr>ls_epoch = 3, ls_leader = 30, ls_activation = 200\<rparr>"
    by (simp add: schedule_eval add_published_def)
  then show ?thesis using u leader_for_refines_history [OF u] by simp
qed

theorem publish_keeps_earlier_authority_witness:
  "\<exists>s'. publish \<lparr>ls_epoch = 2, ls_leader = 20, ls_activation = 100\<rparr>
      (fold authority_exec [AuthPublish \<lparr>ls_epoch = 1, ls_leader = 10, ls_activation = 0\<rparr>,
         AuthInstall 2 40 0 50] (for_membership {})) = (Inr True, s')
    \<and> leader_for s' 60 = Some \<lparr>ls_epoch = 2, ls_leader = 40, ls_activation = 50\<rparr>"
proof -
  let ?ops = "[AuthPublish \<lparr>ls_epoch = 1, ls_leader = 10, ls_activation = 0\<rparr>, AuthInstall 2 40 0 50]"
  let ?s = "fold authority_exec ?ops (for_membership {})"
  let ?r = "\<lparr>ls_epoch = 2, ls_leader = 20, ls_activation = 100\<rparr>"
  have "fst (publish ?r ?s) = Inr True" by (simp add: schedule_eval)
  then obtain s' where p: "publish ?r ?s = (Inr True, s')" by (cases "publish ?r ?s") simp
  have "60 < (if transitions ?s = [] then 0 else ls_activation ?r)" by (simp add: schedule_eval)
  from publish_keeps_earlier_authority [OF p this]
  have "leader_for s' 60 = leader_for ?s 60" .
  also have "\<dots> = Some \<lparr>ls_epoch = 2, ls_leader = 40, ls_activation = 50\<rparr>"
    by (simp add: schedule_eval word_le_nat_alt)
  finally show ?thesis using p by blast
qed

end
