(* ===== verification/Node_Engine.thy ===== *)
theory Node_Engine
  imports L1_Import L1_Tracker Leadership
begin

text \<open>
  Block production: the engine that turns queued L1 blocks into zone blocks (\<open>node/src/engine.rs\<close>).

  The production permit asks the leadership schedule who may import an anchor; the import decision
  chooses between a full block and a checkpoint-only one; \<open>advance\<close> builds the block through the
  engine API, persists its proofs and only then consumes the L1 input; \<open>drain_all_available\<close> repeats
  this while work is available. The queue, the tracker, the schedule and the key ring are shared with
  other tasks, so every awaited call may change them: the services are functions on the shared state.
  The chain specification, the header clock, the engine API, the payload builder, the proof collector
  and the system clock are parameters.
\<close>

section \<open>The production permit\<close>

datatype EngineExit = Cancelled | Demoted u64 u64 | Fenced u64

definition permit_check :: "LeadershipSchedule \<Rightarrow> peer_id \<Rightarrow> u64 \<Rightarrow> EngineExit option" where
  "permit_check schedule local_key tempo_anchor =
     (case leader_for schedule tempo_anchor of
        None \<Rightarrow> Some (Fenced tempo_anchor)
      | Some r \<Rightarrow> if ls_leader r = local_key then None
                  else Some (Demoted tempo_anchor (ls_epoch r)))"

record AvailableTempoImport =
  ai_l1_block :: L1BlockDeposits
  ai_checkpoint_headers :: "SealedHeader list"
  ai_wall_clock :: u64

text \<open>The loop over the checkpoint headers: \<open>index\<close> of the header, the headers left, all headers.\<close>

fun permit_loop ::
  "(u64 \<Rightarrow> EngineExit option) \<Rightarrow> nat \<Rightarrow> SealedHeader list \<Rightarrow> SealedHeader list
   \<Rightarrow> EngineExit option \<times> SealedHeader list" where
  "permit_loop chk index [] hs = (None, hs)"
| "permit_loop chk index (h # rest) hs =
     (case chk (sh_number h) of
        None \<Rightarrow> permit_loop chk (index + 1) rest hs
      | Some exit \<Rightarrow> if index = 0 then (Some exit, hs) else (None, take index hs))"

definition apply_permit ::
  "(u64 \<Rightarrow> EngineExit option) \<Rightarrow> AvailableTempoImport \<Rightarrow> EngineExit option \<times> AvailableTempoImport" where
  "apply_permit chk self =
     (case chk (sh_number (lb_header (ai_l1_block self))) of
        Some exit \<Rightarrow> (Some exit, self)
      | None \<Rightarrow>
          (case permit_loop chk 0 (ai_checkpoint_headers self) (ai_checkpoint_headers self) of
             (exit, hs) \<Rightarrow> (exit, self\<lparr>ai_checkpoint_headers := hs\<rparr>)))"

section \<open>The import decision\<close>

text \<open>What the engine uses of the chain specification and of the header type.\<close>

record 'f chain_spec =
  cs_hardfork_at :: "u64 \<Rightarrow> 'f"
  cs_is_t13 :: "'f \<Rightarrow> bool"
  cs_is_shanghai_at :: "u64 \<Rightarrow> bool"
  cs_is_cancun_at :: "u64 \<Rightarrow> bool"
  cs_timestamp_millis :: "TempoHeader \<Rightarrow> u64"

definition sh_timestamp_millis :: "'f chain_spec \<Rightarrow> SealedHeader \<Rightarrow> u64" where
  "sh_timestamp_millis spec h = cs_timestamp_millis spec (sh_header h)"

datatype TempoImportDecision =
    WaitForHardforkMatch
  | WaitForFinalizedTarget
  | ImportFull
  | ImportCheckpoints nat

definition zone_timestamp_millis :: "u64 \<Rightarrow> u64 \<Rightarrow> u64 \<Rightarrow> u64" where
  "zone_timestamp_millis l1 parent wall_clock = max (max l1 wall_clock) parent"

definition tempo_import_decision ::
  "'f::linorder chain_spec \<Rightarrow> SealedHeader list \<Rightarrow> SealedHeader \<Rightarrow> u64 option \<Rightarrow> FinalizedTarget option
   \<Rightarrow> u64 \<Rightarrow> u64 \<Rightarrow> TempoImportDecision" where
  "tempo_import_decision spec queued_headers latest_l1_header finalized_l1_timestamp finalized_target
       parent_timestamp_millis wall_clock_timestamp_millis =
     (case queued_headers of
        [] \<Rightarrow> ImportFull
      | first_header # _ \<Rightarrow>
          let first_l1_hardfork = cs_hardfork_at spec (th_timestamp (sh_header first_header));
              next_timestamp_millis = zone_timestamp_millis (sh_timestamp_millis spec first_header)
                parent_timestamp_millis wall_clock_timestamp_millis;
              zone_hardfork = cs_hardfork_at spec (next_timestamp_millis div 1000);
              l1_tip_hardfork = cs_hardfork_at spec (max (th_timestamp (sh_header latest_l1_header))
                (case finalized_l1_timestamp of None \<Rightarrow> 0 | Some t \<Rightarrow> t)) in
          if \<not> cs_is_t13 spec zone_hardfork then ImportFull
          else if zone_hardfork > l1_tip_hardfork then WaitForHardforkMatch
          else
            let target_is_visible = (case finalized_target of None \<Rightarrow> False
                  | Some target \<Rightarrow> sh_number (last queued_headers) \<ge> ft_number target);
                reserve_for_full = (finalized_target = None \<or> target_is_visible);
                checkpoint_count =
                  max (min (length queued_headers - of_bool reserve_for_full) MAX_TEMPO_HEADERS_PER_ZONE_BLOCK)
                    (of_bool (first_l1_hardfork < zone_hardfork)) in
            if checkpoint_count = 0
            then (if target_is_visible \<and>
                     (case finalized_target of None \<Rightarrow> False | Some target \<Rightarrow> \<not> ft_ready target)
                  then WaitForFinalizedTarget else ImportFull)
            else ImportCheckpoints checkpoint_count)"

section \<open>The engine\<close>

record 'x shared =
  nd_queue :: DepositQueue
  nd_tracker :: L1BlockTracker
  nd_schedule :: LeadershipSchedule
  nd_keys :: EncryptionKeys
  nd_ext :: 'x

datatype TempoImport =
    FullImport PreparedL1Block
  | CheckpointOnlyImport "SealedHeader list"

record EthPayloadAttributes =
  pa_timestamp :: u64
  pa_prev_randao :: b256
  pa_suggested_fee_recipient :: address
  pa_withdrawals :: "bytes list option"
  pa_parent_beacon_block_root :: "b256 option"
  pa_slot_number :: "u64 option"
  pa_target_gas_limit :: "u64 option"

record ZonePayloadAttributes =
  za_inner :: EthPayloadAttributes
  za_timestamp_millis_part :: u64
  za_tempo_import :: TempoImport

datatype engine_error =
    QueueFailed queue_error
  | PrepareFailed prepare_error
  | ServiceFailed
  | InvalidPayloadStatus
  | NoPayloadId
  | NoPayload
  | InvalidPayloadBlock u64
  | InvalidForkchoiceUpdate
  | LostLatestHeader
  | ClockFailed

record fcu_response =
  fcu_is_valid :: bool
  fcu_is_invalid :: bool
  fcu_payload_id :: "u64 option"

text \<open>
  The awaited services. \<open>sv_collect\<close> is the proof collector under the stop token, when there is one:
  it fails when the collector fails and when the engine is stopped while it waits.
\<close>

record ('x, 'p) services =
  sv_fork_choice_updated ::
    "b256 \<Rightarrow> ZonePayloadAttributes option \<Rightarrow> ('x shared, engine_error, fcu_response) eff"
  sv_resolve :: "u64 \<Rightarrow> ('x shared, engine_error, 'p option) eff"
  sv_header :: "'p \<Rightarrow> SealedHeader"
  sv_new_payload :: "'p \<Rightarrow> ('x shared, engine_error, bool) eff"
  sv_collect :: "(u64 \<Rightarrow> b256 \<Rightarrow> ('x shared, engine_error, unit) eff) option"
  sv_now_millis :: "'x shared \<Rightarrow> nat option"
  sv_stopped :: "'x shared \<Rightarrow> bool"

record 'x ZoneEngine =
  en_shared :: "'x shared"
  en_last_header :: SealedHeader
  en_fee_recipient :: address
  en_portal_address :: address
  en_production_permit :: "peer_id option"

type_synonym ('x, 'a) engine_eff = "('x ZoneEngine, engine_error, 'a) eff"

definition on_shared :: "('x shared, engine_error, 'a) eff \<Rightarrow> ('x, 'a) engine_eff" where
  "on_shared = ezoom en_shared (\<lambda>s e. e\<lparr>en_shared := s\<rparr>)"

definition on_queue :: "(PendingDeposits, queue_error, 'a) eff \<Rightarrow> ('x, 'a) engine_eff" where
  "on_queue m = on_shared (emap_err QueueFailed
     (ezoom (\<lambda>s. dq_inner (nd_queue s)) (\<lambda>q s. s\<lparr>nd_queue := (nd_queue s)\<lparr>dq_inner := q\<rparr>\<rparr>) m))"

definition en_queue :: "'x ZoneEngine \<Rightarrow> PendingDeposits" where
  "en_queue e = dq_inner (nd_queue (en_shared e))"

definition fork_choice_updated ::
  "('x, 'p) services \<Rightarrow> ZonePayloadAttributes option \<Rightarrow> ('x, fcu_response) engine_eff" where
  "fork_choice_updated sv attributes =
     ebind (eget en_last_header) (\<lambda>h.
     on_shared (sv_fork_choice_updated sv (sh_hash h) attributes))"

definition update_forkchoice_state :: "('x, 'p) services \<Rightarrow> ('x, unit) engine_eff" where
  "update_forkchoice_state sv =
     ebind (fork_choice_updated sv None) (\<lambda>res. echeck (fcu_is_valid res) InvalidForkchoiceUpdate)"

definition prepare_import ::
  "crypto_ops \<Rightarrow> deposit_abi \<Rightarrow> AvailableTempoImport \<Rightarrow> ('x, TempoImport) engine_eff" where
  "prepare_import co abi available =
     (if ai_checkpoint_headers available \<noteq> []
      then ereturn (CheckpointOnlyImport (ai_checkpoint_headers available))
      else
        ebind (eget (\<lambda>e. operational_work (en_queue e) (num_hash (lb_header (ai_l1_block available)))))
          (\<lambda>found.
        ebind (elift (map_err QueueFailed found)) (\<lambda>portal_work.
        ebind (eget (\<lambda>e. prepare_many co abi (nd_keys (en_shared e)) (en_portal_address e) portal_work))
          (\<lambda>prepared.
        ebind (elift (map_err PrepareFailed prepared)) (\<lambda>block. ereturn (FullImport block))))))"

definition final_header :: "AvailableTempoImport \<Rightarrow> SealedHeader" where
  "final_header available =
     (if ai_checkpoint_headers available \<noteq> [] then last (ai_checkpoint_headers available)
      else lb_header (ai_l1_block available))"

definition payload_attributes ::
  "'f chain_spec \<Rightarrow> address \<Rightarrow> u64 \<Rightarrow> TempoImport \<Rightarrow> ZonePayloadAttributes" where
  "payload_attributes spec fee_recipient timestamp_millis tempo_import =
     (let timestamp_secs = timestamp_millis div 1000 in
      \<lparr>za_inner =
         \<lparr>pa_timestamp = timestamp_secs, pa_prev_randao = 0, pa_suggested_fee_recipient = fee_recipient,
          pa_withdrawals = (if cs_is_shanghai_at spec timestamp_secs then Some [] else None),
          pa_parent_beacon_block_root = (if cs_is_cancun_at spec timestamp_secs then Some 0 else None),
          pa_slot_number = None, pa_target_gas_limit = None\<rparr>,
       za_timestamp_millis_part = timestamp_millis mod 1000,
       za_tempo_import = tempo_import\<rparr>)"

text \<open>From the forkchoice update that starts the build to the persisted proofs of the built block.\<close>

definition build_payload ::
  "('x, 'p) services \<Rightarrow> ZonePayloadAttributes \<Rightarrow> ('x, SealedHeader) engine_eff" where
  "build_payload sv attributes =
     ebind (fork_choice_updated sv (Some attributes)) (\<lambda>res.
     eseq (echeck (\<not> fcu_is_invalid res) InvalidPayloadStatus)
    (ebind (elift (ok_or (fcu_payload_id res) NoPayloadId)) (\<lambda>payload_id.
     ebind (on_shared (sv_resolve sv payload_id)) (\<lambda>resolved.
     ebind (elift (ok_or resolved NoPayload)) (\<lambda>payload.
     let header = sv_header sv payload; block_number = sh_number header in
     ebind (on_shared (sv_new_payload sv payload)) (\<lambda>valid.
     eseq (echeck valid (InvalidPayloadBlock block_number))
    (eseq (case sv_collect sv of
             None \<Rightarrow> ereturn ()
           | Some collect_and_persist \<Rightarrow> on_shared (collect_and_persist block_number (sh_hash header)))
          (ereturn header))))))))"

definition consume_queue :: "AvailableTempoImport \<Rightarrow> unit queue_eff" where
  "consume_queue available =
     (if ai_checkpoint_headers available \<noteq> [] then defer_through (num_hash (final_header available))
      else confirm_operational (num_hash (final_header available)))"

definition consume_import :: "AvailableTempoImport \<Rightarrow> ('x, unit) engine_eff" where
  "consume_import available =
     (let l1_num_hash = num_hash (final_header available) in
      eseq (on_queue (consume_queue available))
           (emodify (\<lambda>e. e\<lparr>en_shared := (en_shared e)\<lparr>
              nd_tracker := prune_through (bn_number l1_num_hash) (nd_tracker (en_shared e)),
              nd_schedule := (case en_production_permit e of
                  None \<Rightarrow> nd_schedule (en_shared e)
                | Some _ \<Rightarrow> record_applied_anchor (bn_number l1_num_hash) (nd_schedule (en_shared e)))\<rparr>\<rparr>)))"

text \<open>An error of the last forkchoice update is logged and not returned.\<close>

definition elogged :: "('c, 'e, unit) eff \<Rightarrow> ('c, 'e, unit) eff" where
  "elogged m c = (Inr (), snd (m c))"

definition advance ::
  "crypto_ops \<Rightarrow> deposit_abi \<Rightarrow> 'f chain_spec \<Rightarrow> ('x, 'p) services \<Rightarrow> AvailableTempoImport
   \<Rightarrow> ('x, unit) engine_eff" where
  "advance co abi spec sv available =
     ebind (eget (\<lambda>e. zone_timestamp_millis (sh_timestamp_millis spec (final_header available))
        (sh_timestamp_millis spec (en_last_header e)) (ai_wall_clock available))) (\<lambda>timestamp_millis.
     ebind (prepare_import co abi available) (\<lambda>tempo_import.
     ebind (eget en_fee_recipient) (\<lambda>fee_recipient.
     ebind (build_payload sv (payload_attributes spec fee_recipient timestamp_millis tempo_import)) (\<lambda>header.
     eseq (consume_import available)
    (eseq (emodify (\<lambda>e. e\<lparr>en_last_header := header\<rparr>))
          (elogged (update_forkchoice_state sv)))))))"

text \<open>The candidate a decision selects from the front of the queue.\<close>

fun import_candidate ::
  "L1BlockDeposits \<Rightarrow> SealedHeader list \<Rightarrow> u64 \<Rightarrow> TempoImportDecision \<Rightarrow> AvailableTempoImport option" where
  "import_candidate l1_block queued_headers now WaitForHardforkMatch = None"
| "import_candidate l1_block queued_headers now WaitForFinalizedTarget = None"
| "import_candidate l1_block queued_headers now ImportFull =
     Some \<lparr>ai_l1_block = l1_block, ai_checkpoint_headers = [], ai_wall_clock = now\<rparr>"
| "import_candidate l1_block queued_headers now (ImportCheckpoints count) =
     Some \<lparr>ai_l1_block = l1_block, ai_checkpoint_headers = take count queued_headers, ai_wall_clock = now\<rparr>"

definition decide ::
  "'f::linorder chain_spec \<Rightarrow> 'x ZoneEngine \<Rightarrow> SealedHeader \<Rightarrow> u64 \<Rightarrow> TempoImportDecision" where
  "decide spec e latest_l1_header now =
     tempo_import_decision spec (peek_headers (MAX_TEMPO_HEADERS_PER_ZONE_BLOCK + 1) (en_queue e))
       latest_l1_header (tracker_l1_timestamp (nd_tracker (en_shared e)))
       (tracker_target (nd_tracker (en_shared e))) (sh_timestamp_millis spec (en_last_header e)) now"

text \<open>The clock fails before the Unix epoch and when the milliseconds do not fit 64 bits.\<close>

definition next_available ::
  "'f::linorder chain_spec \<Rightarrow> ('x, 'p) services \<Rightarrow> 'x ZoneEngine
   \<Rightarrow> engine_error + AvailableTempoImport option" where
  "next_available spec sv e =
     (case peek (en_queue e) of
        None \<Rightarrow> Inr None
      | Some l1_block \<Rightarrow>
          rbind (ok_or (latest_header (en_queue e)) LostLatestHeader) (\<lambda>latest_l1_header.
          rbind (ok_or (sv_now_millis sv (en_shared e)) ClockFailed) (\<lambda>now.
          rbind (check (now < 2 ^ 64) ClockFailed) (\<lambda>_.
          Inr (import_candidate l1_block
                 (peek_headers (MAX_TEMPO_HEADERS_PER_ZONE_BLOCK + 1) (en_queue e)) (of_nat now)
                 (decide spec e latest_l1_header (of_nat now)))))))"

definition engine_apply_permit ::
  "'x ZoneEngine \<Rightarrow> AvailableTempoImport \<Rightarrow> EngineExit option \<times> AvailableTempoImport" where
  "engine_apply_permit e block =
     (case en_production_permit e of
        None \<Rightarrow> (None, block)
      | Some local_key \<Rightarrow> apply_permit (permit_check (nd_schedule (en_shared e)) local_key) block)"

definition production_paused :: "'x ZoneEngine \<Rightarrow> bool" where
  "production_paused e = portal_paused (nd_tracker (en_shared e))"

partial_function (option) drain_all_available ::
  "crypto_ops \<Rightarrow> deposit_abi \<Rightarrow> 'f::linorder chain_spec \<Rightarrow> ('x, 'p) services \<Rightarrow> 'x ZoneEngine
   \<Rightarrow> ((engine_error + EngineExit option) \<times> 'x ZoneEngine) option" where
  "drain_all_available co abi spec sv e =
     (if sv_stopped sv (en_shared e) then Some (Inr (Some Cancelled), e)
      else (case next_available spec sv e of
          Inl err \<Rightarrow> Some (Inl err, e)
        | Inr None \<Rightarrow> Some (Inr None, e)
        | Inr (Some block) \<Rightarrow>
            (case engine_apply_permit e block of
               (Some exit, _) \<Rightarrow> Some (Inr (Some exit), e)
             | (None, block') \<Rightarrow>
                 if production_paused e then Some (Inr None, e)
                 else (case advance co abi spec sv block' e of
                     (Inl err, e') \<Rightarrow> Some (Inl err, e')
                   | (Inr _, e') \<Rightarrow> drain_all_available co abi spec sv e'))))"

text \<open>What the caller makes of the outcome; the pause after an error changes no state.\<close>

definition advance_all_available ::
  "crypto_ops \<Rightarrow> deposit_abi \<Rightarrow> 'f::linorder chain_spec \<Rightarrow> ('x, 'p) services \<Rightarrow> 'x ZoneEngine
   \<Rightarrow> (EngineExit option \<times> 'x ZoneEngine) option" where
  "advance_all_available co abi spec sv e =
     map_option (\<lambda>(r, e'). ((case r of
         Inr (Some (Demoted a n)) \<Rightarrow> Some (Demoted a n)
       | Inr (Some (Fenced a)) \<Rightarrow> Some (Fenced a)
       | _ \<Rightarrow> None), e')) (drain_all_available co abi spec sv e)"

section \<open>One leader per anchor\<close>

lemma permit_check_None:
  "permit_check s k a = None \<longleftrightarrow> (\<exists>r. leader_for s a = Some r \<and> ls_leader r = k)"
  by (auto simp: permit_check_def split: option.splits)

lemma add_published_later:
  assumes "bt_invar m" and "scheduled_leader m a = Some r" and "a < ls_activation p"
  shows "bt_invar (add_published p m) \<and> scheduled_leader (add_published p m) a = Some r"
proof (cases rule: add_published_cases [of p m])
  case 1
  then show ?thesis using assms by simp
next
  case (2 rec)
  have "m \<noteq> []" using assms(2) by (auto simp: scheduled_leader_def bt_last_le_def bt_retain_def bt_last_def)
  then have "rec = p" using accept_transition_True [OF assms(1)] 2(1)
    by (auto simp: bt_last_def split: option.splits)
  then show ?thesis using 2 assms by (simp add: bt_invars scheduled_leader_insert_later)
qed

lemma fold_published_later:
  "bt_invar m \<Longrightarrow> scheduled_leader m a = Some r \<Longrightarrow> \<forall>p \<in> set later. a < ls_activation p \<Longrightarrow>
     scheduled_leader (fold add_published later m) a = Some r"
  by (induction later arbitrary: m) (auto dest: add_published_later)


section \<open>What a permitted import is\<close>

lemma permit_loop_result:
  assumes "permit_loop chk i rest hs = (exit, hs')" and "hs = seen @ rest" and "i = length seen"
    and "list_all (\<lambda>h. chk (sh_number h) = None) seen"
  shows "(exit = None \<longrightarrow> hs' = takeWhile (\<lambda>h. chk (sh_number h) = None) hs \<and> (hs \<noteq> [] \<longrightarrow> hs' \<noteq> [])) \<and>
    (exit \<noteq> None \<longrightarrow> hs' = hs \<and> hs \<noteq> [] \<and> chk (sh_number (hd hs)) = exit)"
  using assms
proof (induction chk i rest hs arbitrary: seen rule: permit_loop.induct)
  case (1 chk i hs)
  then have "takeWhile (\<lambda>h. chk (sh_number h) = None) hs = hs" by (simp add: list_all_iff)
  then show ?case using 1 by (auto simp del: takeWhile_eq_all_conv)
next
  case (2 chk i h rest hs)
  have t: "takeWhile (\<lambda>h. chk (sh_number h) = None) hs =
      seen @ takeWhile (\<lambda>h. chk (sh_number h) = None) (h # rest)"
    using 2(3,5) by (simp add: list_all_iff)
  show ?case
  proof (cases "chk (sh_number h)")
    case None
    then show ?thesis using 2(1) [OF None, of "seen @ [h]"] 2(2-5) by auto
  next
    case (Some e)
    then show ?thesis using 2(2-5) t by (cases "seen") auto
  qed
qed

lemma apply_permit_None:
  assumes "apply_permit chk b = (None, b')"
  shows "chk (sh_number (lb_header (ai_l1_block b))) = None"
    and "b' = b\<lparr>ai_checkpoint_headers := takeWhile (\<lambda>h. chk (sh_number h) = None) (ai_checkpoint_headers b)\<rparr>"
    and "ai_checkpoint_headers b \<noteq> [] \<Longrightarrow> ai_checkpoint_headers b' \<noteq> []"
proof -
  obtain x hs where p: "permit_loop chk 0 (ai_checkpoint_headers b) (ai_checkpoint_headers b) = (x, hs)"
    by (cases "permit_loop chk 0 (ai_checkpoint_headers b) (ai_checkpoint_headers b)")
  from permit_loop_result [OF p, of "[]"] assms
  show "chk (sh_number (lb_header (ai_l1_block b))) = None"
    "b' = b\<lparr>ai_checkpoint_headers := takeWhile (\<lambda>h. chk (sh_number h) = None) (ai_checkpoint_headers b)\<rparr>"
    "ai_checkpoint_headers b \<noteq> [] \<Longrightarrow> ai_checkpoint_headers b' \<noteq> []"
    by (auto simp: apply_permit_def p split: option.splits)
qed

section \<open>What an advance does to the queue\<close>

text \<open>Other tasks only append: the blocks they observe come after the pending ones.\<close>

definition queue_grows :: "PendingDeposits \<Rightarrow> PendingDeposits \<Rightarrow> bool" where
  "queue_grows q q' \<longleftrightarrow> (queue_wf q \<longrightarrow> queue_wf q') \<and> deferred q' = deferred q \<and>
     (\<exists>bs. pending q' = pending q @ bs)"

definition shared_grows :: "'x shared \<Rightarrow> 'x shared \<Rightarrow> bool" where
  "shared_grows s s' \<longleftrightarrow> queue_grows (dq_inner (nd_queue s)) (dq_inner (nd_queue s'))"

definition services_keep :: "('x shared \<Rightarrow> 'x shared \<Rightarrow> bool) \<Rightarrow> ('x, 'p) services \<Rightarrow> bool" where
  "services_keep R sv \<longleftrightarrow>
     (\<forall>h a. preserves R (sv_fork_choice_updated sv h a)) \<and> (\<forall>i. preserves R (sv_resolve sv i)) \<and>
     (\<forall>p. preserves R (sv_new_payload sv p)) \<and>
     (\<forall>collect n h. sv_collect sv = Some collect \<longrightarrow> preserves R (collect n h))"

lemma queue_grows_refl: "queue_grows q q"
  by (simp add: queue_grows_def)

lemma queue_grows_trans: "queue_grows p q \<Longrightarrow> queue_grows q r \<Longrightarrow> queue_grows p r"
  by (auto simp: queue_grows_def)

text \<open>What the subscriber does to the queue is of this kind.\<close>

lemma observed_block_grows: "queue_grows (dq_inner q) (dq_inner (snd (try_enqueue_sealed h e q)))"
proof -
  have "queue_grows (dq_inner q) (snd (try_enqueue h e (dq_inner q)))"
    using queue_wf_try_enqueue [of "dq_inner q" h e]
    by (auto simp: queue_grows_def try_enqueue_def Let_def split: option.splits if_splits)
  then show ?thesis using try_enqueue_sealed_inner [of h e q] queue_grows_refl by metis
qed

lemma shared_grows_preorder: "reflp shared_grows" "transp shared_grows"
  by (auto simp: reflp_def transp_def shared_grows_def queue_grows_refl intro: queue_grows_trans)

text \<open>The engine's own fields change only where the engine writes them.\<close>

definition engine_rel :: "('x shared \<Rightarrow> 'x shared \<Rightarrow> bool) \<Rightarrow> 'x ZoneEngine \<Rightarrow> 'x ZoneEngine \<Rightarrow> bool" where
  "engine_rel R e e' \<longleftrightarrow> R (en_shared e) (en_shared e') \<and> en_production_permit e' = en_production_permit e"

lemma preserves_on_shared: "preserves R m \<Longrightarrow> preserves (engine_rel R) (on_shared m)"
  by (auto simp: preserves_def on_shared_def ezoom_def engine_rel_def split: prod.splits)

lemma engine_rel_preorder:
  "reflp R \<Longrightarrow> reflp (engine_rel R)" "transp R \<Longrightarrow> transp (engine_rel R)"
  by (auto simp: reflp_def transp_def engine_rel_def)

lemma preserves_Let [preserves_intros]: "preserves R (f x) \<Longrightarrow> preserves R (Let x f)"
  by simp

text \<open>A relation on the shared state that every service respects is respected by the build.\<close>

lemma build_keeps:
  assumes "reflp R" and "transp R" and "services_keep R sv"
  shows "preserves (engine_rel R) (build_payload sv attrs)"
    and "preserves (engine_rel R) (update_forkchoice_state sv)"
proof -
  let ?R = "engine_rel R"
  have po: "reflp ?R" "transp ?R" using assms(1,2) by (simp_all add: engine_rel_preorder)
  have fcu: "preserves ?R (fork_choice_updated sv a)" for a
    unfolding fork_choice_updated_def using assms(3) po
    by (auto intro!: preserves_ebind preserves_eget preserves_on_shared simp: services_keep_def)
  show "preserves ?R (update_forkchoice_state sv)"
    unfolding update_forkchoice_state_def by (intro preserves_intros fcu po)
  have "preserves ?R (case sv_collect sv of None \<Rightarrow> ereturn () | Some c \<Rightarrow> on_shared (c n h))" for n h
    using assms(3) po by (auto intro: preserves_ereturn preserves_on_shared simp: services_keep_def split: option.splits)
  moreover have "preserves ?R (on_shared (sv_resolve sv i))" "preserves ?R (on_shared (sv_new_payload sv p))" for i p
    using assms(3) by (auto intro: preserves_on_shared simp: services_keep_def)
  ultimately show "preserves ?R (build_payload sv attrs)"
    unfolding build_payload_def by (intro preserves_intros fcu po)
qed

lemma prepare_import_reads: "prepare_import co abi b e = (r, e') \<Longrightarrow> e' = e"
  by (auto simp: prepare_import_def ebind_def split: if_splits sum.splits)

text \<open>Deferring through a prefix of the pending blocks.\<close>

lemma defer_loop_prefix:
  assumes "queue_wf q" and "pending q = xs @ ys" and "xs \<noteq> []"
  shows "\<exists>q' d. defer_loop (num_hash (lb_header (last xs))) q = (Inr (), q') \<and> pending q' = ys \<and>
    deferred q' = Some d \<and> last_header d = lb_header (last xs)"
  using assms
proof (induction xs arbitrary: q)
  case Nil
  then show ?case by simp
next
  case (Cons b bs)
  let ?n = "num_hash (lb_header (last (b # bs)))"
  have wf: "queue_wf (defer_front q)" and p: "pending (defer_front q) = bs @ ys"
    using queue_wf_defer_front [OF Cons.prems(1)] Cons.prems(2) by (simp_all add: defer_front_def)
  have later: "list_all (\<lambda>c. sh_number (lb_header b) < sh_number (lb_header c)) (bs @ ys)"
    using queue_wf_tail(1) [OF Cons.prems(1)] Cons.prems(2) by (simp del: list_all_append)
  have step: "defer_loop ?n q = defer_loop ?n (defer_front q)"
    using Cons.prems later by (subst defer_loop.simps) (auto simp: Let_def list_all_iff less_imp_le)
  show ?case
  proof (cases "bs = []")
    case True
    have "defer_loop ?n (defer_front q) = (Inr (), defer_front q)"
      using later True p by (intro defer_loop_newer) simp
    moreover have "\<exists>d. deferred (defer_front q) = Some d \<and> last_header d = lb_header b"
      using Cons.prems by (auto simp: defer_front_def split: option.splits)
    ultimately show ?thesis using step p True by simp
  next
    case False
    then show ?thesis using Cons.IH [OF wf p] step by simp
  qed
qed

lemma defer_through_prefix:
  assumes "queue_wf q" and "pending q = xs @ ys" and "xs \<noteq> []"
  shows "\<exists>q' d. defer_through (num_hash (lb_header (last xs))) q = (Inr (), q') \<and> pending q' = ys \<and>
    deferred q' = Some d \<and> last_header d = lb_header (last xs)"
  using defer_loop_prefix [OF assms] by (auto simp: defer_through_def)

text \<open>
  The candidates the engine acts on: the front of the queue as a full import, or a non-empty prefix
  of the queued headers.
\<close>

definition front_import :: "PendingDeposits \<Rightarrow> AvailableTempoImport \<Rightarrow> bool" where
  "front_import q b \<longleftrightarrow> (\<exists>rest. pending q = ai_l1_block b # rest) \<and>
     (\<exists>k. ai_checkpoint_headers b = map lb_header (take k (pending q)))"

definition imported_blocks :: "AvailableTempoImport \<Rightarrow> nat" where
  "imported_blocks b = max 1 (length (ai_checkpoint_headers b))"

lemma next_available_Inr:
  "next_available spec sv e = Inr r \<longleftrightarrow>
     (case pending (en_queue e) of
        [] \<Rightarrow> r = None
      | l # rest \<Rightarrow> \<exists>now. sv_now_millis sv (en_shared e) = Some now \<and> now < 2 ^ 64 \<and>
          r = import_candidate l (peek_headers (MAX_TEMPO_HEADERS_PER_ZONE_BLOCK + 1) (en_queue e)) (of_nat now)
            (decide spec e (lb_header (last (l # rest))) (of_nat now)))"
  by (auto simp: next_available_def peek_def latest_header_def ok_or_def rbind_def check_def split: list.splits option.splits)

lemma import_candidate_Some:
  assumes "import_candidate l hs now d = Some b"
  shows "ai_l1_block b = l" and "ai_wall_clock b = now"
    and "(d = ImportFull \<and> ai_checkpoint_headers b = []) \<or>
      (\<exists>n. d = ImportCheckpoints n \<and> ai_checkpoint_headers b = take n hs)"
  using assms by (cases d; auto)+

lemma next_available_front:
  assumes "next_available spec sv e = Inr (Some b)"
  shows "front_import (en_queue e) b"
proof -
  obtain l rest now d where p: "pending (en_queue e) = l # rest"
    and c: "import_candidate l (peek_headers (MAX_TEMPO_HEADERS_PER_ZONE_BLOCK + 1) (en_queue e)) now d = Some b"
    using assms by (auto simp: next_available_Inr split: list.splits)
  have "take n (peek_headers m q) = map lb_header (take (min n m) (pending q))" for n m q
    by (simp add: peek_headers_def take_map)
  moreover have "[] = map lb_header (take 0 (pending (en_queue e)))" by simp
  ultimately show ?thesis using import_candidate_Some [OF c] p unfolding front_import_def by metis
qed

lemma front_import_permit:
  assumes "front_import q b" and "engine_apply_permit e b = (None, b')"
  shows "front_import q b'"
proof (cases "en_production_permit e")
  case None
  then show ?thesis using assms by (simp add: engine_apply_permit_def)
next
  case (Some k)
  let ?P = "\<lambda>h. permit_check (nd_schedule (en_shared e)) k (sh_number h) = None"
  have b': "b' = b\<lparr>ai_checkpoint_headers := takeWhile ?P (ai_checkpoint_headers b)\<rparr>"
    using apply_permit_None(2) assms(2) Some by (simp add: engine_apply_permit_def)
  obtain j where j: "ai_checkpoint_headers b = map lb_header (take j (pending q))"
    using assms(1) by (auto simp: front_import_def)
  have "takeWhile P (map lb_header (take j xs)) =
      map lb_header (take (min (length (takeWhile P (map lb_header (take j xs)))) j) xs)" for P xs
    by (subst takeWhile_eq_take) (simp add: take_map)
  then have "\<exists>k. takeWhile ?P (map lb_header (take j (pending q))) = map lb_header (take k (pending q))"
    by blast
  then show ?thesis using assms(1) b' j by (simp add: front_import_def)
qed

text \<open>The import is a prefix of the pending blocks, which the last header identifies.\<close>

lemma front_import_split:
  assumes "front_import q b"
  obtains xs ys where "pending q = xs @ ys" and "length xs = imported_blocks b"
    and "lb_header (last xs) = final_header b"
    and "ai_checkpoint_headers b = [] \<Longrightarrow> xs = [ai_l1_block b]"
proof (cases "ai_checkpoint_headers b = []")
  case True
  then show ?thesis using assms that [of "[ai_l1_block b]"]
    by (auto simp: front_import_def imported_blocks_def final_header_def)
next
  case False
  obtain k where k: "ai_checkpoint_headers b = map lb_header (take k (pending q))"
    using assms by (auto simp: front_import_def)
  show ?thesis
  proof (rule that [of "take k (pending q)" "drop k (pending q)"])
    have "length (take k (pending q)) = length (ai_checkpoint_headers b)" using k by simp
    moreover have "1 \<le> length (ai_checkpoint_headers b)" using False by (simp add: Suc_le_eq)
    ultimately show "length (take k (pending q)) = imported_blocks b"
      unfolding imported_blocks_def by linarith
    show "lb_header (last (take k (pending q))) = final_header b"
      using k False by (simp add: final_header_def last_map)
  qed (use False in simp_all)
qed

lemma front_import_grows: "front_import q b \<Longrightarrow> queue_grows q q' \<Longrightarrow> front_import q' b"
proof -
  assume f: "front_import q b" and g: "queue_grows q q'"
  then obtain k bs where k: "ai_checkpoint_headers b = map lb_header (take k (pending q))"
    and bs: "pending q' = pending q @ bs" by (auto simp: front_import_def queue_grows_def)
  have "take k (pending q) = take (min k (length (pending q))) (pending q')"
    by (cases "k \<le> length (pending q)") (simp_all add: bs)
  moreover obtain rest where "pending q' = ai_l1_block b # rest" using f bs by (auto simp: front_import_def)
  ultimately show ?thesis using k unfolding front_import_def by metis
qed

lemma consume_queue_front:
  assumes "queue_wf q" and "front_import q b"
  obtains q' where "consume_queue b q = (Inr (), q')" and "queue_wf q'"
    and "pending q' = drop (imported_blocks b) (pending q)"
    and "ai_checkpoint_headers b = [] \<Longrightarrow> deferred q' = None"
proof -
  obtain xs ys where s: "pending q = xs @ ys" "length xs = imported_blocks b"
    "lb_header (last xs) = final_header b" "ai_checkpoint_headers b = [] \<Longrightarrow> xs = [ai_l1_block b]"
    using front_import_split [OF assms(2)] by blast
  then have ne: "xs \<noteq> []" and ys: "drop (imported_blocks b) (pending q) = ys"
    by (auto simp: imported_blocks_def)
  show thesis
  proof (cases "ai_checkpoint_headers b = []")
    case True
    then have "pending q = ai_l1_block b # ys" "lb_header (ai_l1_block b) = final_header b"
      using s by simp_all
    then have "consume_queue b q = (Inr (), q\<lparr>pending := ys, deferred := None\<rparr>)"
      using True by (simp add: consume_queue_def confirm_operational_def confirm_def)
    then show thesis
      using that [of "q\<lparr>pending := ys, deferred := None\<rparr>"] ys True
        queue_wf_confirm_operational [OF assms(1), of "num_hash (final_header b)"]
      by (simp add: consume_queue_def)
  next
    case False
    obtain q' where q': "defer_through (num_hash (final_header b)) q = (Inr (), q')" "pending q' = ys"
      using defer_through_prefix [OF assms(1) s(1) ne] s(3) by auto
    then have "q' = snd (defer_loop (num_hash (final_header b)) q)"
      using snd_defer_through [of "num_hash (final_header b)" q] by simp
    then show thesis using that [of q'] q' ys False assms(1)
      by (simp add: queue_wf_defer_loop consume_queue_def)
  qed
qed

lemma consume_queue_owed:
  "portal_work f \<Longrightarrow> ai_checkpoint_headers b \<noteq> [] \<Longrightarrow> owed f (snd (consume_queue b q)) = owed f q"
  by (simp add: consume_queue_def owed_defer_loop)

lemma consume_import_eval:
  assumes "consume_queue b (en_queue e) = (Inr (), q')"
  obtains e' where "consume_import b e = (Inr (), e')" and "en_queue e' = q'"
    and "nd_tracker (en_shared e') = prune_through (sh_number (final_header b)) (nd_tracker (en_shared e))"
    and "nd_schedule (en_shared e') = (case en_production_permit e of None \<Rightarrow> nd_schedule (en_shared e)
      | Some _ \<Rightarrow> record_applied_anchor (sh_number (final_header b)) (nd_schedule (en_shared e)))"
    and "nd_keys (en_shared e') = nd_keys (en_shared e)" and "nd_ext (en_shared e') = nd_ext (en_shared e)"
    and "en_production_permit e' = en_production_permit e" and "en_last_header e' = en_last_header e"
  using assms
  by (cases "en_production_permit e")
    (auto simp: consume_import_def Let_def eseq_def ebind_def on_queue_def on_shared_def ezoom_def
      emap_err_def map_err_def en_queue_def)

text \<open>An advance on a front import either fails and consumes nothing or consumes exactly the import.\<close>

lemma advance_cases:
  assumes "reflp R" and "transp R" and "services_keep R sv"
    and "\<And>s s'. R s s' \<Longrightarrow> shared_grows s s'"
    and "queue_wf (en_queue e)" and "front_import (en_queue e) b"
    and "advance co abi spec sv b e = (r, e')"
  obtains err where "r = Inl err" and "engine_rel R e e'"
    and "prepare_import co abi b e = (Inl err, e) \<or> (\<exists>attrs. build_payload sv attrs e = (Inl err, e'))"
  | i e1 e2 where "r = Inr ()" and "prepare_import co abi b e = (Inr i, e)"
    and "engine_rel R e e1" and "consume_import b e1 = (Inr (), e2)" and "engine_rel R e2 e'"
proof -
  let ?RE = "engine_rel R"
  note run = assms(7) [unfolded advance_def, simplified]
  obtain pr where pr: "prepare_import co abi b e = (pr, e)"
    using prepare_import_reads by (metis surj_pair)
  show thesis
  proof (cases pr)
    case (Inl err)
    then show thesis using run pr that(1) assms(1) by (auto simp: ebind_def reflp_def engine_rel_def)
  next
    case (Inr i)
    obtain br e1 where br: "build_payload sv (payload_attributes spec (en_fee_recipient e)
        (zone_timestamp_millis (sh_timestamp_millis spec (final_header b))
          (sh_timestamp_millis spec (en_last_header e)) (ai_wall_clock b)) i) e = (br, e1)"
      by (metis surj_pair)
    then have R1: "?RE e e1" using build_keeps(1) [OF assms(1-3)] by (blast dest: preservesD)
    then have g: "queue_grows (en_queue e) (en_queue e1)"
      using assms(4) by (auto simp: shared_grows_def en_queue_def engine_rel_def)
    then have "queue_wf (en_queue e1)" using assms(5) by (simp add: queue_grows_def)
    then obtain q' where "consume_queue b (en_queue e1) = (Inr (), q')"
      using consume_queue_front front_import_grows [OF assms(6) g] by metis
    then obtain e2 where e2: "consume_import b e1 = (Inr (), e2)"
      using consume_import_eval by metis
    show thesis
    proof (cases br)
      case (Inl err)
      then show thesis using run pr Inr br that(1) R1 by (auto simp: ebind_def)
    next
      case B: (Inr header)
      let ?e3 = "e2\<lparr>en_last_header := header\<rparr>"
      have "r = Inr ()" "e' = snd (update_forkchoice_state sv ?e3)"
        using run pr Inr br B e2 by (auto simp: ebind_def eseq_def elogged_def)
      moreover have "?RE ?e3 (snd (update_forkchoice_state sv ?e3))"
        using build_keeps(2) [OF assms(1-3)] by (metis preservesD surjective_pairing)
      ultimately show thesis using that(2) pr Inr R1 e2 by (simp add: engine_rel_def)
    qed
  qed
qed

lemma prepare_import_full:
  assumes "prepare_import co abi b e = (Inr i, e')" and "ai_checkpoint_headers b = []"
  obtains work p where "operational_work (en_queue e) (num_hash (final_header b)) = Inr work"
    and "prepare_many co abi (nd_keys (en_shared e)) (en_portal_address e) work = Inr p"
    and "i = FullImport p"
  using assms by (auto simp: prepare_import_def final_header_def)

text \<open>How a successful advance moves the queue: grown, consumed, grown again.\<close>

lemma advance_success_queue:
  assumes "services_keep shared_grows sv" and "queue_wf (en_queue e)" and "front_import (en_queue e) b"
    and "advance co abi spec sv b e = (Inr (), e')"
  obtains q q' more new where "pending q = pending (en_queue e) @ more" and "deferred q = deferred (en_queue e)"
    and "consume_queue b q = (Inr (), q')" and "pending q' = drop (imported_blocks b) (pending (en_queue e)) @ more"
    and "ai_checkpoint_headers b = [] \<Longrightarrow> deferred q' = None"
    and "pending (en_queue e') = pending q' @ new" and "deferred (en_queue e') = deferred q'"
proof (cases rule: advance_cases [OF shared_grows_preorder assms(1) _ assms(2-4)])
  case (3 i e1 e2)
  obtain more where g1: "queue_wf (en_queue e1)" "pending (en_queue e1) = pending (en_queue e) @ more"
    and g: "queue_grows (en_queue e) (en_queue e1)"
    using 3(3) assms(2) by (auto simp: shared_grows_def queue_grows_def en_queue_def engine_rel_def)
  obtain q' where q': "consume_queue b (en_queue e1) = (Inr (), q')"
    "pending q' = drop (imported_blocks b) (pending (en_queue e1))"
    "ai_checkpoint_headers b = [] \<Longrightarrow> deferred q' = None"
    using consume_queue_front [OF g1(1) front_import_grows [OF assms(3) g]] by blast
  have e2: "en_queue e2 = q'" using consume_import_eval [OF q'(1)] 3(4) by (metis prod.inject)
  obtain new where g2: "deferred (en_queue e') = deferred q'" "pending (en_queue e') = pending q' @ new"
    using 3(5) e2 by (auto simp: shared_grows_def queue_grows_def en_queue_def engine_rel_def)
  have "imported_blocks b \<le> length (pending (en_queue e))"
    using front_import_split [OF assms(3)] by (metis length_append le_add1)
  moreover have "deferred (en_queue e1) = deferred (en_queue e)" using g by (simp add: queue_grows_def)
  ultimately show thesis using that [OF g1(2) _ q'(1) _ q'(3) g2(2,1)] g1(2) q'(2) by simp
qed simp_all

lemma advance_prepared:
  "advance co abi spec sv b e = (Inr u, e') \<Longrightarrow> \<exists>i. prepare_import co abi b e = (Inr i, e)"
  by (auto simp: advance_def dest: prepare_import_reads)


section \<open>The drain ends and makes progress\<close>

text \<open>No block arrives while the engine drains: the services leave the queue alone.\<close>

definition queue_untouched :: "'x shared \<Rightarrow> 'x shared \<Rightarrow> bool" where
  "queue_untouched s s' \<longleftrightarrow> dq_inner (nd_queue s') = dq_inner (nd_queue s)"

lemma queue_untouched_preorder: "reflp queue_untouched" "transp queue_untouched"
  by (auto simp: reflp_def transp_def queue_untouched_def)

lemma queue_untouched_grows: "queue_untouched s s' \<Longrightarrow> shared_grows s s'"
  by (simp add: queue_untouched_def shared_grows_def queue_grows_refl)

lemma imported_blocks_pos: "0 < imported_blocks b"
  by (simp add: imported_blocks_def)

lemma advance_shortens:
  assumes "services_keep queue_untouched sv" and "queue_wf (en_queue e)" and "front_import (en_queue e) b"
    and "advance co abi spec sv b e = (Inr u, e')"
  shows "queue_wf (en_queue e')"
    and "pending (en_queue e') = drop (imported_blocks b) (pending (en_queue e))"
    and "length (pending (en_queue e')) < length (pending (en_queue e))"
proof -
  have both: "queue_wf (en_queue e') \<and> pending (en_queue e') = drop (imported_blocks b) (pending (en_queue e))"
  proof (cases rule: advance_cases [OF queue_untouched_preorder assms(1) queue_untouched_grows assms(2-4)])
    case (3 i e1 e2)
    have e1: "en_queue e1 = en_queue e" and e': "en_queue e' = en_queue e2"
      using 3 by (simp_all add: queue_untouched_def en_queue_def engine_rel_def)
    obtain q' where "consume_queue b (en_queue e1) = (Inr (), q')" "queue_wf q'"
      "pending q' = drop (imported_blocks b) (pending (en_queue e1))"
      using consume_queue_front assms(2,3) e1 by metis
    moreover from this have "en_queue e2 = q'" using consume_import_eval 3(4) by (metis prod.inject)
    ultimately show ?thesis using e1 e' by simp
  qed simp_all
  then show "queue_wf (en_queue e')" "pending (en_queue e') = drop (imported_blocks b) (pending (en_queue e))"
    by simp_all
  moreover have "pending (en_queue e) \<noteq> []" using assms(3) by (auto simp: front_import_def)
  ultimately show "length (pending (en_queue e')) < length (pending (en_queue e))"
    using imported_blocks_pos [of b] by simp
qed

text \<open>
  C33. The drain loop always ends. From any well-formed queue and whatever the services answer, as long
  as no further L1 block arrives the loop returns, with an error, an exit or nothing more to do:
  every iteration that continues has removed at least one block.
\<close>

theorem drain_all_available_returns:
  assumes "services_keep queue_untouched sv" and "queue_wf (en_queue e)"
  shows "\<exists>r e'. drain_all_available co abi spec sv e = Some (r, e')"
  using assms(2)
proof (induction "length (pending (en_queue e))" arbitrary: e rule: less_induct)
  case less
  have next_drain: "\<exists>r e'. drain_all_available co abi spec sv e2 = Some (r, e')"
    if "next_available spec sv e = Inr (Some b)" "engine_apply_permit e b = (None, b')"
      "advance co abi spec sv b' e = (Inr u, e2)" for b b' u e2
    using less advance_shortens [OF assms(1) less.prems _ that(3)]
      front_import_permit [OF next_available_front [OF that(1)] that(2)] by blast
  then show ?case
    by (subst drain_all_available.simps)
      (auto split: sum.splits option.splits prod.splits)
qed

text \<open>
  The conditions under which nothing should hold the engine up: the services answer and leave the
  shared objects alone, the portal is not paused, the schedule lets this node import every pending
  block, and the work the queue owes can be prepared.
\<close>

definition same_node :: "'x shared \<Rightarrow> 'x shared \<Rightarrow> bool" where
  "same_node s s' \<longleftrightarrow> nd_queue s' = nd_queue s \<and> nd_tracker s' = nd_tracker s \<and>
     nd_schedule s' = nd_schedule s \<and> nd_keys s' = nd_keys s"

definition services_answer :: "('x, 'p) services \<Rightarrow> bool" where
  "services_answer sv \<longleftrightarrow>
     (\<forall>h a s. \<exists>res s'. sv_fork_choice_updated sv h a s = (Inr res, s') \<and> \<not> fcu_is_invalid res \<and>
        fcu_payload_id res \<noteq> None) \<and>
     (\<forall>i s. \<exists>p s'. sv_resolve sv i s = (Inr (Some p), s')) \<and>
     (\<forall>p s. \<exists>s'. sv_new_payload sv p s = (Inr True, s')) \<and>
     (\<forall>collect n h s. sv_collect sv = Some collect \<longrightarrow> (\<exists>s'. collect n h s = (Inr (), s'))) \<and>
     (\<forall>s. \<not> sv_stopped sv s \<and> (\<exists>now. sv_now_millis sv s = Some now \<and> now < 2 ^ 64))"

definition may_produce :: "'x ZoneEngine \<Rightarrow> bool" where
  "may_produce e \<longleftrightarrow>
     (case en_production_permit e of None \<Rightarrow> True
      | Some k \<Rightarrow> bt_invar (transitions (nd_schedule (en_shared e))) \<and>
          list_all (\<lambda>b. unapplied (nd_schedule (en_shared e)) (sh_number (lb_header b)) \<and>
            permit_check (nd_schedule (en_shared e)) k (sh_number (lb_header b)) = None)
            (pending (en_queue e)))"

definition preparable :: "EncryptionKeys \<Rightarrow> PendingDeposits \<Rightarrow> bool" where
  "preparable ring q \<longleftrightarrow> first_unbound ring (owed pe_deposits q) = None \<and>
     length (owed pe_deposits q) \<le> MAX_UNPROCESSED_DEPOSITS \<and>
     length (owed pe_enabled_tokens q) \<le> MAX_UNPROCESSED_TOKEN_ENABLEMENTS"

definition drainable :: "'x ZoneEngine \<Rightarrow> bool" where
  "drainable e \<longleftrightarrow> queue_wf (en_queue e) \<and> \<not> production_paused e \<and> may_produce e \<and>
     preparable (nd_keys (en_shared e)) (en_queue e)"

lemma same_node_preorder: "reflp same_node" "transp same_node"
  by (auto simp: reflp_def transp_def same_node_def)

lemma same_node_grows: "same_node s s' \<Longrightarrow> shared_grows s s'"
  by (simp add: same_node_def shared_grows_def queue_grows_refl)

lemma permit_loop_all: "\<forall>h \<in> set rest. chk (sh_number h) = None \<Longrightarrow> permit_loop chk i rest hs = (None, hs)"
  by (induction chk i rest hs rule: permit_loop.induct) auto

lemma permit_granted:
  assumes "may_produce e" and "front_import (en_queue e) b"
  shows "engine_apply_permit e b = (None, b)"
proof (cases "en_production_permit e")
  case None
  then show ?thesis by (simp add: engine_apply_permit_def)
next
  case (Some k)
  obtain j where j: "ai_checkpoint_headers b = map lb_header (take j (pending (en_queue e)))"
    and l: "ai_l1_block b \<in> set (pending (en_queue e))" using assms(2) by (auto simp: front_import_def)
  let ?chk = "permit_check (nd_schedule (en_shared e)) k"
  have ok: "?chk (sh_number (lb_header c)) = None" if "c \<in> set (pending (en_queue e))" for c
    using assms(1) Some that by (auto simp: may_produce_def list_all_iff)
  then have "\<forall>h \<in> set (ai_checkpoint_headers b). ?chk (sh_number h) = None"
    using j by (auto dest: in_set_takeD)
  then show ?thesis using Some ok [OF l] by (simp add: engine_apply_permit_def apply_permit_def permit_loop_all)
qed

lemma build_answers:
  assumes "services_answer sv"
  shows "\<exists>h e'. build_payload sv attrs e = (Inr h, e')"
proof -
  obtain res s1 where 1: "sv_fork_choice_updated sv (sh_hash (en_last_header e)) (Some attrs) (en_shared e) = (Inr res, s1)"
    "\<not> fcu_is_invalid res" "fcu_payload_id res \<noteq> None" using assms unfolding services_answer_def by metis
  then obtain i where i: "fcu_payload_id res = Some i" by auto
  obtain p s2 where 2: "sv_resolve sv i s1 = (Inr (Some p), s2)" using assms unfolding services_answer_def by metis
  obtain s3 where 3: "sv_new_payload sv p s2 = (Inr True, s3)" using assms unfolding services_answer_def by metis
  have 4: "\<exists>s4. collect n h s3 = (Inr (), s4)" if "sv_collect sv = Some collect" for collect n h
    using assms that unfolding services_answer_def by metis
  show ?thesis using 1 2 3 4 i
    by (cases "sv_collect sv")
      (fastforce simp: build_payload_def fork_choice_updated_def on_shared_def ok_or_def Let_def)+
qed

lemma operational_work_owed:
  assumes "pending q = b # bs" and "portal_work f"
  shows "\<exists>work. operational_work q (num_hash (lb_header b)) = Inr work \<and> work \<noteq> [] \<and>
    owed f q = work_of f work @ work_of f bs"
  using assms aggregated_work [OF assms(2)]
  by (auto simp: operational_work_def owed_def split: option.splits)

lemma prepare_answers:
  assumes "preparable (nd_keys (en_shared e)) (en_queue e)" and "front_import (en_queue e) b"
  shows "\<exists>i. prepare_import co abi b e = (Inr i, e)"
proof (cases "ai_checkpoint_headers b = []")
  case False
  then show ?thesis by (simp add: prepare_import_def)
next
  case True
  obtain bs where p: "pending (en_queue e) = ai_l1_block b # bs" using assms(2) by (auto simp: front_import_def)
  obtain work where w: "operational_work (en_queue e) (num_hash (lb_header (ai_l1_block b))) = Inr work" "work \<noteq> []"
    "owed pe_deposits (en_queue e) = work_of pe_deposits work @ work_of pe_deposits bs"
    using operational_work_owed [OF p portal_work_kinds(1)] by blast
  then have "owed pe_enabled_tokens (en_queue e) = work_of pe_enabled_tokens work @ work_of pe_enabled_tokens bs"
    using operational_work_owed [OF p portal_work_kinds(2)] by auto
  then have "import_error (nd_keys (en_shared e)) work = None"
    using assms(1) w by (auto simp: import_error_def preparable_def first_unbound_append split: option.splits)
  then obtain p where "prepare_many co abi (nd_keys (en_shared e)) (en_portal_address e) work = Inr p"
    using prepare_many_outcome [where ring = "nd_keys (en_shared e)" and work = work and co = co
      and abi = abi and portal = "en_portal_address e"] by auto
  then show ?thesis using True w(1) by (simp add: prepare_import_def)
qed

lemma consume_queue_suffix:
  assumes "queue_wf q" and "front_import q b" and "consume_queue b q = (Inr (), q')" and "portal_work f"
  shows "\<exists>xs. owed f q = xs @ owed f q'"
proof (cases "ai_checkpoint_headers b = []")
  case True
  obtain bs where p: "pending q = ai_l1_block b # bs" using assms(2) by (auto simp: front_import_def)
  have "q' = q\<lparr>pending := bs, deferred := None\<rparr>"
    using assms(3) p True by (auto simp: consume_queue_def final_header_def confirm_operational_def confirm_def)
  then show ?thesis using operational_work_owed [OF p assms(4)] by (auto simp: owed_def)
next
  case False
  then show ?thesis using consume_queue_owed [OF assms(4) False, of q] assms(3) by simp
qed

lemma preparable_suffix:
  assumes "preparable ring q" and "owed pe_deposits q = xs @ owed pe_deposits q'"
    and "owed pe_enabled_tokens q = ys @ owed pe_enabled_tokens q'"
  shows "preparable ring q'"
  using assms by (auto simp: preparable_def first_unbound_append split: option.splits)

lemma remaining_newer:
  assumes "queue_wf q" and "front_import q b" and "c \<in> set (drop (imported_blocks b) (pending q))"
  shows "sh_number (final_header b) < sh_number (lb_header c)" and "c \<in> set (pending q)"
proof -
  obtain xs ys where s: "pending q = xs @ ys" "length xs = imported_blocks b" "lb_header (last xs) = final_header b"
    using front_import_split [OF assms(2)] by metis
  then have "xs \<noteq> []" using imported_blocks_pos [of b] by auto
  then have "pending q = butlast xs @ last xs # ys" using s(1) by simp
  from queue_wf_increasing [OF assms(1) this] show "sh_number (final_header b) < sh_number (lb_header c)"
    using assms(3) s by (auto simp: list_all_iff)
  show "c \<in> set (pending q)" using assms(3) by (rule in_set_dropD)
qed

lemma may_produce_step:
  assumes "may_produce e" and "queue_wf (en_queue e)" and "front_import (en_queue e) b"
    and "en_production_permit e' = en_production_permit e"
    and "nd_schedule (en_shared e') = (case en_production_permit e of None \<Rightarrow> nd_schedule (en_shared e)
      | Some _ \<Rightarrow> record_applied_anchor (sh_number (final_header b)) (nd_schedule (en_shared e)))"
    and "pending (en_queue e') = drop (imported_blocks b) (pending (en_queue e))"
  shows "may_produce e'"
proof (cases "en_production_permit e")
  case None
  then show ?thesis using assms(4) by (simp add: may_produce_def)
next
  case (Some k)
  let ?s = "nd_schedule (en_shared e)" and ?a = "sh_number (final_header b)"
  have inv: "bt_invar (transitions ?s)" using assms(1) Some by (simp add: may_produce_def)
  have "unapplied (record_applied_anchor ?a ?s) (sh_number (lb_header c)) \<and>
      permit_check (record_applied_anchor ?a ?s) k (sh_number (lb_header c)) = None"
    if c: "c \<in> set (pending (en_queue e'))" for c
  proof -
    have n: "?a < sh_number (lb_header c)" "c \<in> set (pending (en_queue e))"
      using remaining_newer [OF assms(2,3)] c assms(6) by simp_all
    then have old: "unapplied ?s (sh_number (lb_header c))" "permit_check ?s k (sh_number (lb_header c)) = None"
      using assms(1) Some by (auto simp: may_produce_def list_all_iff)
    then have ap: "advance_applied (applied_anchor ?s) ?a < sh_number (lb_header c)"
      using n(1) by (auto simp: unapplied_def advance_applied_def split: option.splits)
    then show ?thesis using old(2) leader_for_record_applied [OF inv ap]
      by (simp add: unapplied_def permit_check_None)
  qed
  then show ?thesis using Some assms(4,5) inv
    by (simp add: may_produce_def list_all_iff bt_invar_record_applied)
qed

lemma portal_paused_prune [simp]: "portal_paused (prune_through n t) = portal_paused t"
  by (simp add: portal_paused_def prune_through_def Let_def tracker_notify_def raise_pruned_def)

text \<open>The node a successful advance leaves when nothing else happens meanwhile.\<close>

lemma advance_quiet:
  assumes "services_keep same_node sv" and "queue_wf (en_queue e)" and "front_import (en_queue e) b"
    and "advance co abi spec sv b e = (Inr (), e')"
  shows "consume_queue b (en_queue e) = (Inr (), en_queue e')"
    and "nd_tracker (en_shared e') = prune_through (sh_number (final_header b)) (nd_tracker (en_shared e))"
    and "nd_schedule (en_shared e') = (case en_production_permit e of None \<Rightarrow> nd_schedule (en_shared e)
      | Some _ \<Rightarrow> record_applied_anchor (sh_number (final_header b)) (nd_schedule (en_shared e)))"
    and "nd_keys (en_shared e') = nd_keys (en_shared e)" and "en_production_permit e' = en_production_permit e"
proof -
  obtain e1 e2 where e: "engine_rel same_node e e1" "consume_import b e1 = (Inr (), e2)" "engine_rel same_node e2 e'"
    by (rule advance_cases [OF same_node_preorder assms(1) same_node_grows assms(2-4)]) auto
  have e1: "en_queue e1 = en_queue e" "nd_tracker (en_shared e1) = nd_tracker (en_shared e)"
    "nd_schedule (en_shared e1) = nd_schedule (en_shared e)" "nd_keys (en_shared e1) = nd_keys (en_shared e)"
    "en_production_permit e1 = en_production_permit e"
    using e(1) by (simp_all add: same_node_def en_queue_def engine_rel_def)
  have e': "en_queue e' = en_queue e2" "nd_tracker (en_shared e') = nd_tracker (en_shared e2)"
    "nd_schedule (en_shared e') = nd_schedule (en_shared e2)" "nd_keys (en_shared e') = nd_keys (en_shared e2)"
    "en_production_permit e' = en_production_permit e2"
    using e(3) by (simp_all add: same_node_def en_queue_def engine_rel_def)
  obtain q' where q': "consume_queue b (en_queue e) = (Inr (), q')"
    using consume_queue_front [OF assms(2,3)] by metis
  from consume_import_eval [OF q' [folded e1(1)]] e(2) e'
  show "consume_queue b (en_queue e) = (Inr (), en_queue e')"
    "nd_tracker (en_shared e') = prune_through (sh_number (final_header b)) (nd_tracker (en_shared e))"
    "nd_schedule (en_shared e') = (case en_production_permit e of None \<Rightarrow> nd_schedule (en_shared e)
      | Some _ \<Rightarrow> record_applied_anchor (sh_number (final_header b)) (nd_schedule (en_shared e)))"
    "nd_keys (en_shared e') = nd_keys (en_shared e)" "en_production_permit e' = en_production_permit e"
    unfolding e1 by (metis prod.inject q')+
qed

lemma drainable_step:
  assumes "services_keep same_node sv" and "services_answer sv" and "drainable e"
    and "front_import (en_queue e) b"
  shows "\<exists>e'. advance co abi spec sv b e = (Inr (), e') \<and> drainable e' \<and>
    length (pending (en_queue e')) < length (pending (en_queue e))"
proof -
  have wf: "queue_wf (en_queue e)" and prep: "preparable (nd_keys (en_shared e)) (en_queue e)"
    and may: "may_produce e" using assms(3) by (simp_all add: drainable_def)
  obtain r e' where run: "advance co abi spec sv b e = (r, e')" by (metis surj_pair)
  have "r = Inr ()"
  proof (cases rule: advance_cases [OF same_node_preorder assms(1) same_node_grows wf assms(4) run])
    case (2 err)
    obtain i where "prepare_import co abi b e = (Inr i, e)" using prepare_answers [OF prep assms(4)] by blast
    moreover have "build_payload sv attrs e \<noteq> (Inl err, e')" for attrs
      using build_answers [OF assms(2), of attrs e] by auto
    ultimately show ?thesis using 2(3) by simp
  qed simp_all
  then have ok: "advance co abi spec sv b e = (Inr (), e')" using run by simp
  note e' = advance_quiet [OF assms(1) wf assms(4) ok]
  have q': "queue_wf (en_queue e')" "pending (en_queue e') = drop (imported_blocks b) (pending (en_queue e))"
    using consume_queue_front [OF wf assms(4)] e'(1) by (metis prod.inject)+
  have "preparable (nd_keys (en_shared e)) (en_queue e')"
    using consume_queue_suffix [OF wf assms(4) e'(1) portal_work_kinds(1)]
      consume_queue_suffix [OF wf assms(4) e'(1) portal_work_kinds(2)] preparable_suffix [OF prep] by blast
  moreover have "may_produce e'" by (rule may_produce_step [OF may wf assms(4) e'(5,3) q'(2)])
  moreover have "pending (en_queue e) \<noteq> []" using assms(4) by (auto simp: front_import_def)
  ultimately show ?thesis using ok q' assms(3) e'(2,4) imported_blocks_pos [of b]
    by (simp add: drainable_def production_paused_def)
qed

text \<open>The engine has nothing to do: the queue is empty, or finalized L1 has to move first.\<close>

definition drained :: "'f::linorder chain_spec \<Rightarrow> 'x ZoneEngine \<Rightarrow> bool" where
  "drained spec e \<longleftrightarrow> pending (en_queue e) = [] \<or>
     (\<exists>now. decide spec e (lb_header (last (pending (en_queue e)))) now \<in>
        {WaitForHardforkMatch, WaitForFinalizedTarget})"

lemma next_available_answers:
  assumes "services_answer sv"
  obtains "next_available spec sv e = Inr None" and "drained spec e"
  | b where "next_available spec sv e = Inr (Some b)"
proof -
  obtain now where now: "sv_now_millis sv (en_shared e) = Some now" "now < 2 ^ 64"
    using assms unfolding services_answer_def by metis
  show thesis
  proof (cases "pending (en_queue e)")
    case Nil
    then show thesis using that(1) by (simp add: next_available_Inr drained_def)
  next
    case (Cons l rest)
    let ?d = "decide spec e (lb_header (last (l # rest))) (of_nat now)"
    have n: "next_available spec sv e = Inr (import_candidate l
        (peek_headers (MAX_TEMPO_HEADERS_PER_ZONE_BLOCK + 1) (en_queue e)) (of_nat now) ?d)"
      using Cons now by (simp add: next_available_Inr)
    show thesis
    proof (cases ?d)
      case WaitForHardforkMatch
      then show thesis using that(1) n Cons by (auto simp: drained_def)
    next
      case WaitForFinalizedTarget
      then show thesis using that(1) n Cons by (auto simp: drained_def)
    qed (use n that(2) in auto)
  qed
qed


section \<open>Hardforks\<close>

text \<open>The rules a zone block runs under when it imports up to header \<open>h\<close>, and those of the L1 tip.\<close>

definition zone_hardfork :: "'f chain_spec \<Rightarrow> 'x ZoneEngine \<Rightarrow> u64 \<Rightarrow> SealedHeader \<Rightarrow> 'f" where
  "zone_hardfork spec e wall_clock h = cs_hardfork_at spec
     (zone_timestamp_millis (sh_timestamp_millis spec h) (sh_timestamp_millis spec (en_last_header e)) wall_clock
        div 1000)"

definition l1_tip_time :: "'x ZoneEngine \<Rightarrow> u64" where
  "l1_tip_time e = max (th_timestamp (sh_header (lb_header (last (pending (en_queue e))))))
     (case tracker_l1_timestamp (nd_tracker (en_shared e)) of None \<Rightarrow> 0 | Some t \<Rightarrow> t)"

lemma decide_forks:
  assumes "pending (en_queue e) = l # rest"
    and "d = decide spec e (lb_header (last (pending (en_queue e)))) now"
    and "d = ImportFull \<or> d = ImportCheckpoints n"
    and "cs_is_t13 spec (zone_hardfork spec e now (lb_header l))"
  shows "zone_hardfork spec e now (lb_header l) \<le> cs_hardfork_at spec (l1_tip_time e)"
    and "d = ImportFull \<Longrightarrow> zone_hardfork spec e now (lb_header l) \<le> cs_hardfork_at spec (th_timestamp (sh_header (lb_header l)))"
proof -
  let ?hs = "peek_headers (MAX_TEMPO_HEADERS_PER_ZONE_BLOCK + 1) (en_queue e)"
  obtain hs where hs: "?hs = lb_header l # hs" using assms(1) by (simp add: peek_headers_def)
  note eval = assms(2) [unfolded decide_def tempo_import_decision_def hs list.case Let_def]
  have fork: "cs_hardfork_at spec (zone_timestamp_millis (sh_timestamp_millis spec (lb_header l))
      (sh_timestamp_millis spec (en_last_header e)) now div 1000) = zone_hardfork spec e now (lb_header l)"
    by (simp add: zone_hardfork_def)
  show "zone_hardfork spec e now (lb_header l) \<le> cs_hardfork_at spec (l1_tip_time e)"
    using eval assms(3,4) unfolding fork l1_tip_time_def by (auto split: if_splits)
  show "zone_hardfork spec e now (lb_header l) \<le> cs_hardfork_at spec (th_timestamp (sh_header (lb_header l)))"
    if "d = ImportFull"
    using eval that assms(4) unfolding fork by (auto split: if_splits)
qed

lemma decide_positive: "decide spec e h now = ImportCheckpoints n \<Longrightarrow> 0 < n"
  by (auto simp: decide_def tempo_import_decision_def Let_def split: list.splits if_splits)

lemma word_div_mono: "(a :: u64) \<le> b \<Longrightarrow> a div k \<le> b div k"
  by (simp add: word_le_nat_alt unat_div div_le_mono)

text \<open>A later header only moves the zone's clock to its own time.\<close>

lemma zone_hardfork_later:
  assumes "mono (cs_hardfork_at spec)"
    and "zone_hardfork spec e now h \<le> f" and "cs_hardfork_at spec (sh_timestamp_millis spec h' div 1000) \<le> f"
  shows "zone_hardfork spec e now h' \<le> f"
proof -
  let ?p = "sh_timestamp_millis spec (en_last_header e)"
  have "zone_timestamp_millis (sh_timestamp_millis spec h') ?p now = sh_timestamp_millis spec h' \<or>
      zone_timestamp_millis (sh_timestamp_millis spec h') ?p now \<le> zone_timestamp_millis (sh_timestamp_millis spec h) ?p now"
    by (auto simp: zone_timestamp_millis_def max_def)
  then show ?thesis
    using assms word_div_mono monoD [OF assms(1)] unfolding zone_hardfork_def by (metis order_trans)
qed

text \<open>
  C34. The zone never runs ahead of L1. Once the zone's clock has reached the T13 rules, a block the
  engine selects runs under a hardfork that the L1 tip known to the node has reached, even when a
  checkpoint batch ends at a later header than the one the decision looked at; and a full import is
  executed only when its own L1 block already follows the rules of the zone block. Hardforks are
  assumed to be activated in order of time, and no queued header is later than the newest one.
\<close>

theorem zone_hardfork_follows_l1:
  assumes "mono (cs_hardfork_at spec)"
    and "\<forall>b \<in> set (pending (en_queue e)).
      th_timestamp (sh_header (lb_header b)) \<le> th_timestamp (sh_header (lb_header (last (pending (en_queue e))))) \<and>
      sh_timestamp_millis spec (lb_header b) div 1000 = th_timestamp (sh_header (lb_header b))"
    and "next_available spec sv e = Inr (Some b)"
    and "cs_is_t13 spec (zone_hardfork spec e (ai_wall_clock b) (lb_header (ai_l1_block b)))"
  shows "zone_hardfork spec e (ai_wall_clock b) (final_header b) \<le> cs_hardfork_at spec (l1_tip_time e) \<and>
    (ai_checkpoint_headers b = [] \<longrightarrow>
       zone_hardfork spec e (ai_wall_clock b) (final_header b)
         \<le> cs_hardfork_at spec (th_timestamp (sh_header (final_header b))))"
proof -
  let ?now = "ai_wall_clock b"
  obtain l rest d now where p: "pending (en_queue e) = l # rest"
    and c: "import_candidate l (peek_headers (MAX_TEMPO_HEADERS_PER_ZONE_BLOCK + 1) (en_queue e)) now d = Some b"
    and "d = decide spec e (lb_header (last (pending (en_queue e)))) now"
    using assms(3) by (auto simp: next_available_Inr split: list.splits)
  then have d: "d = decide spec e (lb_header (last (pending (en_queue e)))) ?now"
    using import_candidate_Some(2) by simp
  note cand = import_candidate_Some [OF c]
  obtain n where dn: "d = ImportFull \<or> d = ImportCheckpoints n" using cand(3) by blast
  note forks = decide_forks [OF p d dn assms(4) [unfolded cand(1)]]
  obtain xs ys where "pending (en_queue e) = xs @ ys" "lb_header (last xs) = final_header b" "xs \<noteq> []"
    using front_import_split [OF next_available_front [OF assms(3)]] imported_blocks_pos [of b] by (metis list.size(3) less_irrefl)
  then obtain c where c: "c \<in> set (pending (en_queue e))" "final_header b = lb_header c" by (metis Un_iff last_in_set set_append)
  then have "cs_hardfork_at spec (sh_timestamp_millis spec (final_header b) div 1000) \<le> cs_hardfork_at spec (l1_tip_time e)"
    using assms(2) monoD [OF assms(1)] by (simp add: l1_tip_time_def le_max_iff_disj)
  then have "zone_hardfork spec e ?now (final_header b) \<le> cs_hardfork_at spec (l1_tip_time e)"
    by (rule zone_hardfork_later [OF assms(1) forks(1)])
  moreover have "final_header b = lb_header l \<and> d = ImportFull" if "ai_checkpoint_headers b = []"
    using that cand p d decide_positive [of spec e "lb_header (last (pending (en_queue e)))" ?now]
    by (auto simp: final_header_def peek_headers_def)
  ultimately show ?thesis using forks(2) by auto
qed

section \<open>Witnesses\<close>

text \<open>
  A node with one pending L1 block that carries a user deposit, the key of that deposit, and a
  schedule that gives the block's anchor to the node.
\<close>

definition sample_spec :: "nat chain_spec" where
  "sample_spec = \<lparr>cs_hardfork_at = (\<lambda>t. if t < 100 then 0 else 1), cs_is_t13 = (\<lambda>f. 1 \<le> f),
     cs_is_shanghai_at = (\<lambda>_. True), cs_is_cancun_at = (\<lambda>_. True),
     cs_timestamp_millis = (\<lambda>h. th_timestamp h * 1000 + th_timestamp_millis_part h)\<rparr>"

definition sample_services :: "(unit, unit) services" where
  "sample_services =
     \<lparr>sv_fork_choice_updated = (\<lambda>_ _ s. (Inr \<lparr>fcu_is_valid = True, fcu_is_invalid = False, fcu_payload_id = Some 1\<rparr>, s)),
      sv_resolve = (\<lambda>_ s. (Inr (Some ()), s)), sv_header = (\<lambda>_. sample_l1_header),
      sv_new_payload = (\<lambda>_ s. (Inr True, s)), sv_collect = Some (\<lambda>_ _ s. (Inr (), s)),
      sv_now_millis = (\<lambda>_. Some 150000), sv_stopped = (\<lambda>_. False)\<rparr>"

definition engine_header :: SealedHeader where
  "engine_header = \<lparr>sh_header = \<lparr>th_parent_hash = 3, th_number = 5, th_state_root = 0,
     th_timestamp = 200, th_timestamp_millis_part = 7\<rparr>, sh_hash = 8\<rparr>"

definition sample_engine :: "unit ZoneEngine" where
  "sample_engine =
     \<lparr>en_shared = \<lparr>
        nd_queue = \<lparr>dq_inner = \<lparr>pending = [\<lparr>lb_header = engine_header, lb_events = from_deposits [sample_observed]\<rparr>],
          deferred = None, last_enqueued = Some (num_hash engine_header)\<rparr>, dq_permit = True\<rparr>,
        nd_tracker = tracker_default,
        nd_schedule = fold schedule_exec (map Publish sample_transitions) (for_membership {}),
        nd_keys = \<lparr>candidates = [], by_index = [(0, 5)]\<rparr>, nd_ext = ()\<rparr>,
      en_last_header = sample_l1_header, en_fee_recipient = 0, en_portal_address = 9,
      en_production_permit = Some 10\<rparr>"

definition sample_import :: AvailableTempoImport where
  "sample_import = \<lparr>ai_l1_block = \<lparr>lb_header = engine_header, lb_events = from_deposits [sample_observed]\<rparr>,
     ai_checkpoint_headers = [], ai_wall_clock = 150000\<rparr>"

lemma sample_services_keep: "reflp R \<Longrightarrow> services_keep R sample_services"
  by (auto simp: services_keep_def sample_services_def preserves_def reflp_def)

lemma sample_services_answer: "services_answer sample_services"
  by (simp add: services_answer_def sample_services_def)

lemma sample_engine_queue:
  "pending (en_queue sample_engine) = [\<lparr>lb_header = engine_header, lb_events = from_deposits [sample_observed]\<rparr>]"
  "queue_wf (en_queue sample_engine)"
  by (simp_all add: en_queue_def sample_engine_def queue_wf_def)

lemma sample_engine_times [simp]:
  "sh_timestamp_millis sample_spec engine_header = 200007"
  "sh_timestamp_millis sample_spec sample_l1_header = 0"
  "th_timestamp (sh_header engine_header) = 200"
  "en_last_header sample_engine = sample_l1_header"
  "nd_tracker (en_shared sample_engine) = tracker_default"
  by (simp_all add: sh_timestamp_millis_def sample_spec_def engine_header_def sample_l1_header_def sample_engine_def)

lemma sample_decide: "decide sample_spec sample_engine engine_header 150000 = ImportFull"
  by (simp add: decide_def peek_headers_def sample_engine_queue tempo_import_decision_def Let_def
      zone_timestamp_millis_def tracker_default_def sample_spec_def)

lemma sample_next_available: "next_available sample_spec sample_services sample_engine = Inr (Some sample_import)"
proof -
  have "sv_now_millis sample_services s = Some 150000" for s by (simp add: sample_services_def)
  then show ?thesis by (simp add: next_available_Inr sample_engine_queue sample_decide sample_import_def)
qed

lemma sample_engine_schedule:
  "transitions (nd_schedule (en_shared sample_engine)) =
     map (\<lambda>r. (ls_activation r, r)) sample_transitions"
  "applied_anchor (nd_schedule (en_shared sample_engine)) = None"
  "forced_recovery (nd_schedule (en_shared sample_engine)) = None"
  "en_production_permit sample_engine = Some 10" "nd_keys (en_shared sample_engine) = \<lparr>candidates = [], by_index = [(0, 5)]\<rparr>"
  by (simp_all add: sample_engine_def schedule_eval)

lemma sample_engine_permit: "permit_check (nd_schedule (en_shared sample_engine)) 10 5 = None"
  by (simp add: permit_check_def leader_for_def scheduled_leader_def sample_engine_schedule sample_transitions_def
      bt_last_le_def bt_retain_def bt_last_def)

lemma sample_engine_owed:
  "owed pe_deposits (en_queue sample_engine) = [sample_observed]"
  "owed pe_enabled_tokens (en_queue sample_engine) = []"
  by (simp_all add: owed_def sample_engine_def en_queue_def from_deposits_def no_events_def)

lemma sample_engine_drainable: "drainable sample_engine"
proof -
  have "may_produce sample_engine"
    using sample_engine_permit
    by (simp add: may_produce_def sample_engine_schedule sample_engine_queue unapplied_def
        sample_transitions_def engine_header_def sh_number_def bt_invar_def)
  moreover have "preparable (nd_keys (en_shared sample_engine)) (en_queue sample_engine)"
    by (simp add: preparable_def sample_engine_owed sample_engine_schedule first_unbound_def sample_observed_def
        MAX_UNPROCESSED_DEPOSITS_def)
  ultimately show ?thesis
    by (simp add: drainable_def sample_engine_queue production_paused_def portal_paused_def tracker_default_def)
qed


lemma sample_advance_runs:
  "\<exists>e'. advance toy_crypto sample_deposit_abi sample_spec sample_services sample_import sample_engine = (Inr (), e')"
  using drainable_step [OF sample_services_keep [OF same_node_preorder(1)] sample_services_answer
      sample_engine_drainable next_available_front [OF sample_next_available]] by blast


theorem drain_all_available_returns_witness:
  "\<exists>r e'. drain_all_available toy_crypto sample_deposit_abi sample_spec sample_services sample_engine = Some (r, e')"
  by (rule drain_all_available_returns [OF sample_services_keep [OF queue_untouched_preorder(1)] sample_engine_queue(2)])


theorem zone_hardfork_follows_l1_witness:
  "zone_hardfork sample_spec sample_engine 150000 engine_header \<le> cs_hardfork_at sample_spec (l1_tip_time sample_engine)"
proof -
  have m: "mono (cs_hardfork_at sample_spec)" by (rule monoI) (auto simp: sample_spec_def)
  have t: "\<forall>b \<in> set (pending (en_queue sample_engine)).
      th_timestamp (sh_header (lb_header b)) \<le> th_timestamp (sh_header (lb_header (last (pending (en_queue sample_engine))))) \<and>
      sh_timestamp_millis sample_spec (lb_header b) div 1000 = th_timestamp (sh_header (lb_header b))"
    by (simp add: sample_engine_queue)
  have "cs_is_t13 sample_spec (zone_hardfork sample_spec sample_engine (ai_wall_clock sample_import)
      (lb_header (ai_l1_block sample_import)))"
    by (simp add: zone_hardfork_def sample_import_def zone_timestamp_millis_def) (simp add: sample_spec_def)
  from zone_hardfork_follows_l1 [OF m t sample_next_available this] show ?thesis
    by (simp add: sample_import_def final_header_def)
qed

end
