(* ===== verification/Block_Executor.thy ===== *)
theory Block_Executor
  imports Portal_Events Zone_Context Op_System
begin

text \<open>
  The zone block executor (\<open>evm/src/executor.rs\<close>): the transaction-ordering phases of a zone block
  around the upstream Ethereum block executor, which is a record of parameters over its own state.
  A block opens with one Tempo system transaction; a checkpoint-only block holds nothing else; a
  block that requested withdrawals or, from T13 on, processed deposits must end with the
  finalization of the withdrawal batch.
\<close>

section \<open>Phases and transactions\<close>

datatype ZoneBlockPhase = AwaitingAdvanceTempo | Executing | CheckpointOnlyPhase | WithdrawalsFinalized

text \<open>The derived order of the source's enum.\<close>

fun phase_rank :: "ZoneBlockPhase \<Rightarrow> nat" where
  "phase_rank AwaitingAdvanceTempo = 0"
| "phase_rank Executing = 1"
| "phase_rank CheckpointOnlyPhase = 2"
| "phase_rank WithdrawalsFinalized = 3"

lemma phase_rank_inject [simp]: "phase_rank p = phase_rank q \<longleftrightarrow> p = q"
  by (cases p; cases q) simp_all

instantiation ZoneBlockPhase :: linorder
begin

definition less_eq_ZoneBlockPhase :: "ZoneBlockPhase \<Rightarrow> ZoneBlockPhase \<Rightarrow> bool" where
  "less_eq_ZoneBlockPhase p q = (phase_rank p \<le> phase_rank q)"

definition less_ZoneBlockPhase :: "ZoneBlockPhase \<Rightarrow> ZoneBlockPhase \<Rightarrow> bool" where
  "less_ZoneBlockPhase p q = (phase_rank p < phase_rank q)"

instance
  by standard (auto simp: less_eq_ZoneBlockPhase_def less_ZoneBlockPhase_def)

end

datatype ZoneTransactionKind =
    AdvanceTempoTx
  | AdvanceTempoHeadersTx
  | RegularTx
  | FinalizeWithdrawalBatchTx
  | UnexpectedSystemTx

text \<open>What is read of a transaction envelope, and the selectors of the system calls.\<close>

record 't tx_ops =
  tx_has_sub_block_nonce_key_prefix :: "'t \<Rightarrow> bool"
  tx_is_system_tx :: "'t \<Rightarrow> bool"
  tx_calls :: "'t \<Rightarrow> (address option \<times> bytes) list"
  sel_advance_tempo :: bytes
  sel_advance_tempo_headers :: bytes
  sel_finalize_withdrawal_batch :: bytes

definition starts_with :: "bytes \<Rightarrow> bytes \<Rightarrow> bool" where
  "starts_with input selector \<longleftrightarrow> take (length selector) input = selector"

definition calls_selector :: "'t tx_ops \<Rightarrow> 't \<Rightarrow> address \<Rightarrow> bytes \<Rightarrow> bool" where
  "calls_selector ops tx to_address selector =
     list_ex (\<lambda>(kind, input). kind = Some to_address \<and> starts_with input selector) (tx_calls ops tx)"

definition classify :: "'t tx_ops \<Rightarrow> 't \<Rightarrow> ZoneTransactionKind" where
  "classify ops tx =
     (if \<not> tx_is_system_tx ops tx then RegularTx
      else if calls_selector ops tx ZONE_INBOX_ADDRESS (sel_advance_tempo ops) then AdvanceTempoTx
      else if calls_selector ops tx ZONE_INBOX_ADDRESS (sel_advance_tempo_headers ops)
      then AdvanceTempoHeadersTx
      else if calls_selector ops tx ZONE_OUTBOX_ADDRESS (sel_finalize_withdrawal_batch ops)
      then FinalizeWithdrawalBatchTx
      else UnexpectedSystemTx)"

datatype 'e block_error =
    SubblockTransaction
  | AdvanceTempoNotFirst
  | AdvanceTempoTwice
  | HeadersNotOpening
  | UnexpectedSystemTransaction
  | AfterFinalization
  | AfterCheckpoint
  | WithdrawalsNotPermitted
  | MissingAdvanceTempo
  | RequestsNotFinalized
  | DepositsNotFinalized
  | InnerError 'e

fun next_phase :: "ZoneBlockPhase \<Rightarrow> ZoneTransactionKind \<Rightarrow> 'e block_error + ZoneBlockPhase" where
  "next_phase AwaitingAdvanceTempo AdvanceTempoTx = Inr Executing"
| "next_phase AwaitingAdvanceTempo AdvanceTempoHeadersTx = Inr CheckpointOnlyPhase"
| "next_phase AwaitingAdvanceTempo _ = Inl AdvanceTempoNotFirst"
| "next_phase Executing AdvanceTempoTx = Inl AdvanceTempoTwice"
| "next_phase Executing AdvanceTempoHeadersTx = Inl HeadersNotOpening"
| "next_phase Executing RegularTx = Inr Executing"
| "next_phase Executing FinalizeWithdrawalBatchTx = Inr WithdrawalsFinalized"
| "next_phase Executing UnexpectedSystemTx = Inl UnexpectedSystemTransaction"
| "next_phase WithdrawalsFinalized _ = Inl AfterFinalization"
| "next_phase CheckpointOnlyPhase _ = Inl AfterCheckpoint"

definition validate_transaction ::
  "'t tx_ops \<Rightarrow> ZoneBlockPhase \<Rightarrow> 't \<Rightarrow> 'e block_error + ZoneBlockPhase" where
  "validate_transaction ops phase tx =
     (if tx_has_sub_block_nonce_key_prefix ops tx then Inl SubblockTransaction
      else next_phase phase (classify ops tx))"

definition advance_to :: "ZoneBlockPhase \<Rightarrow> ZoneBlockPhase \<Rightarrow> ZoneBlockPhase" where
  "advance_to phase following = max phase following"

section \<open>The executor\<close>

text \<open>The upstream executor, the EVM configuration and the event codec the executor reads.\<close>

record ('s, 't, 'r, 'e) inner_executor =
  in_has_withdrawals :: "'s \<Rightarrow> bool"
  in_apply_pre_execution_changes :: "('s, 'e, unit) eff"
  in_execute :: "'t \<Rightarrow> ('s, 'e, 'r) eff"
  in_clear_l1_overlay :: "'s \<Rightarrow> 's"
  in_commit :: "'r \<Rightarrow> 's \<Rightarrow> 's"
  in_receipts :: "'s \<Rightarrow> chain_log list list"
  in_is_t13 :: "'s \<Rightarrow> bool"
  in_finish :: "'s \<Rightarrow> 'e + 's"
  in_withdrawal_requested_hash :: b256
  in_tempo_advanced_hash :: b256
  in_decode_deposits_processed :: "chain_log \<Rightarrow> u256 option"

record 's ZoneBlockExecutor =
  bx_inner :: 's
  bx_phase :: ZoneBlockPhase

definition executor_new :: "'s \<Rightarrow> 's ZoneBlockExecutor" where
  "executor_new s = \<lparr>bx_inner = s, bx_phase = AwaitingAdvanceTempo\<rparr>"

type_synonym ('s, 'e, 'a) block_eff = "('s ZoneBlockExecutor, 'e block_error, 'a) eff"

definition on_bx_inner :: "('s, 'e, 'a) eff \<Rightarrow> ('s, 'e, 'a) block_eff" where
  "on_bx_inner m = emap_err InnerError (ezoom bx_inner (\<lambda>s x. x\<lparr>bx_inner := s\<rparr>) m)"

definition apply_pre_execution_changes ::
  "('s, 't, 'r, 'e) inner_executor \<Rightarrow> ('s, 'e, unit) block_eff" where
  "apply_pre_execution_changes ix =
     ebind (eget (\<lambda>x. in_has_withdrawals ix (bx_inner x))) (\<lambda>nonempty.
     eseq (echeck (\<not> nonempty) WithdrawalsNotPermitted)
          (on_bx_inner (in_apply_pre_execution_changes ix)))"

text \<open>The overlay of L1 reads is cleared whether or not the execution succeeded.\<close>

definition execute_transaction_without_commit ::
  "'t tx_ops \<Rightarrow> ('s, 't, 'r, 'e) inner_executor \<Rightarrow> 't \<Rightarrow> ('s, 'e, 'r \<times> ZoneBlockPhase) block_eff" where
  "execute_transaction_without_commit ops ix tx x =
     (case validate_transaction ops (bx_phase x) tx of
        Inl err \<Rightarrow> (Inl err, x)
      | Inr following \<Rightarrow>
          (case in_execute ix tx (bx_inner x) of
             (r, s) \<Rightarrow>
               (map_err InnerError (rbind r (\<lambda>result. Inr (result, following))),
                x\<lparr>bx_inner := in_clear_l1_overlay ix s\<rparr>)))"

definition commit_transaction ::
  "('s, 't, 'r, 'e) inner_executor \<Rightarrow> 'r \<times> ZoneBlockPhase \<Rightarrow> 's ZoneBlockExecutor \<Rightarrow> 's ZoneBlockExecutor" where
  "commit_transaction ix output x =
     x\<lparr>bx_phase := advance_to (bx_phase x) (snd output), bx_inner := in_commit ix (fst output) (bx_inner x)\<rparr>"

definition requested_withdrawal :: "('s, 't, 'r, 'e) inner_executor \<Rightarrow> 's \<Rightarrow> bool" where
  "requested_withdrawal ix s =
     list_ex (\<lambda>log. log_address log = ZONE_OUTBOX_ADDRESS \<and> topic0 log = Some (in_withdrawal_requested_hash ix))
       (concat (in_receipts ix s))"

definition processed_deposit :: "('s, 't, 'r, 'e) inner_executor \<Rightarrow> 's \<Rightarrow> bool" where
  "processed_deposit ix s \<longleftrightarrow> in_is_t13 ix s \<and>
     list_ex (\<lambda>log. case in_decode_deposits_processed ix log of None \<Rightarrow> False | Some n \<Rightarrow> n \<noteq> 0)
       (filter (\<lambda>log. log_address log = ZONE_INBOX_ADDRESS \<and> topic0 log = Some (in_tempo_advanced_hash ix))
          (concat (in_receipts ix s)))"

definition executor_finish ::
  "('s, 't, 'r, 'e) inner_executor \<Rightarrow> 's ZoneBlockExecutor \<Rightarrow> 'e block_error + 's" where
  "executor_finish ix x =
     rbind (check (bx_phase x \<noteq> AwaitingAdvanceTempo) MissingAdvanceTempo) (\<lambda>_.
     rbind (check (\<not> (requested_withdrawal ix (bx_inner x) \<and> bx_phase x \<noteq> WithdrawalsFinalized))
       RequestsNotFinalized) (\<lambda>_.
     rbind (check (\<not> (processed_deposit ix (bx_inner x) \<and> bx_phase x \<noteq> WithdrawalsFinalized))
       DepositsNotFinalized) (\<lambda>_.
     map_err InnerError (in_finish ix (bx_inner x)))))"

section \<open>The shape of a finished block\<close>

text \<open>
  What a caller does with the executor: it executes transactions one by one and commits or
  discards each result before the next. The trace keeps the kinds of the committed transactions.
\<close>

datatype 't block_step = CommitTx 't | DiscardTx 't

record 's block_trace =
  bt_executor :: "'s ZoneBlockExecutor"
  bt_committed :: "ZoneTransactionKind list"

fun block_exec ::
  "'t tx_ops \<Rightarrow> ('s, 't, 'r, 'e) inner_executor \<Rightarrow> 't block_step \<Rightarrow> 's block_trace \<Rightarrow> 's block_trace" where
  "block_exec ops ix (CommitTx tx) t =
     (case execute_transaction_without_commit ops ix tx (bt_executor t) of
        (Inl _, x) \<Rightarrow> t\<lparr>bt_executor := x\<rparr>
      | (Inr output, x) \<Rightarrow> t\<lparr>bt_executor := commit_transaction ix output x,
                             bt_committed := bt_committed t @ [classify ops tx]\<rparr>)"
| "block_exec ops ix (DiscardTx tx) t =
     t\<lparr>bt_executor := snd (execute_transaction_without_commit ops ix tx (bt_executor t))\<rparr>"

text \<open>The committed transactions that belong to a phase.\<close>

fun phase_trace :: "ZoneBlockPhase \<Rightarrow> ZoneTransactionKind list \<Rightarrow> bool" where
  "phase_trace AwaitingAdvanceTempo ks \<longleftrightarrow> ks = []"
| "phase_trace CheckpointOnlyPhase ks \<longleftrightarrow> ks = [AdvanceTempoHeadersTx]"
| "phase_trace Executing ks \<longleftrightarrow> (\<exists>n. ks = AdvanceTempoTx # replicate n RegularTx)"
| "phase_trace WithdrawalsFinalized ks \<longleftrightarrow>
     (\<exists>n. ks = AdvanceTempoTx # replicate n RegularTx @ [FinalizeWithdrawalBatchTx])"

lemma next_phase_Inr:
  assumes "next_phase p k = Inr q"
  obtains "p = AwaitingAdvanceTempo" "k = AdvanceTempoTx" "q = Executing"
  | "p = AwaitingAdvanceTempo" "k = AdvanceTempoHeadersTx" "q = CheckpointOnlyPhase"
  | "p = Executing" "k = RegularTx" "q = Executing"
  | "p = Executing" "k = FinalizeWithdrawalBatchTx" "q = WithdrawalsFinalized"
  using assms by (cases "(p, k)" rule: next_phase.cases) auto

lemma phase_trace_next: "next_phase p k = Inr q \<Longrightarrow> phase_trace p ks \<Longrightarrow> phase_trace (max p q) (ks @ [k])"
proof (erule next_phase_Inr)
  assume "p = Executing" "k = RegularTx" "q = Executing" "phase_trace p ks"
  then obtain n where "ks = AdvanceTempoTx # replicate n RegularTx" by auto
  then have "ks @ [k] = AdvanceTempoTx # replicate (Suc n) RegularTx"
    using \<open>k = RegularTx\<close> by (simp add: replicate_append_same)
  then show ?thesis using \<open>p = Executing\<close> \<open>q = Executing\<close> by (auto simp del: replicate_Suc)
qed (auto simp: max_def less_eq_ZoneBlockPhase_def)

definition block_inv :: "'s block_trace \<Rightarrow> bool" where
  "block_inv t = phase_trace (bx_phase (bt_executor t)) (bt_committed t)"

lemma execute_keeps_phase [simp]:
  "bx_phase (snd (execute_transaction_without_commit ops ix tx x)) = bx_phase x"
  by (simp add: execute_transaction_without_commit_def split: sum.splits prod.splits)

lemma execute_phase:
  fixes x :: "'s ZoneBlockExecutor" and ix :: "('s, 't, 'r, 'e) inner_executor"
  assumes "execute_transaction_without_commit ops ix tx x = (Inr (r, q), x')"
  shows "(next_phase (bx_phase x) (classify ops tx) :: 'e block_error + ZoneBlockPhase) = Inr q"
    and "bx_phase x' = bx_phase x"
  using assms
  by (auto simp: execute_transaction_without_commit_def validate_transaction_def map_err_def
      split: sum.splits prod.splits if_splits)

lemma block_exec_inv: "block_inv t \<Longrightarrow> block_inv (block_exec ops ix step t)"
proof (cases step)
  case (CommitTx tx)
  assume inv: "block_inv t"
  obtain r x where run: "execute_transaction_without_commit ops ix tx (bt_executor t) = (r, x)"
    by (metis surj_pair)
  then have same: "bx_phase x = bx_phase (bt_executor t)"
    using execute_keeps_phase [of ops ix tx "bt_executor t"] by simp
  show ?thesis
  proof (cases r)
    case (Inl e)
    then show ?thesis using CommitTx run inv same by (simp add: block_inv_def)
  next
    case (Inr outp)
    obtain res q where rq: "outp = (res, q)" by (cases outp)
    from run Inr rq have "next_phase (bx_phase (bt_executor t)) (classify ops tx) = (Inr q :: 'd block_error + _)"
      by (auto dest: execute_phase)
    then show ?thesis
      using CommitTx run inv same Inr rq phase_trace_next
      by (auto simp: block_inv_def commit_transaction_def advance_to_def)
  qed
qed (simp add: block_inv_def)

interpretation zone_block: op_system "block_exec ops ix" block_inv
  for ops :: "'t tx_ops" and ix :: "('s, 't, 'r, 'e) inner_executor"
  by unfold_locales (rule block_exec_inv)

text \<open>
  C29. A block that finishes has the shape the zone protocol prescribes. Whatever transactions a
  caller commits and discards, when \<open>finish\<close> accepts the block its committed transactions are one
  \<open>advanceTempoHeaders\<close> and nothing else, or one \<open>advanceTempo\<close> first, then user transactions, then at
  most one \<open>finalizeWithdrawalBatch\<close>; and the finalization is there whenever a withdrawal was requested
  or, under T13, a deposit was processed in the block.
\<close>

theorem finished_block_shape:
  assumes "executor_finish ix (bt_executor t) = Inr s"
    and "t = fold (block_exec ops ix) steps \<lparr>bt_executor = executor_new s0, bt_committed = []\<rparr>"
  shows "(bt_committed t = [AdvanceTempoHeadersTx] \<or>
      (\<exists>n. bt_committed t = AdvanceTempoTx # replicate n RegularTx) \<or>
      (\<exists>n. bt_committed t = AdvanceTempoTx # replicate n RegularTx @ [FinalizeWithdrawalBatchTx])) \<and>
    (requested_withdrawal ix (bx_inner (bt_executor t)) \<or> processed_deposit ix (bx_inner (bt_executor t)) \<longrightarrow>
       last (bt_committed t) = FinalizeWithdrawalBatchTx)"
proof -
  have "block_inv t" unfolding assms(2)
    by (rule zone_block.run_inv) (simp add: block_inv_def executor_new_def)
  then show ?thesis using assms(1)
    by (cases "bx_phase (bt_executor t)") (auto simp: block_inv_def executor_finish_def)
qed

section \<open>Witness\<close>

text \<open>
  Transactions are numbers (zero opens, one finalizes, the others are user transactions that request
  a withdrawal) and the inner executor only collects receipts.
\<close>

definition sample_tx_ops :: "nat tx_ops" where
  "sample_tx_ops =
     \<lparr>tx_has_sub_block_nonce_key_prefix = (\<lambda>_. False), tx_is_system_tx = (\<lambda>n. n < 2),
      tx_calls = (\<lambda>n. if n = 0 then [(Some ZONE_INBOX_ADDRESS, [1, 7])] else [(Some ZONE_OUTBOX_ADDRESS, [3])]),
      sel_advance_tempo = [1], sel_advance_tempo_headers = [2], sel_finalize_withdrawal_batch = [3]\<rparr>"

definition sample_inner :: "(chain_log list list, nat, nat, unit) inner_executor" where
  "sample_inner =
     \<lparr>in_has_withdrawals = (\<lambda>_. False), in_apply_pre_execution_changes = ereturn (),
      in_execute = (\<lambda>n s. (Inr n, s)), in_clear_l1_overlay = (\<lambda>s. s),
      in_commit = (\<lambda>n s. s @ [if n < 2 then []
        else [\<lparr>log_address = ZONE_OUTBOX_ADDRESS, log_data = \<lparr>ld_topics = [9], ld_data = []\<rparr>\<rparr>]]),
      in_receipts = (\<lambda>s. s), in_is_t13 = (\<lambda>_. True), in_finish = Inr,
      in_withdrawal_requested_hash = 9, in_tempo_advanced_hash = 8, in_decode_deposits_processed = (\<lambda>_. None)\<rparr>"

definition sample_block :: "chain_log list list block_trace" where
  "sample_block = fold (block_exec sample_tx_ops sample_inner) [CommitTx 0, DiscardTx 1, CommitTx 5, CommitTx 1]
     \<lparr>bt_executor = executor_new [], bt_committed = []\<rparr>"

lemmas sample_block_eval = sample_block_def sample_inner_def sample_tx_ops_def
  execute_transaction_without_commit_def validate_transaction_def classify_def calls_selector_def
  starts_with_def commit_transaction_def advance_to_def executor_new_def map_err_def max_def
  less_eq_ZoneBlockPhase_def

lemma sample_block_finishes: "\<exists>s. executor_finish sample_inner (bt_executor sample_block) = Inr s"
  by (simp add: sample_block_eval executor_finish_def processed_deposit_def)

theorem finished_block_shape_witness:
  "requested_withdrawal sample_inner (bx_inner (bt_executor sample_block)) \<and>
   last (bt_committed sample_block) = FinalizeWithdrawalBatchTx"
proof -
  obtain s where fin: "executor_finish sample_inner (bt_executor sample_block) = Inr s"
    using sample_block_finishes by blast
  have "requested_withdrawal sample_inner (bx_inner (bt_executor sample_block))"
    by (simp add: sample_block_eval requested_withdrawal_def topic0_def)
  then show ?thesis using finished_block_shape [OF fin sample_block_def] by simp
qed

end
