(* ===== verification/Spf_Witness.thy ===== *)
theory Spf_Witness
  imports Tempo_State BTree_Map Op_System
begin

text \<open>
  The databases of the stateless state transition function (\<open>spf/src/mpt.rs\<close> and
  \<open>spf/src/execution/database.rs\<close>): a sparse trie rebuilt from a flat pool of witness nodes and
  bound to a state root, the zone database that reads through it with its caches, and the reader of
  Tempo storage at an imported checkpoint. The sparse trie itself, RLP and the hashing of execution
  changes are upstream code and form a record of parameters.
\<close>

section \<open>The upstream trie\<close>

text \<open>The answer of upstream code that may fail or panic.\<close>

datatype 'a upstream = Panicked | Failed | Returned 'a

record TrieAccount =
  ta_nonce :: u64
  ta_balance :: u256
  ta_storage_root :: b256
  ta_code_hash :: b256

record AccountInfo =
  ai_balance :: u256
  ai_nonce :: u64
  ai_code_hash :: b256
  ai_code :: "bytes option"

text \<open>The changes of one block, by address and hashed. Hash maps are lists of their entries.\<close>

record BundleAccount =
  ba_info :: "AccountInfo option"
  ba_storage_known :: bool
  ba_storage :: "(u256 \<times> u256) list"

type_synonym BundleState = "(address \<times> BundleAccount) list"

record Account =
  acc_nonce :: u64
  acc_balance :: u256
  acc_bytecode_hash :: "b256 option"

record HashedPostState =
  hp_accounts :: "(b256 \<times> Account option) list"
  hp_storages :: "(b256 \<times> (b256 \<times> u256) list) list"

text \<open>
  \<open>'tr\<close> is the state trie with the storage tries it holds, \<open>'st\<close> a storage trie, \<open>'mp\<close> a decoded
  multiproof.
\<close>

record ('tr, 'st, 'mp) sparse_ops =
  sp_keccak :: keccak
  sp_empty_root :: b256
  sp_new :: 'tr
  sp_set_revealed_empty :: "'tr \<Rightarrow> 'tr"
  sp_from_witness :: "b256 \<Rightarrow> (b256 \<rightharpoonup> bytes) \<Rightarrow> 'mp upstream"
  sp_reveal :: "'mp \<Rightarrow> 'tr \<Rightarrow> 'tr upstream"
  sp_root :: "'tr \<Rightarrow> (b256 \<times> 'tr) upstream"
  sp_account_value :: "'tr \<Rightarrow> b256 \<Rightarrow> bytes option upstream"
  sp_is_account_revealed :: "'tr \<Rightarrow> b256 \<Rightarrow> bool upstream"
  sp_storage_slot_value :: "'tr \<Rightarrow> b256 \<Rightarrow> b256 \<Rightarrow> bytes option upstream"
  sp_check_valid_storage_witness :: "'tr \<Rightarrow> b256 \<Rightarrow> b256 \<Rightarrow> bool upstream"
  sp_storage_trie :: "'tr \<Rightarrow> b256 \<Rightarrow> 'st option"
  sp_take_storage_trie :: "b256 \<Rightarrow> 'tr \<Rightarrow> 'tr"
  sp_insert_storage_trie :: "b256 \<Rightarrow> 'st \<Rightarrow> 'tr \<Rightarrow> 'tr"
  sp_revealed_empty :: 'st
  sp_update_storage_leaves :: "(b256 \<times> bytes) list \<Rightarrow> 'st \<Rightarrow> ((b256 \<times> bytes) list \<times> 'st) upstream"
  sp_storage_root :: "'st \<Rightarrow> (b256 \<times> 'st) upstream"
  sp_update_account_leaves :: "(b256 \<times> bytes) list \<Rightarrow> 'tr \<Rightarrow> ((b256 \<times> bytes) list \<times> 'tr) upstream"
  sp_decode_account :: "bytes \<Rightarrow> TrieAccount option"
  sp_encode_account :: "TrieAccount \<Rightarrow> bytes"
  sp_decode_u256 :: "bytes \<Rightarrow> u256 option"
  sp_encode_u256 :: "u256 \<Rightarrow> bytes"
  sp_into_trie_account :: "Account \<Rightarrow> b256 \<Rightarrow> TrieAccount"
  sp_from_bundle_state :: "BundleState \<Rightarrow> HashedPostState"
  sp_code_hash :: "bytes \<Rightarrow> b256"

section \<open>The stateless trie\<close>

datatype StatelessSparseTrieError =
    DuplicateNodeHash b256
  | InvalidNodeEncoding
  | MissingStateRootNode b256
  | InvalidSparseTrie
  | StateRootMismatch b256 b256
  | IncompleteAccountProof address
  | InvalidAccountValue address
  | IncompleteStorageProof address u256
  | InvalidStorageValue address u256
  | IncompleteStateUpdate

text \<open>
  An upstream call inside \<open>guarded\<close>: a panic ends the guarded operation with the error for an
  invalid trie, a failure with the error the call site maps it to.
\<close>

fun guarded :: "StatelessSparseTrieError \<Rightarrow> 'a upstream \<Rightarrow> StatelessSparseTrieError + 'a" where
  "guarded e Panicked = Inl InvalidSparseTrie"
| "guarded e Failed = Inl e"
| "guarded e (Returned x) = Inr x"

definition index_node ::
  "('tr, 'st, 'mp) sparse_ops \<Rightarrow> bytes \<Rightarrow> (b256 \<rightharpoonup> bytes) \<Rightarrow> StatelessSparseTrieError + (b256 \<rightharpoonup> bytes)" where
  "index_node sp node nodes =
     (let node_hash = sp_keccak sp node in
      if nodes node_hash \<noteq> None then Inl (DuplicateNodeHash node_hash)
      else Inr (nodes(node_hash \<mapsto> node)))"

definition trie_new ::
  "('tr, 'st, 'mp) sparse_ops \<Rightarrow> b256 \<Rightarrow> bytes list \<Rightarrow> StatelessSparseTrieError + 'tr" where
  "trie_new sp state_root node_pool =
     rbind (try_fold (index_node sp) node_pool Map.empty) (\<lambda>nodes.
     if state_root = sp_empty_root sp then Inr (sp_set_revealed_empty sp (sp_new sp))
     else
       rbind (check (nodes state_root \<noteq> None) (MissingStateRootNode state_root)) (\<lambda>_.
       rbind (guarded InvalidNodeEncoding (sp_from_witness sp state_root nodes)) (\<lambda>multiproof.
       rbind (guarded InvalidSparseTrie (sp_reveal sp multiproof (sp_new sp))) (\<lambda>revealed.
       rbind (guarded InvalidSparseTrie (sp_root sp revealed)) (\<lambda>(actual_root, inner).
       rbind (check (actual_root = state_root) (StateRootMismatch state_root actual_root)) (\<lambda>_.
       Inr inner))))))"

definition hashed_address :: "('tr, 'st, 'mp) sparse_ops \<Rightarrow> address \<Rightarrow> b256" where
  "hashed_address sp a = sp_keccak sp (to_be_bytes 20 a)"

definition hashed_slot :: "('tr, 'st, 'mp) sparse_ops \<Rightarrow> u256 \<Rightarrow> b256" where
  "hashed_slot sp s = sp_keccak sp (to_be_bytes 32 s)"

definition trie_account_at ::
  "('tr, 'st, 'mp) sparse_ops \<Rightarrow> 'tr \<Rightarrow> address \<Rightarrow> StatelessSparseTrieError + TrieAccount option" where
  "trie_account_at sp tr a =
     rbind (guarded InvalidSparseTrie (sp_account_value sp tr (hashed_address sp a))) (\<lambda>value.
     case value of
       Some v \<Rightarrow> rbind (ok_or (sp_decode_account sp v) (InvalidAccountValue a)) (\<lambda>account. Inr (Some account))
     | None \<Rightarrow>
         rbind (guarded InvalidSparseTrie (sp_is_account_revealed sp tr (hashed_address sp a))) (\<lambda>revealed.
         rbind (check revealed (IncompleteAccountProof a)) (\<lambda>_.
         Inr None)))"

definition trie_storage ::
  "('tr, 'st, 'mp) sparse_ops \<Rightarrow> 'tr \<Rightarrow> address \<Rightarrow> u256 \<Rightarrow> StatelessSparseTrieError + u256" where
  "trie_storage sp tr a slot =
     rbind (guarded InvalidSparseTrie (sp_storage_slot_value sp tr (hashed_address sp a) (hashed_slot sp slot)))
       (\<lambda>value.
     case value of
       Some v \<Rightarrow> ok_or (sp_decode_u256 sp v) (InvalidStorageValue a slot)
     | None \<Rightarrow>
         rbind (trie_account_at sp tr a) (\<lambda>found.
         case found of
           None \<Rightarrow> Inr 0
         | Some account \<Rightarrow>
             if ta_storage_root account \<noteq> sp_empty_root sp
             then rbind (guarded InvalidSparseTrie
                      (sp_check_valid_storage_witness sp tr (hashed_address sp a) (hashed_slot sp slot)))
                    (\<lambda>valid. rbind (check valid (IncompleteStorageProof a slot)) (\<lambda>_. Inr 0))
             else Inr 0))"

text \<open>\<open>trie_account\<close>: the account under a hashed address.\<close>

definition trie_account ::
  "('tr, 'st, 'mp) sparse_ops \<Rightarrow> 'tr \<Rightarrow> b256 \<Rightarrow> StatelessSparseTrieError + TrieAccount option" where
  "trie_account sp tr ha =
     rbind (guarded InvalidSparseTrie (sp_account_value sp tr ha)) (\<lambda>value.
     case value of
       None \<Rightarrow> Inr None
     | Some v \<Rightarrow> rbind (ok_or (sp_decode_account sp v) InvalidSparseTrie) (\<lambda>account. Inr (Some account)))"

section \<open>Advancing the trie\<close>

definition storage_leaf_update ::
  "('tr, 'st, 'mp) sparse_ops \<Rightarrow> b256 \<times> u256 \<Rightarrow> b256 \<times> bytes" where
  "storage_leaf_update sp = (\<lambda>(slot, value). (slot, if value = 0 then [] else sp_encode_u256 sp value))"

definition update_storage_trie ::
  "('tr, 'st, 'mp) sparse_ops \<Rightarrow> b256 \<times> (b256 \<times> u256) list \<Rightarrow> 'tr \<times> (b256, b256) btree
   \<Rightarrow> StatelessSparseTrieError + 'tr \<times> (b256, b256) btree" where
  "update_storage_trie sp = (\<lambda>(ha, storage) (tr, storage_roots).
     rbind (trie_account sp tr ha) (\<lambda>current_account.
     rbind (check (\<not> ((case current_account of None \<Rightarrow> False
                        | Some account \<Rightarrow> ta_storage_root account \<noteq> sp_empty_root sp)
                      \<and> sp_storage_trie sp tr ha = None))
        IncompleteStateUpdate) (\<lambda>_.
     let storage_trie = (case sp_storage_trie sp tr ha of None \<Rightarrow> sp_revealed_empty sp | Some t \<Rightarrow> t);
         tr = sp_take_storage_trie sp ha tr
     in rbind (guarded InvalidSparseTrie
            (sp_update_storage_leaves sp (map (storage_leaf_update sp) storage) storage_trie))
          (\<lambda>(updates, storage_trie).
        rbind (check (updates = []) IncompleteStateUpdate) (\<lambda>_.
        rbind (guarded InvalidSparseTrie (sp_storage_root sp storage_trie)) (\<lambda>(storage_root, storage_trie).
        Inr (sp_insert_storage_trie sp ha storage_trie tr, bt_insert ha storage_root storage_roots)))))))"

definition account_leaf_update ::
  "('tr, 'st, 'mp) sparse_ops \<Rightarrow> 'tr \<Rightarrow> b256 \<times> Account option
   \<Rightarrow> (b256, bytes) btree \<times> (b256, b256) btree
   \<Rightarrow> StatelessSparseTrieError + (b256, bytes) btree \<times> (b256, b256) btree" where
  "account_leaf_update sp tr = (\<lambda>(ha, account) (account_updates, storage_roots).
     case account of
       Some acc \<Rightarrow>
         rbind (trie_account sp tr ha) (\<lambda>current.
         let storage_root = (case bt_get storage_roots ha of
               Some root \<Rightarrow> root
             | None \<Rightarrow> (case current of Some c \<Rightarrow> ta_storage_root c | None \<Rightarrow> sp_empty_root sp))
         in Inr (bt_insert ha (sp_encode_account sp (sp_into_trie_account sp acc storage_root)) account_updates,
                 bt_remove ha storage_roots))
     | None \<Rightarrow> Inr (bt_insert ha [] account_updates, bt_remove ha storage_roots))"

definition storage_root_update ::
  "('tr, 'st, 'mp) sparse_ops \<Rightarrow> 'tr \<Rightarrow> b256 \<times> b256 \<Rightarrow> (b256, bytes) btree
   \<Rightarrow> StatelessSparseTrieError + (b256, bytes) btree" where
  "storage_root_update sp tr = (\<lambda>(ha, storage_root) account_updates.
     rbind (trie_account sp tr ha) (\<lambda>current.
     rbind (ok_or current IncompleteStateUpdate) (\<lambda>account.
     Inr (bt_insert ha (sp_encode_account sp (account\<lparr>ta_storage_root := storage_root\<rparr>)) account_updates))))"

definition calculate_state_root ::
  "('tr, 'st, 'mp) sparse_ops \<Rightarrow> HashedPostState \<Rightarrow> 'tr \<Rightarrow> StatelessSparseTrieError + b256 \<times> 'tr" where
  "calculate_state_root sp post tr =
     rbind (try_fold (update_storage_trie sp) (sort_key fst (hp_storages post)) (tr, []))
       (\<lambda>(tr, storage_roots).
     rbind (try_fold (account_leaf_update sp tr) (hp_accounts post) ([], storage_roots))
       (\<lambda>(account_updates, storage_roots).
     rbind (try_fold (storage_root_update sp tr) storage_roots account_updates) (\<lambda>account_updates.
     rbind (guarded InvalidSparseTrie (sp_update_account_leaves sp account_updates tr)) (\<lambda>(left, tr).
     rbind (check (left = []) IncompleteStateUpdate) (\<lambda>_.
     guarded InvalidSparseTrie (sp_root sp tr))))))"

section \<open>The zone database\<close>

datatype WitnessDatabaseError =
    Mpt StatelessSparseTrieError
  | MissingCode b256
  | DuplicateBytecodeHash b256
  | ConflictingBlockHash u64 b256 b256
  | InvalidTempoHeader

record 'tr WitnessDatabase =
  wd_state :: 'tr
  wd_accounts :: "address \<rightharpoonup> AccountInfo option"
  wd_storage :: "address \<rightharpoonup> (u256 \<rightharpoonup> u256)"
  wd_code_by_hash :: "b256 \<rightharpoonup> bytes"

record ZoneStateWitness =
  zw_node_pool :: "bytes list"
  zw_bytecodes :: "bytes list"

datatype state_error = MptValidation StatelessSparseTrieError | WitnessDatabaseErr WitnessDatabaseError

definition index_bytecode ::
  "('tr, 'st, 'mp) sparse_ops \<Rightarrow> bytes \<Rightarrow> (b256 \<rightharpoonup> bytes) \<Rightarrow> state_error + (b256 \<rightharpoonup> bytes)" where
  "index_bytecode sp code codes =
     (let code_hash = sp_code_hash sp code in
      if codes code_hash \<noteq> None then Inl (WitnessDatabaseErr (DuplicateBytecodeHash code_hash))
      else Inr (codes(code_hash \<mapsto> code)))"

definition from_zone_state_witness ::
  "('tr, 'st, 'mp) sparse_ops \<Rightarrow> ZoneStateWitness \<Rightarrow> b256 \<Rightarrow> state_error + 'tr WitnessDatabase" where
  "from_zone_state_witness sp witness state_root =
     rbind (map_err MptValidation (trie_new sp state_root (zw_node_pool witness))) (\<lambda>state.
     rbind (try_fold (index_bytecode sp) (zw_bytecodes witness) Map.empty) (\<lambda>codes.
     Inr \<lparr>wd_state = state, wd_accounts = Map.empty, wd_storage = Map.empty, wd_code_by_hash = codes\<rparr>))"

type_synonym ('tr, 'a) witness_eff = "('tr WitnessDatabase, WitnessDatabaseError, 'a) eff"

definition db_basic :: "('tr, 'st, 'mp) sparse_ops \<Rightarrow> address \<Rightarrow> ('tr, AccountInfo option) witness_eff" where
  "db_basic sp a db =
     (case wd_accounts db a of
        Some account \<Rightarrow> (Inr account, db)
      | None \<Rightarrow>
          (case trie_account_at sp (wd_state db) a of
             Inl e \<Rightarrow> (Inl (Mpt e), db)
           | Inr found \<Rightarrow>
               let account = map_option (\<lambda>t. \<lparr>ai_balance = ta_balance t, ai_nonce = ta_nonce t,
                     ai_code_hash = ta_code_hash t, ai_code = None\<rparr>) found
               in (Inr account, db\<lparr>wd_accounts := (wd_accounts db)(a \<mapsto> account)\<rparr>)))"

definition db_code_by_hash :: "b256 \<Rightarrow> ('tr, bytes) witness_eff" where
  "db_code_by_hash code_hash db = (ok_or (wd_code_by_hash db code_hash) (MissingCode code_hash), db)"

definition entry_insert ::
  "address \<Rightarrow> u256 \<Rightarrow> u256 \<Rightarrow> (address \<rightharpoonup> (u256 \<rightharpoonup> u256)) \<Rightarrow> address \<rightharpoonup> (u256 \<rightharpoonup> u256)" where
  "entry_insert a slot value m =
     m(a \<mapsto> (case m a of None \<Rightarrow> Map.empty | Some slots \<Rightarrow> slots)(slot \<mapsto> value))"

definition cached_slot :: "(address \<rightharpoonup> (u256 \<rightharpoonup> u256)) \<Rightarrow> address \<Rightarrow> u256 \<Rightarrow> u256 option" where
  "cached_slot m a slot = Option.bind (m a) (\<lambda>slots. slots slot)"

definition db_storage :: "('tr, 'st, 'mp) sparse_ops \<Rightarrow> address \<Rightarrow> u256 \<Rightarrow> ('tr, u256) witness_eff" where
  "db_storage sp a slot db =
     (case cached_slot (wd_storage db) a slot of
        Some value \<Rightarrow> (Inr value, db)
      | None \<Rightarrow>
          (case trie_storage sp (wd_state db) a slot of
             Inl e \<Rightarrow> (Inl (Mpt e), db)
           | Inr value \<Rightarrow> (Inr value, db\<lparr>wd_storage := entry_insert a slot value (wd_storage db)\<rparr>)))"

text \<open>The upstream constants of EIP-2935.\<close>

record history_config =
  hc_HISTORY_SERVE_WINDOW :: u64
  hc_HISTORY_STORAGE_ADDRESS :: address

definition db_block_hash ::
  "('tr, 'st, 'mp) sparse_ops \<Rightarrow> history_config \<Rightarrow> u64 \<Rightarrow> ('tr, b256) witness_eff" where
  "db_block_hash sp hc number =
     db_storage sp (hc_HISTORY_STORAGE_ADDRESS hc) (ucast (number mod hc_HISTORY_SERVE_WINDOW hc))"

definition cache_account :: "address \<times> BundleAccount \<Rightarrow> 'tr WitnessDatabase \<Rightarrow> 'tr WitnessDatabase" where
  "cache_account = (\<lambda>(a, account) db.
     let accounts = (wd_accounts db)(a \<mapsto> ba_info account);
         cleared = (if ba_storage_known account then (wd_storage db)(a := None) else wd_storage db);
         opened = (case cleared a of None \<Rightarrow> cleared(a \<mapsto> Map.empty) | Some _ \<Rightarrow> cleared);
         storage = fold (\<lambda>(slot, value). entry_insert a slot value) (ba_storage account) opened
     in db\<lparr>wd_accounts := accounts, wd_storage := storage\<rparr>)"

definition db_state_root ::
  "('tr, 'st, 'mp) sparse_ops \<Rightarrow> BundleState \<Rightarrow> ('tr WitnessDatabase, StatelessSparseTrieError, b256) eff" where
  "db_state_root sp bundle_state db =
     (case calculate_state_root sp (sp_from_bundle_state sp bundle_state) (wd_state db) of
        Inl e \<Rightarrow> (Inl e, db)
      | Inr (state_root, state) \<Rightarrow>
          (Inr state_root, fold cache_account bundle_state (db\<lparr>wd_state := state\<rparr>)))"

section \<open>The Tempo database\<close>

record MissingTempoStorageRead =
  ms_account :: address
  ms_slot :: b256
  ms_block_number :: u64

record TempoStateWitness =
  tw_initial_tempo_header_rlp :: bytes
  tw_node_pool :: "bytes list"

text \<open>The cell for the first missing read, shared by all clones, is passed separately.\<close>

record 'tr TempoWitnessDatabase =
  td_state :: "'tr option"
  td_tempo_block_hash :: b256
  td_tempo_block_number :: u64
  td_node_pool :: "bytes list"

definition checkpoint_state ::
  "('tr, 'st, 'mp) sparse_ops \<Rightarrow> 'w zone_env \<Rightarrow> bytes \<Rightarrow> bytes list
   \<Rightarrow> state_error + 'tr option \<times> b256 \<times> u64" where
  "checkpoint_state sp env header_rlp node_pool =
     rbind (ok_or (decode_exact env header_rlp) (WitnessDatabaseErr InvalidTempoHeader)) (\<lambda>header.
     rbind (case trie_new sp (th_state_root header) node_pool of
              Inr state \<Rightarrow> Inr (Some state)
            | Inl (MissingStateRootNode _) \<Rightarrow> Inr None
            | Inl error \<Rightarrow> Inl (MptValidation error)) (\<lambda>state.
     Inr (state, ze_keccak env header_rlp, th_number header)))"

definition from_tempo_state_witness ::
  "('tr, 'st, 'mp) sparse_ops \<Rightarrow> 'w zone_env \<Rightarrow> TempoStateWitness \<Rightarrow> state_error + 'tr TempoWitnessDatabase" where
  "from_tempo_state_witness sp env witness =
     rbind (checkpoint_state sp env (tw_initial_tempo_header_rlp witness) (tw_node_pool witness))
       (\<lambda>(state, hash, number).
     Inr \<lparr>td_state = state, td_tempo_block_hash = hash, td_tempo_block_number = number,
          td_node_pool = tw_node_pool witness\<rparr>)"

definition with_imported_checkpoint ::
  "('tr, 'st, 'mp) sparse_ops \<Rightarrow> 'w zone_env \<Rightarrow> bytes \<Rightarrow> 'tr TempoWitnessDatabase
   \<Rightarrow> state_error + 'tr TempoWitnessDatabase" where
  "with_imported_checkpoint sp env header_rlp td =
     rbind (checkpoint_state sp env header_rlp (td_node_pool td)) (\<lambda>(state, hash, number).
     Inr (td\<lparr>td_state := state, td_tempo_block_hash := hash, td_tempo_block_number := number\<rparr>))"

definition td_checkpoint :: "'tr TempoWitnessDatabase \<Rightarrow> u64 \<times> b256" where
  "td_checkpoint td = (td_tempo_block_number td, td_tempo_block_hash td)"

definition record_missing_read ::
  "address \<Rightarrow> b256 \<Rightarrow> u64 \<Rightarrow> MissingTempoStorageRead option \<Rightarrow> MissingTempoStorageRead option" where
  "record_missing_read account slot block_number missing =
     (case missing of
        Some _ \<Rightarrow> missing
      | None \<Rightarrow> Some \<lparr>ms_account = account, ms_slot = slot, ms_block_number = block_number\<rparr>)"

text \<open>A formatted reason keeps its fixed prefix.\<close>

definition read_tempo_storage ::
  "('tr, 'st, 'mp) sparse_ops \<Rightarrow> 'tr TempoWitnessDatabase \<Rightarrow> address \<Rightarrow> b256 \<Rightarrow> u64
   \<Rightarrow> (MissingTempoStorageRead option, L1StateError, b256) eff" where
  "read_tempo_storage sp td account slot at_block missing =
     (if at_block \<noteq> td_tempo_block_number td
      then (Inl (StorageUnavailable account slot at_block
              ''witness has no root for the requested checkpoint''), missing)
      else case td_state td of
        None \<Rightarrow>
          (Inl (StorageUnavailable account slot at_block
             ''witness does not include the checkpoint state root''),
           record_missing_read account slot at_block missing)
      | Some state \<Rightarrow>
          (case trie_storage sp state account slot of
             Inr value \<Rightarrow> (Inr value, missing)
           | Inl (IncompleteAccountProof _) \<Rightarrow>
               (Inl (StorageUnavailable account slot at_block ''incomplete Tempo witness''),
                record_missing_read account slot at_block missing)
           | Inl (IncompleteStorageProof _ _) \<Rightarrow>
               (Inl (StorageUnavailable account slot at_block ''incomplete Tempo witness''),
                record_missing_read account slot at_block missing)
           | Inl _ \<Rightarrow>
               (Inl (StorageUnavailable account slot at_block ''invalid Tempo witness''), missing)))"

section \<open>Laws of the upstream trie\<close>

text \<open>
  What is relied on of the sparse trie, for the leaves \<open>leaf\<close> of a storage trie: a read returns the
  leaf of the account's storage trie, an update that leaves nothing over writes or removes exactly
  the given leaves, computing roots and changing accounts keeps storage leaves, and the RLP of a
  number decodes to it. Hashing a bundle keeps every storage change under its hashed key.
\<close>

definition sparse_laws ::
  "('tr, 'st, 'mp) sparse_ops \<Rightarrow> ('st \<Rightarrow> b256 \<Rightarrow> bytes option) \<Rightarrow> bool" where
  "sparse_laws sp leaf \<longleftrightarrow>
     (\<forall>tr ha hs v. sp_storage_slot_value sp tr ha hs = Returned v \<longrightarrow>
        v = Option.bind (sp_storage_trie sp tr ha) (\<lambda>st. leaf st hs)) \<and>
     (\<forall>ha tr. sp_storage_trie sp (sp_take_storage_trie sp ha tr) = (sp_storage_trie sp tr)(ha := None)) \<and>
     (\<forall>ha st tr. sp_storage_trie sp (sp_insert_storage_trie sp ha st tr) = (sp_storage_trie sp tr)(ha \<mapsto> st)) \<and>
     (\<forall>hs. leaf (sp_revealed_empty sp) hs = None) \<and>
     (\<forall>ups st st' hs. sp_update_storage_leaves sp ups st = Returned ([], st') \<longrightarrow>
        leaf st' hs = (case map_of ups hs of None \<Rightarrow> leaf st hs | Some v \<Rightarrow> if v = [] then None else Some v)) \<and>
     (\<forall>st r st'. sp_storage_root sp st = Returned (r, st') \<longrightarrow> leaf st' = leaf st) \<and>
     (\<forall>ups tr rest tr'. sp_update_account_leaves sp ups tr = Returned (rest, tr') \<longrightarrow>
        sp_storage_trie sp tr' = sp_storage_trie sp tr) \<and>
     (\<forall>tr r tr'. sp_root sp tr = Returned (r, tr') \<longrightarrow> sp_storage_trie sp tr' = sp_storage_trie sp tr) \<and>
     (\<forall>v. sp_encode_u256 sp v \<noteq> [] \<and> sp_decode_u256 sp (sp_encode_u256 sp v) = Some v)"

definition bundle_ok :: "BundleState \<Rightarrow> bool" where
  "bundle_ok b \<longleftrightarrow> distinct (map fst b) \<and> list_all (\<lambda>(_, account). distinct (map fst (ba_storage account))) b"

definition bundle_slot :: "BundleState \<Rightarrow> address \<Rightarrow> u256 \<Rightarrow> u256 option" where
  "bundle_slot b a slot = Option.bind (map_of b a) (\<lambda>account. map_of (ba_storage account) slot)"

definition hashed_value :: "(b256 \<times> (b256 \<times> u256) list) list \<Rightarrow> b256 \<Rightarrow> b256 \<Rightarrow> u256 option" where
  "hashed_value storages ha hs = Option.bind (map_of storages ha) (\<lambda>storage. map_of storage hs)"

definition hashing_law :: "('tr, 'st, 'mp) sparse_ops \<Rightarrow> bool" where
  "hashing_law sp \<longleftrightarrow> (\<forall>b. bundle_ok b \<longrightarrow>
     distinct (map fst (hp_storages (sp_from_bundle_state sp b))) \<and>
     (\<forall>a slot. hashed_value (hp_storages (sp_from_bundle_state sp b)) (hashed_address sp a) (hashed_slot sp slot)
        = bundle_slot b a slot))"

lemma guarded_Inr [simp]: "guarded e r = Inr x \<longleftrightarrow> r = Returned x"
  by (cases r) auto

section \<open>Storage values\<close>

definition storage_leaf ::
  "('tr, 'st, 'mp) sparse_ops \<Rightarrow> ('st \<Rightarrow> b256 \<Rightarrow> bytes option) \<Rightarrow> 'tr \<Rightarrow> b256 \<Rightarrow> b256 \<Rightarrow> bytes option" where
  "storage_leaf sp leaf tr ha hs = Option.bind (sp_storage_trie sp tr ha) (\<lambda>st. leaf st hs)"

text \<open>The value the trie commits to in a slot: zero where there is no leaf.\<close>

definition stored ::
  "('tr, 'st, 'mp) sparse_ops \<Rightarrow> ('st \<Rightarrow> b256 \<Rightarrow> bytes option) \<Rightarrow> 'tr \<Rightarrow> address \<Rightarrow> u256 \<Rightarrow> u256" where
  "stored sp leaf tr a slot =
     (case Option.bind (storage_leaf sp leaf tr (hashed_address sp a) (hashed_slot sp slot)) (sp_decode_u256 sp) of
        None \<Rightarrow> 0 | Some v \<Rightarrow> v)"

lemma trie_storage_stored:
  assumes laws: "sparse_laws sp leaf" and read: "trie_storage sp tr a slot = Inr v"
  shows "v = stored sp leaf tr a slot"
proof -
  from read obtain w where
    val: "sp_storage_slot_value sp tr (hashed_address sp a) (hashed_slot sp slot) = Returned w"
    by (auto simp: trie_storage_def)
  have leaf: "w = storage_leaf sp leaf tr (hashed_address sp a) (hashed_slot sp slot)"
    using laws val by (simp add: sparse_laws_def storage_leaf_def)
  show ?thesis
    using read val leaf by (auto simp: trie_storage_def stored_def split: option.splits if_splits)
qed

lemma update_storage_trie_leaf:
  assumes laws: "sparse_laws sp leaf"
    and step: "update_storage_trie sp (ha, storage) (tr, roots) = Inr (tr', roots')"
  shows "storage_leaf sp leaf tr' ha' hs =
    (if ha' = ha then (case map_of storage hs of None \<Rightarrow> storage_leaf sp leaf tr ha hs
        | Some v \<Rightarrow> if v = 0 then None else Some (sp_encode_u256 sp v))
     else storage_leaf sp leaf tr ha' hs)"
proof -
  define st where "st = (case sp_storage_trie sp tr ha of None \<Rightarrow> sp_revealed_empty sp | Some t \<Rightarrow> t)"
  from step obtain st1 st2 root where
    u: "sp_update_storage_leaves sp (map (storage_leaf_update sp) storage) st = Returned ([], st1)"
    and r: "sp_storage_root sp st1 = Returned (root, st2)"
    and tr': "tr' = sp_insert_storage_trie sp ha st2 (sp_take_storage_trie sp ha tr)"
    by (auto simp: update_storage_trie_def Let_def st_def)
  have mo: "map_of (map (storage_leaf_update sp) storage) hs =
      map_option (\<lambda>v. if v = 0 then [] else sp_encode_u256 sp v) (map_of storage hs)"
    by (simp add: storage_leaf_update_def map_of_map)
  have old: "leaf st hs = storage_leaf sp leaf tr ha hs"
    using laws by (auto simp: st_def storage_leaf_def sparse_laws_def split: option.splits)
  have enc: "sp_encode_u256 sp v \<noteq> []" for v using laws by (simp add: sparse_laws_def)
  have "leaf st2 hs = (case map_of storage hs of None \<Rightarrow> storage_leaf sp leaf tr ha hs
        | Some v \<Rightarrow> if v = 0 then None else Some (sp_encode_u256 sp v))"
    using laws u r mo old enc unfolding sparse_laws_def by (auto split: option.splits)
  moreover have "sp_storage_trie sp tr' = (sp_storage_trie sp tr)(ha \<mapsto> st2)"
    using laws tr' by (simp add: sparse_laws_def)
  ultimately show ?thesis by (simp add: storage_leaf_def)
qed

definition written_leaf :: "('tr, 'st, 'mp) sparse_ops \<Rightarrow> u256 option \<Rightarrow> bytes option \<Rightarrow> bytes option" where
  "written_leaf sp change old =
     (case change of None \<Rightarrow> old | Some v \<Rightarrow> if v = 0 then None else Some (sp_encode_u256 sp v))"

lemma update_storage_tries_leaf:
  assumes laws: "sparse_laws sp leaf"
    and "try_fold (update_storage_trie sp) storages (tr, roots) = Inr (tr', roots')"
    and "distinct (map fst storages)"
  shows "storage_leaf sp leaf tr' ha hs = written_leaf sp (hashed_value storages ha hs) (storage_leaf sp leaf tr ha hs)"
  using assms(2,3)
proof (induction storages arbitrary: tr roots)
  case Nil
  then show ?case by (simp add: written_leaf_def hashed_value_def)
next
  case (Cons s storages)
  obtain ka storage where s: "s = (ka, storage)" by (cases s)
  from Cons.prems obtain tr1 roots1 where
    step: "update_storage_trie sp (ka, storage) (tr, roots) = Inr (tr1, roots1)"
    and rest: "try_fold (update_storage_trie sp) storages (tr1, roots1) = Inr (tr', roots')"
    by (auto simp: s)
  have absent: "map_of storages ka = None" using Cons.prems(2) s by (auto simp: map_of_eq_None_iff)
  show ?case
    using Cons.IH [OF rest] Cons.prems(2) update_storage_trie_leaf [OF laws step, of ha hs] absent
    by (auto simp: s written_leaf_def hashed_value_def)
qed

text \<open>What a block's changes do to the committed values.\<close>

definition override_storage ::
  "BundleState \<Rightarrow> (address \<Rightarrow> u256 \<Rightarrow> u256) \<Rightarrow> address \<Rightarrow> u256 \<Rightarrow> u256" where
  "override_storage b \<sigma> = (\<lambda>a slot. case bundle_slot b a slot of None \<Rightarrow> \<sigma> a slot | Some v \<Rightarrow> v)"

lemma calculate_state_root_stored:
  assumes laws: "sparse_laws sp leaf" and hl: "hashing_law sp" and b: "bundle_ok b"
    and calc: "calculate_state_root sp (sp_from_bundle_state sp b) tr = Inr (root, tr')"
  shows "stored sp leaf tr' = override_storage b (stored sp leaf tr)"
proof (intro ext)
  fix a slot
  let ?storages = "hp_storages (sp_from_bundle_state sp b)"
  from calc obtain tr1 roots where
    fld: "try_fold (update_storage_trie sp) (sort_key fst ?storages) (tr, []) = Inr (tr1, roots)"
    and same: "sp_storage_trie sp tr' = sp_storage_trie sp tr1"
    using laws by (auto simp: calculate_state_root_def sparse_laws_def split: prod.splits)
  have d: "distinct (map fst ?storages)" using hl b by (auto simp: hashing_law_def)
  have d': "distinct (map fst (sort_key fst ?storages))"
    using d by (simp add: distinct_map)
  have "map_of (sort_key fst ?storages) = map_of ?storages"
    using d d' by (intro map_of_inject_set [THEN iffD2]) auto
  then have hv: "hashed_value (sort_key fst ?storages) (hashed_address sp a) (hashed_slot sp slot) = bundle_slot b a slot"
    using hl b by (simp add: hashing_law_def hashed_value_def)
  have "storage_leaf sp leaf tr' (hashed_address sp a) (hashed_slot sp slot) =
      written_leaf sp (bundle_slot b a slot) (storage_leaf sp leaf tr (hashed_address sp a) (hashed_slot sp slot))"
    using update_storage_tries_leaf [OF laws fld d', of "hashed_address sp a" "hashed_slot sp slot"] hv same
    by (simp add: storage_leaf_def)
  moreover have "sp_decode_u256 sp (sp_encode_u256 sp v) = Some v" for v
    using laws by (simp add: sparse_laws_def)
  ultimately show "stored sp leaf tr' a slot = override_storage b (stored sp leaf tr) a slot"
    by (auto simp: stored_def override_storage_def written_leaf_def split: option.splits)
qed

section \<open>The caches\<close>

text \<open>A cached slot holds the value the trie commits to.\<close>

definition caches_coherent ::
  "('tr, 'st, 'mp) sparse_ops \<Rightarrow> ('st \<Rightarrow> b256 \<Rightarrow> bytes option) \<Rightarrow> 'tr WitnessDatabase \<Rightarrow> bool" where
  "caches_coherent sp leaf db \<longleftrightarrow>
     (\<forall>a slot v. cached_slot (wd_storage db) a slot = Some v \<longrightarrow> v = stored sp leaf (wd_state db) a slot)"

lemma cached_entry_insert:
  "cached_slot (entry_insert a slot v m) a' slot' =
     (if a' = a \<and> slot' = slot then Some v else cached_slot m a' slot')"
  by (auto simp: cached_slot_def entry_insert_def split: option.splits)

lemma db_storage_coherent:
  assumes "sparse_laws sp leaf" and "caches_coherent sp leaf db" and "db_storage sp a slot db = (r, db')"
  shows "caches_coherent sp leaf db' \<and> wd_state db' = wd_state db \<and>
    (\<forall>v. r = Inr v \<longrightarrow> v = stored sp leaf (wd_state db) a slot)"
proof -
  have tr: "trie_storage sp (wd_state db) a slot = Inr v \<Longrightarrow> v = stored sp leaf (wd_state db) a slot" for v
    by (rule trie_storage_stored [OF assms(1)])
  show ?thesis
    using assms(2,3) tr
    by (auto simp: db_storage_def caches_coherent_def cached_entry_insert split: option.splits sum.splits if_splits)
qed

lemma cached_fold_entries:
  assumes "distinct (map fst slots)"
  shows "cached_slot (fold (\<lambda>(slot, v). entry_insert a slot v) slots m) a' slot' =
    (if a' = a then (case map_of slots slot' of None \<Rightarrow> cached_slot m a' slot' | Some v \<Rightarrow> Some v)
     else cached_slot m a' slot')"
  using assms
proof (induction slots arbitrary: m)
  case (Cons e slots)
  obtain s v where e: "e = (s, v)" by (cases e)
  have "map_of slots s = None" using Cons.prems e by (auto simp: map_of_eq_None_iff)
  then show ?case using Cons e by (auto simp: cached_entry_insert split: option.splits)
qed simp

lemma cache_account_slots:
  assumes "distinct (map fst (ba_storage account))"
  shows "wd_state (cache_account (a, account) db) = wd_state db"
    and "cached_slot (wd_storage (cache_account (a, account) db)) a' slot = Some v \<Longrightarrow>
      (if a' = a then map_of (ba_storage account) slot = Some v \<or>
          map_of (ba_storage account) slot = None \<and> cached_slot (wd_storage db) a slot = Some v
       else cached_slot (wd_storage db) a' slot = Some v)"
  using assms
  by (auto simp: cache_account_def Let_def cached_fold_entries)
    (auto simp: cached_slot_def split: option.splits if_splits)

lemma cache_accounts_slots:
  assumes "bundle_ok b" and "cached_slot (wd_storage (fold cache_account b db)) a slot = Some v"
  shows "bundle_slot b a slot = Some v \<or> bundle_slot b a slot = None \<and> cached_slot (wd_storage db) a slot = Some v"
  using assms
proof (induction b arbitrary: db)
  case Nil
  then show ?case by (simp add: bundle_slot_def)
next
  case (Cons e b)
  obtain a0 account where e: "e = (a0, account)" by (cases e)
  have ok: "bundle_ok b" "distinct (map fst (ba_storage account))" and absent: "map_of b a0 = None"
    using Cons.prems(1) by (auto simp: bundle_ok_def e map_of_eq_None_iff)
  from Cons.IH [OF ok(1), of "cache_account (a0, account) db"] Cons.prems(2)
  have "bundle_slot b a slot = Some v \<or>
      bundle_slot b a slot = None \<and> cached_slot (wd_storage (cache_account (a0, account) db)) a slot = Some v"
    by (simp add: e)
  then show ?case
    using cache_account_slots(2) [OF ok(2), of a0 db a slot v] absent
    by (auto simp: bundle_slot_def e split: if_splits)
qed

lemma cache_accounts_state: "bundle_ok b \<Longrightarrow> wd_state (fold cache_account b db) = wd_state db"
  by (induction b arbitrary: db) (auto simp: bundle_ok_def cache_account_def Let_def)

lemma db_state_root_coherent:
  assumes laws: "sparse_laws sp leaf" "hashing_law sp" and coh: "caches_coherent sp leaf db"
    and b: "bundle_ok b" and run: "db_state_root sp b db = (r, db')"
  shows "caches_coherent sp leaf db' \<and> stored sp leaf (wd_state db') =
    (case r of Inl _ \<Rightarrow> stored sp leaf (wd_state db) | Inr _ \<Rightarrow> override_storage b (stored sp leaf (wd_state db)))"
proof (cases "calculate_state_root sp (sp_from_bundle_state sp b) (wd_state db)")
  case (Inl e)
  then show ?thesis using run coh by (auto simp: db_state_root_def)
next
  case (Inr p)
  obtain root tr where p: "p = (root, tr)" by (cases p)
  have db': "db' = fold cache_account b (db\<lparr>wd_state := tr\<rparr>)" "r = Inr root"
    using run Inr p by (auto simp: db_state_root_def)
  have st: "stored sp leaf tr = override_storage b (stored sp leaf (wd_state db))"
    using calculate_state_root_stored [OF laws b] Inr p by blast
  have "caches_coherent sp leaf db'"
    unfolding caches_coherent_def
  proof (intro allI impI)
    fix a slot v
    assume "cached_slot (wd_storage db') a slot = Some v"
    then show "v = stored sp leaf (wd_state db') a slot"
      using cache_accounts_slots [OF b, of "db\<lparr>wd_state := tr\<rparr>" a slot v] coh st b
      by (auto simp: db' cache_accounts_state caches_coherent_def override_storage_def)
  qed
  then show ?thesis using st b by (simp add: db' cache_accounts_state)
qed

section \<open>The database refines the committed storage\<close>

datatype db_op =
    ReadAccount address
  | ReadCode b256
  | ReadStorage address u256
  | ReadBlockHash u64
  | CommitBlock BundleState

fun db_exec ::
  "('tr, 'st, 'mp) sparse_ops \<Rightarrow> history_config \<Rightarrow> db_op \<Rightarrow> 'tr WitnessDatabase \<Rightarrow> 'tr WitnessDatabase" where
  "db_exec sp hc (ReadAccount a) db = snd (db_basic sp a db)"
| "db_exec sp hc (ReadCode h) db = snd (db_code_by_hash h db)"
| "db_exec sp hc (ReadStorage a slot) db = snd (db_storage sp a slot db)"
| "db_exec sp hc (ReadBlockHash n) db = snd (db_block_hash sp hc n db)"
| "db_exec sp hc (CommitBlock b) db = snd (db_state_root sp b db)"

text \<open>The blocks of a run whose state root was computed.\<close>

fun committed_blocks ::
  "('tr, 'st, 'mp) sparse_ops \<Rightarrow> history_config \<Rightarrow> db_op list \<Rightarrow> 'tr WitnessDatabase \<Rightarrow> BundleState list" where
  "committed_blocks sp hc [] db = []"
| "committed_blocks sp hc (op # ops) db =
     (case op of
        CommitBlock b \<Rightarrow> (case fst (db_state_root sp b db) of Inl _ \<Rightarrow> [] | Inr _ \<Rightarrow> [b])
      | _ \<Rightarrow> []) @ committed_blocks sp hc ops (db_exec sp hc op db)"

fun op_ok :: "db_op \<Rightarrow> bool" where
  "op_ok (CommitBlock b) = bundle_ok b"
| "op_ok _ = True"

lemma db_basic_storage [simp]:
  "wd_storage (snd (db_basic sp a db)) = wd_storage db" "wd_state (snd (db_basic sp a db)) = wd_state db"
  by (auto simp: db_basic_def Let_def split: option.splits sum.splits)

lemma db_exec_step:
  assumes "sparse_laws sp leaf" "hashing_law sp" "caches_coherent sp leaf db" "op_ok op"
  shows "caches_coherent sp leaf (db_exec sp hc op db) \<and>
    stored sp leaf (wd_state (db_exec sp hc op db)) =
      fold override_storage (committed_blocks sp hc [op] db) (stored sp leaf (wd_state db))"
proof (cases op)
  case (CommitBlock b)
  obtain r db' where run: "db_state_root sp b db = (r, db')" by (cases "db_state_root sp b db")
  show ?thesis
    using db_state_root_coherent [OF assms(1-3) _ run] assms(4) CommitBlock run by (auto split: sum.splits)
next
  case (ReadStorage a slot)
  obtain r db' where run: "db_storage sp a slot db = (r, db')" by (cases "db_storage sp a slot db")
  show ?thesis using db_storage_coherent [OF assms(1,3) run] ReadStorage run by simp
next
  case (ReadBlockHash n)
  let ?a = "hc_HISTORY_STORAGE_ADDRESS hc" and ?s = "ucast (n mod hc_HISTORY_SERVE_WINDOW hc)"
  obtain r db' where run: "db_storage sp ?a ?s db = (r, db')" by (cases "db_storage sp ?a ?s db")
  show ?thesis using db_storage_coherent [OF assms(1,3) run] ReadBlockHash run by (simp add: db_block_hash_def)
qed (use assms(3) in \<open>auto simp: caches_coherent_def db_code_by_hash_def\<close>)

lemma db_run:
  assumes "sparse_laws sp leaf" "hashing_law sp" "caches_coherent sp leaf db" "list_all op_ok ops"
  shows "caches_coherent sp leaf (fold (db_exec sp hc) ops db) \<and>
    stored sp leaf (wd_state (fold (db_exec sp hc) ops db)) =
      fold override_storage (committed_blocks sp hc ops db) (stored sp leaf (wd_state db))"
  using assms(3,4)
proof (induction ops arbitrary: db)
  case (Cons op ops)
  have step: "caches_coherent sp leaf (db_exec sp hc op db)"
    "stored sp leaf (wd_state (db_exec sp hc op db)) =
      fold override_storage (committed_blocks sp hc [op] db) (stored sp leaf (wd_state db))"
    using db_exec_step [OF assms(1,2) Cons.prems(1)] Cons.prems(2) by simp_all
  have "committed_blocks sp hc (op # ops) db =
      committed_blocks sp hc [op] db @ committed_blocks sp hc ops (db_exec sp hc op db)"
    by simp
  then show ?case
    using Cons.IH [OF step(1)] Cons.prems(2) step(2) by (simp del: committed_blocks.simps)
qed simp

lemma from_zone_state_witness_coherent:
  "from_zone_state_witness sp w root = Inr db \<Longrightarrow> caches_coherent sp leaf db"
  by (auto simp: from_zone_state_witness_def caches_coherent_def cached_slot_def map_err_def split: sum.splits)


section \<open>Witness\<close>

text \<open>
  A trie that is the map of its leaves: the account leaves, and the storage leaves per account. Keys
  are the numbers their bytes denote and leaves are 32-byte words.
\<close>

record leaf_trie =
  lt_accounts :: "b256 \<rightharpoonup> bytes"
  lt_storages :: "b256 \<rightharpoonup> (b256 \<rightharpoonup> bytes)"

fun write_leaves :: "(b256 \<times> bytes) list \<Rightarrow> (b256 \<rightharpoonup> bytes) \<Rightarrow> b256 \<rightharpoonup> bytes" where
  "write_leaves [] m = m"
| "write_leaves ((k, v) # ups) m = (write_leaves ups m)(k := if v = [] then None else Some v)"

definition leaf_ops :: "(leaf_trie, b256 \<rightharpoonup> bytes, unit) sparse_ops" where
  "leaf_ops =
     \<lparr>sp_keccak = from_be_bytes, sp_empty_root = 0,
      sp_new = \<lparr>lt_accounts = Map.empty, lt_storages = Map.empty\<rparr>, sp_set_revealed_empty = (\<lambda>tr. tr),
      sp_from_witness = (\<lambda>_ _. Failed), sp_reveal = (\<lambda>_ tr. Returned tr), sp_root = (\<lambda>tr. Returned (0, tr)),
      sp_account_value = (\<lambda>tr ha. Returned (lt_accounts tr ha)),
      sp_is_account_revealed = (\<lambda>_ _. Returned True),
      sp_storage_slot_value = (\<lambda>tr ha hs. Returned (Option.bind (lt_storages tr ha) (\<lambda>st. st hs))),
      sp_check_valid_storage_witness = (\<lambda>_ _ _. Returned True),
      sp_storage_trie = lt_storages,
      sp_take_storage_trie = (\<lambda>ha tr. tr\<lparr>lt_storages := (lt_storages tr)(ha := None)\<rparr>),
      sp_insert_storage_trie = (\<lambda>ha st tr. tr\<lparr>lt_storages := (lt_storages tr)(ha \<mapsto> st)\<rparr>),
      sp_revealed_empty = Map.empty,
      sp_update_storage_leaves = (\<lambda>ups st. Returned ([], write_leaves ups st)),
      sp_storage_root = (\<lambda>st. Returned (0, st)),
      sp_update_account_leaves = (\<lambda>ups tr. Returned ([], tr\<lparr>lt_accounts := write_leaves ups (lt_accounts tr)\<rparr>)),
      sp_decode_account = (\<lambda>_. Some \<lparr>ta_nonce = 0, ta_balance = 0, ta_storage_root = 0, ta_code_hash = 0\<rparr>),
      sp_encode_account = (\<lambda>_. [1]),
      sp_decode_u256 = (\<lambda>v. Some (from_be_bytes v)), sp_encode_u256 = to_be_bytes 32,
      sp_into_trie_account = (\<lambda>acc root. \<lparr>ta_nonce = acc_nonce acc, ta_balance = acc_balance acc,
        ta_storage_root = root, ta_code_hash = 0\<rparr>),
      sp_from_bundle_state = (\<lambda>b. \<lparr>hp_accounts = map (\<lambda>(a, account). (ucast a, map_option
           (\<lambda>info. \<lparr>acc_nonce = ai_nonce info, acc_balance = ai_balance info, acc_bytecode_hash = None\<rparr>)
           (ba_info account))) b,
         hp_storages = map (\<lambda>(a, account). (ucast a, ba_storage account)) b\<rparr>),
      sp_code_hash = from_be_bytes\<rparr>"

lemma write_leaves_at:
  "write_leaves ups m k = (case map_of ups k of None \<Rightarrow> m k | Some v \<Rightarrow> if v = [] then None else Some v)"
  by (induction ups m rule: write_leaves.induct) auto

lemma leaf_laws: "sparse_laws leaf_ops (\<lambda>st. st)"
  by (auto simp: sparse_laws_def leaf_ops_def write_leaves_at simp flip: length_0_conv)

lemma leaf_keys: "hashed_address leaf_ops a = ucast a" "hashed_slot leaf_ops s = s"
  by (simp_all add: hashed_address_def hashed_slot_def leaf_ops_def from_be_bytes_to_be_bytes
      take_bit_word_eq_self)

lemma ucast_address_eq: "(ucast (a :: address) :: b256) = ucast a' \<longleftrightarrow> a = a'"
proof -
  have "unat (ucast x :: b256) = unat x" for x :: address
    using unsigned_less [of x, where 'a = nat] by (simp add: unsigned_ucast_eq take_bit_nat_eq_self)
  then show ?thesis by (metis word_unat_eq_iff)
qed

lemma leaf_hashing: "hashing_law leaf_ops"
proof -
  have m: "map_of (map (\<lambda>(a, account). (ucast a :: b256, ba_storage account)) b) (ucast a) =
      map_option ba_storage (map_of b a)" for b :: BundleState and a
    by (induction b) (auto simp: ucast_address_eq)
  have d: "distinct (map fst b) \<Longrightarrow> distinct (map (fst \<circ> (\<lambda>(a, account). (ucast a :: b256, ba_storage account))) b)"
    for b :: BundleState
    by (induction b) (auto simp: ucast_address_eq image_iff)
  have s: "hp_storages (sp_from_bundle_state leaf_ops b) = map (\<lambda>(a, account). (ucast a, ba_storage account)) b"
    for b by (simp add: leaf_ops_def)
  show ?thesis
    unfolding hashing_law_def
  proof (intro allI impI conjI)
    fix b a slot
    assume "bundle_ok b"
    then show "distinct (map fst (hp_storages (sp_from_bundle_state leaf_ops b)))"
      using d by (simp add: s bundle_ok_def)
    show "hashed_value (hp_storages (sp_from_bundle_state leaf_ops b)) (hashed_address leaf_ops a)
        (hashed_slot leaf_ops slot) = bundle_slot b a slot"
      by (cases "map_of b a") (simp_all add: s m leaf_keys hashed_value_def bundle_slot_def)
  qed
qed

definition leaf_database :: "leaf_trie WitnessDatabase" where
  "leaf_database = \<lparr>wd_state = \<lparr>lt_accounts = Map.empty, lt_storages = Map.empty\<rparr>, wd_accounts = Map.empty,
     wd_storage = Map.empty, wd_code_by_hash = Map.empty\<rparr>"

definition sample_bundle :: "u256 \<Rightarrow> BundleState" where
  "sample_bundle v = [(7, \<lparr>ba_info = Some \<lparr>ai_balance = 1, ai_nonce = 2, ai_code_hash = 3, ai_code = None\<rparr>,
     ba_storage_known = False, ba_storage = [(5, v)]\<rparr>)]"

definition sample_db_ops :: "db_op list" where
  "sample_db_ops = [ReadStorage 7 5, CommitBlock (sample_bundle 11), ReadStorage 7 5, CommitBlock (sample_bundle 12)]"

definition sample_history :: history_config where
  "sample_history = \<lparr>hc_HISTORY_SERVE_WINDOW = 8191, hc_HISTORY_STORAGE_ADDRESS = 9\<rparr>"

lemma leaf_database_opens:
  "from_zone_state_witness leaf_ops \<lparr>zw_node_pool = [], zw_bytecodes = []\<rparr> 0 = Inr leaf_database"
  by (simp add: from_zone_state_witness_def trie_new_def leaf_ops_def leaf_database_def map_err_def)

lemma sample_read: "fst (db_storage leaf_ops 7 5 (fold (db_exec leaf_ops sample_history) sample_db_ops leaf_database)) = Inr 12"
  by code_simp

lemma sample_commits:
  "committed_blocks leaf_ops sample_history sample_db_ops leaf_database = [sample_bundle 11, sample_bundle 12]"
  by code_simp


end
