(* ===== verification/Spf_Execution.thy ===== *)
theory Spf_Execution
  imports Spf_Witness Zone_Inbox Block_Executor Chain_Ids
begin

text \<open>
  Replay of one zone block by the stateless state transition function (\<open>spf/src/types.rs\<close> and
  \<open>spf/src/execution/evm.rs\<close>): the witness types, the decoding of user transactions, the system
  transactions around them, and the block executor they run in. The EVM, its state, the transaction
  codec and the upstream executor are a record of parameters; the executor's ordering rules are those
  of the block executor theory.
\<close>

section \<open>Witness types\<close>

record PublicInputs =
  pi_parent_chain_id :: u64
  pi_zone_id :: u32
  pi_tempo_block_number :: u64
  pi_anchor_block_number :: u64
  pi_anchor_block_hash :: b256
  pi_expected_withdrawal_batch_index :: u64

datatype SpfImport =
    SpfFull bytes "QueuedDeposit list" "DecryptionData list" "EnabledToken list"
  | SpfCheckpointOnly "bytes list"

fun headers_rlp :: "SpfImport \<Rightarrow> bytes list" where
  "headers_rlp (SpfFull header_rlp _ _ _) = [header_rlp]"
| "headers_rlp (SpfCheckpointOnly headers) = headers"

fun import_deposits :: "SpfImport \<Rightarrow> QueuedDeposit list" where
  "import_deposits (SpfFull _ deposits _ _) = deposits"
| "import_deposits (SpfCheckpointOnly _) = []"

record ZoneBlock =
  zb_number :: u64
  zb_parent_hash :: b256
  zb_timestamp :: u64
  zb_timestamp_millis_part :: u64
  zb_beneficiary :: address
  zb_tempo_import :: SpfImport
  zb_finalize_withdrawal_batch_count :: "u256 option"
  zb_finalize_withdrawal_batch_encrypted_senders :: "bytes list"
  zb_transactions :: "bytes list"

text \<open>A zone header: the Tempo header with the fields that seed the next block.\<close>

record ZoneHeader = TempoHeader +
  zh_base_fee_per_gas :: "u64 option"
  zh_gas_limit :: u64

record BatchWitness =
  bw_public_inputs :: PublicInputs
  bw_parent_header :: ZoneHeader
  bw_zone_blocks :: "ZoneBlock list"
  bw_zone_state_witness :: ZoneStateWitness
  bw_tempo_state_witness :: TempoStateWitness
  bw_tempo_ancestry_headers :: "bytes list"

record BlockTransition =
  bt_prevBlockHash :: b256
  bt_nextBlockHash :: b256

record DepositQueueTransition =
  dt_prevProcessedHash :: b256
  dt_nextProcessedHash :: b256
  dt_prevDepositNumber :: u64
  dt_nextDepositNumber :: u64

record TokenEnablementTransition =
  tt_prevProcessedTokenCount :: u64
  tt_nextProcessedTokenCount :: u64

record LastBatchCommitment =
  lc_withdrawal_batch_index :: u64

record BatchOutput =
  bo_next_zone_height :: u64
  bo_block_transition :: BlockTransition
  bo_deposit_queue_transition :: DepositQueueTransition
  bo_token_enablement_transition :: TokenEnablementTransition
  bo_withdrawal_queue_hash :: b256
  bo_last_batch_commitment :: LastBatchCommitment

section \<open>Errors\<close>

text \<open>\<open>UintConversionPanic\<close> is the panic of the conversion of a storage word to \<open>u64\<close>.\<close>

datatype spf_error =
    ZoneChainId ZoneChainIdError
  | StateWitnessError state_error
  | MissingTempoStorage address b256 u64
  | EmptyZoneBatch
  | InvalidCheckpointOnlyBlock nat
  | MissingTempoHeaders nat
  | PortalWorkCapacityExceeded nat
  | InvalidBatchShape
  | ChainIdMismatch u64 u64
  | InitialTempoCheckpointMismatch u64 b256 u64 b256
  | BlockParentHashMismatch nat u64 b256 b256
  | BlockNumberMismatch u64 u64
  | BlockNumberOverflow
  | InvalidTimestampMillisPart nat u64
  | BlockTimestampOverflow nat
  | ParentTimestampOverflow nat
  | BlockTimestampRegression u64 u64
  | TempoInputsWithoutHeader nat
  | FinalizationEncryptedSendersWithoutCount nat
  | FinalizationEncryptedSenderCountMismatch nat u256 nat
  | TransactionDecoding nat nat
  | SystemTransactionInUserList nat nat
  | BlockPreExecution nat
  | MissingParentBaseFee nat
  | AdvanceTempoExecution nat
  | AdvanceTempoRevert nat string bytes
  | FinalizeWithdrawalBatchExecution nat
  | TransactionSignature nat nat
  | TransactionExecution nat nat
  | BlockPostExecution nat
  | BlockAssembly nat
  | EvmEnvironment
  | UnexpectedBalancedAccess address u256
  | FinalTempoBlockNumberMismatch u64 u64
  | AnchorBlockNumberBeforeTempo u64 u64
  | UnexpectedTempoAncestryHeaders
  | TempoAncestryLengthMismatch nat nat
  | TempoAncestryHeaderDecoding nat
  | TempoAncestryHeaderNumberMismatch nat u64 u64
  | TempoAncestryBlockNumberOverflow
  | TempoAncestryParentHashMismatch nat b256 b256
  | TempoAnchorHashMismatch b256 b256
  | WithdrawalBatchIndexMismatch u64 u64
  | UintConversionPanic

section \<open>Upstream parameters\<close>

record NextBlockEnvAttributes =
  na_timestamp :: u64
  na_suggested_fee_recipient :: address
  na_prev_randao :: b256
  na_gas_limit :: u64
  na_parent_beacon_block_root :: "b256 option"
  na_withdrawals :: "unit list option"
  na_extra_data :: bytes
  na_general_gas_limit :: u64
  na_shared_gas_limit :: u64
  na_timestamp_millis_part :: u64

record BlockExecutionCtx =
  xc_parent_hash :: b256
  xc_parent_beacon_block_root :: "b256 option"
  xc_withdrawals :: "unit list option"
  xc_extra_data :: bytes
  xc_general_gas_limit :: u64
  xc_shared_gas_limit :: u64

datatype read_error = DatabaseError WitnessDatabaseError | BalError

text \<open>
  \<open>'s\<close> is the REVM state over the witness database, \<open>'x\<close> the state of the upstream executor, \<open>'n\<close> a
  transaction envelope, \<open>'r\<close> an execution result, \<open>'e\<close> an execution error, \<open>'v\<close> an EVM environment
  and \<open>'tr\<close> the witness trie. A recovered transaction is an envelope with its signer.
\<close>

record ('s, 'x, 'n, 'r, 'e, 'v, 'tr) replay_ops =
  rp_open :: "'tr WitnessDatabase \<Rightarrow> 's"
  rp_storage :: "address \<Rightarrow> u256 \<Rightarrow> ('s, read_error, u256) eff"
  rp_database :: "'s \<Rightarrow> 'tr WitnessDatabase"
  rp_put_database :: "'tr WitnessDatabase \<Rightarrow> 's \<Rightarrow> 's"
  rp_take_bundle :: "'s \<Rightarrow> BundleState \<times> 's"
  rp_block_hash :: "'s \<Rightarrow> u64 \<Rightarrow> b256 option"
  rp_insert_block_hash :: "u64 \<Rightarrow> b256 \<Rightarrow> 's \<Rightarrow> 's"
  rp_merge_transitions :: "'s \<Rightarrow> 's"
  rp_hash :: "ZoneHeader \<Rightarrow> b256"
  rp_is_cancun :: "u64 \<Rightarrow> bool"
  rp_is_shanghai :: "u64 \<Rightarrow> bool"
  rp_next_evm_env :: "ZoneHeader \<Rightarrow> NextBlockEnvAttributes \<Rightarrow> 'v option"
  rp_env_chain_id :: "'v \<Rightarrow> u64"
  rp_create_executor :: "'v \<Rightarrow> 'tr TempoWitnessDatabase \<Rightarrow> BlockExecutionCtx
     \<Rightarrow> MissingTempoStorageRead option \<Rightarrow> 's \<Rightarrow> 'x"
  rp_inner :: "('x, 'n \<times> address, 'r, 'e) inner_executor"
  rp_tx_ops :: "('n \<times> address) tx_ops"
  rp_into_state :: "'x \<Rightarrow> 's"
  rp_missing_read :: "'x \<Rightarrow> MissingTempoStorageRead option"
  rp_is_success :: "'r \<Rightarrow> bool"
  rp_revert_output :: "'r \<Rightarrow> bytes option"
  rp_database_error :: "'e \<Rightarrow> WitnessDatabaseError option"
  rp_decode_inbox_error :: "bytes \<Rightarrow> string option"
  rp_decode_tempo_state_error :: "bytes \<Rightarrow> string option"
  rp_decode_2718_exact :: "bytes \<Rightarrow> 'n option"
  rp_is_system_tx :: "'n \<Rightarrow> bool"
  rp_recover :: "'n \<Rightarrow> address option"
  rp_system_tx_sender :: address
  rp_system_transaction :: "u64 \<Rightarrow> address \<Rightarrow> bytes \<Rightarrow> 'n"
  rp_encode_advance_tempo :: "advanceTempoCall \<Rightarrow> bytes"
  rp_encode_advance_tempo_headers :: "bytes list \<Rightarrow> bytes"
  rp_encode_finalize :: "finalizeWithdrawalBatchCall \<Rightarrow> bytes"
  rp_assemble :: "'v \<Rightarrow> BlockExecutionCtx \<Rightarrow> ZoneHeader \<Rightarrow> 'n list \<Rightarrow> 'x \<Rightarrow> 's \<Rightarrow> b256 \<Rightarrow> ZoneHeader option"

section \<open>Block environment\<close>

definition next_block_env_attributes ::
  "('s, 'x, 'n, 'r, 'e, 'v, 'tr) replay_ops \<Rightarrow> ZoneHeader \<Rightarrow> ZoneBlock \<Rightarrow> NextBlockEnvAttributes" where
  "next_block_env_attributes ops parent block =
     \<lparr>na_timestamp = zb_timestamp block,
      na_suggested_fee_recipient = zb_beneficiary block,
      na_prev_randao = 0,
      na_gas_limit = zh_gas_limit parent,
      na_parent_beacon_block_root = (if rp_is_cancun ops (zb_timestamp block) then Some 0 else None),
      na_withdrawals = (if rp_is_shanghai ops (zb_timestamp block) then Some [] else None),
      na_extra_data = [],
      na_general_gas_limit = 0,
      na_shared_gas_limit = 0,
      na_timestamp_millis_part = zb_timestamp_millis_part block\<rparr>"

definition next_block_execution_context ::
  "('s, 'x, 'n, 'r, 'e, 'v, 'tr) replay_ops \<Rightarrow> ZoneBlock \<Rightarrow> BlockExecutionCtx" where
  "next_block_execution_context ops block =
     \<lparr>xc_parent_hash = zb_parent_hash block,
      xc_parent_beacon_block_root = (if rp_is_cancun ops (zb_timestamp block) then Some 0 else None),
      xc_withdrawals = (if rp_is_shanghai ops (zb_timestamp block) then Some [] else None),
      xc_extra_data = [],
      xc_general_gas_limit = 0,
      xc_shared_gas_limit = 0\<rparr>"

section \<open>Transactions\<close>

definition decode_user_transaction ::
  "('s, 'x, 'n, 'r, 'e, 'v, 'tr) replay_ops \<Rightarrow> nat \<Rightarrow> nat \<times> bytes \<Rightarrow> spf_error + 'n \<times> address" where
  "decode_user_transaction ops block_index = (\<lambda>(transaction_index, encoded_transaction).
     rbind (ok_or (rp_decode_2718_exact ops encoded_transaction)
       (TransactionDecoding block_index transaction_index)) (\<lambda>transaction.
     rbind (check (\<not> rp_is_system_tx ops transaction)
       (SystemTransactionInUserList block_index transaction_index)) (\<lambda>_.
     rbind (ok_or (rp_recover ops transaction) (TransactionSignature block_index transaction_index)) (\<lambda>signer.
     Inr (transaction, signer)))))"

definition decode_user_transactions ::
  "('s, 'x, 'n, 'r, 'e, 'v, 'tr) replay_ops \<Rightarrow> nat \<Rightarrow> bytes list \<Rightarrow> spf_error + ('n \<times> address) list" where
  "decode_user_transactions ops block_index transactions =
     try_map (decode_user_transaction ops block_index) (List.enumerate 0 transactions)"

definition map_block_execution_error ::
  "('s, 'x, 'n, 'r, 'e, 'v, 'tr) replay_ops \<Rightarrow> spf_error \<Rightarrow> 'e block_error \<Rightarrow> spf_error" where
  "map_block_execution_error ops execution_error error =
     (case error of
        InnerError e \<Rightarrow>
          (case rp_database_error ops e of
             Some d \<Rightarrow> StateWitnessError (WitnessDatabaseErr d)
           | None \<Rightarrow> execution_error)
      | _ \<Rightarrow> execution_error)"

definition decode_advance_tempo_revert ::
  "('s, 'x, 'n, 'r, 'e, 'v, 'tr) replay_ops \<Rightarrow> bytes \<Rightarrow> string" where
  "decode_advance_tempo_revert ops out =
     (if out = [] then ''empty revert data''
      else case rp_decode_inbox_error ops out of
        Some error \<Rightarrow> error
      | None \<Rightarrow>
          (case rp_decode_tempo_state_error ops out of
             Some error \<Rightarrow> error
           | None \<Rightarrow> ''unknown revert''))"

definition unsuccessful_error ::
  "('s, 'x, 'n, 'r, 'e, 'v, 'tr) replay_ops \<Rightarrow> spf_error \<Rightarrow> 'r \<Rightarrow> spf_error" where
  "unsuccessful_error ops execution_error result =
     (case (execution_error, rp_revert_output ops result) of
        (AdvanceTempoExecution block_index, Some out) \<Rightarrow>
          AdvanceTempoRevert block_index (decode_advance_tempo_revert ops out) out
      | (error, _) \<Rightarrow> error)"

type_synonym ('x, 'a) replay_eff = "('x ZoneBlockExecutor, spf_error, 'a) eff"

definition execute_recovered_transaction ::
  "('s, 'x, 'n, 'r, 'e, 'v, 'tr) replay_ops \<Rightarrow> 'n \<times> address \<Rightarrow> spf_error \<Rightarrow> bool \<Rightarrow> ('x, unit) replay_eff" where
  "execute_recovered_transaction ops transaction execution_error require_success =
     ebind (emap_err (map_block_execution_error ops execution_error)
              (execute_transaction_without_commit (rp_tx_ops ops) (rp_inner ops) transaction)) (\<lambda>result.
     eseq (echeck (\<not> (require_success \<and> \<not> rp_is_success ops (fst result)))
             (unsuccessful_error ops execution_error (fst result)))
          (emodify (commit_transaction (rp_inner ops) result)))"

definition execute_advance_tempo ::
  "('s, 'x, 'n, 'r, 'e, 'v, 'tr) replay_ops \<Rightarrow> advanceTempoCall \<Rightarrow> nat \<Rightarrow> u64 \<Rightarrow> ('x, 'n) replay_eff" where
  "execute_advance_tempo ops call block_index chain_id =
     (let transaction = rp_system_transaction ops chain_id ZONE_INBOX_ADDRESS (rp_encode_advance_tempo ops call)
      in eseq (execute_recovered_transaction ops (transaction, rp_system_tx_sender ops)
                 (AdvanceTempoExecution block_index) True)
              (ereturn transaction))"

definition execute_advance_tempo_headers ::
  "('s, 'x, 'n, 'r, 'e, 'v, 'tr) replay_ops \<Rightarrow> bytes list \<Rightarrow> nat \<Rightarrow> u64 \<Rightarrow> ('x, 'n) replay_eff" where
  "execute_advance_tempo_headers ops headers block_index chain_id =
     (let transaction = rp_system_transaction ops chain_id ZONE_INBOX_ADDRESS
            (rp_encode_advance_tempo_headers ops headers)
      in eseq (execute_recovered_transaction ops (transaction, rp_system_tx_sender ops)
                 (AdvanceTempoExecution block_index) True)
              (ereturn transaction))"

definition execute_finalize_withdrawal_batch ::
  "('s, 'x, 'n, 'r, 'e, 'v, 'tr) replay_ops \<Rightarrow> u256 \<Rightarrow> u64 \<Rightarrow> bytes list \<Rightarrow> nat \<Rightarrow> u64 \<Rightarrow> ('x, 'n) replay_eff" where
  "execute_finalize_withdrawal_batch ops count block_number encrypted_senders block_index chain_id =
     (let transaction = rp_system_transaction ops chain_id ZONE_OUTBOX_ADDRESS
            (rp_encode_finalize ops \<lparr>fb_count = count, fb_blockNumber = block_number,
               fb_encryptedSenders = encrypted_senders\<rparr>)
      in eseq (execute_recovered_transaction ops (transaction, rp_system_tx_sender ops)
                 (FinalizeWithdrawalBatchExecution block_index) True)
              (ereturn transaction))"

definition execute_user_transaction ::
  "('s, 'x, 'n, 'r, 'e, 'v, 'tr) replay_ops \<Rightarrow> nat \<Rightarrow> nat \<times> 'n \<times> address \<Rightarrow> 'n list \<Rightarrow> ('x, 'n list) replay_eff" where
  "execute_user_transaction ops block_index = (\<lambda>(transaction_index, transaction) executed.
     eseq (execute_recovered_transaction ops transaction
             (TransactionExecution block_index transaction_index) False)
          (ereturn (executed @ [fst transaction])))"

definition execute_user_transactions ::
  "('s, 'x, 'n, 'r, 'e, 'v, 'tr) replay_ops \<Rightarrow> nat \<Rightarrow> ('n \<times> address) list \<Rightarrow> ('x, 'n list) replay_eff" where
  "execute_user_transactions ops block_index transactions =
     efold (execute_user_transaction ops block_index) (List.enumerate 0 transactions) []"

section \<open>One block\<close>

record ('x, 'n, 'v) ExecutedZoneBlock =
  ez_transactions :: "'n list"
  ez_output :: 'x
  ez_evm_env :: 'v

text \<open>The opening system transaction of the block.\<close>

definition execute_import ::
  "('s, 'x, 'n, 'r, 'e, 'v, 'tr) replay_ops \<Rightarrow> SpfImport \<Rightarrow> nat \<Rightarrow> u64 \<Rightarrow> ('x, 'n) replay_eff" where
  "execute_import ops import block_index chain_id =
     (case import of
        SpfFull header_rlp deposits decryptions enabled_tokens \<Rightarrow>
          execute_advance_tempo ops \<lparr>at_header = header_rlp, at_deposits = deposits,
            at_decryptions = decryptions, at_enabledTokens = enabled_tokens\<rparr> block_index chain_id
      | SpfCheckpointOnly headers \<Rightarrow> execute_advance_tempo_headers ops headers block_index chain_id)"

text \<open>The executor's part of the replay, from the pre-execution changes to the last transaction.\<close>

definition run_transactions ::
  "('s, 'x, 'n, 'r, 'e, 'v, 'tr) replay_ops \<Rightarrow> nat \<Rightarrow> u64 \<Rightarrow> ZoneBlock \<Rightarrow> ('n \<times> address) list
   \<Rightarrow> ('x, 'n list) replay_eff" where
  "run_transactions ops block_index chain_id block user_transactions =
     eseq (emap_err (map_block_execution_error ops (BlockPreExecution block_index))
             (apply_pre_execution_changes (rp_inner ops)))
    (ebind (execute_import ops (zb_tempo_import block) block_index chain_id) (\<lambda>opening.
     ebind (execute_user_transactions ops block_index user_transactions) (\<lambda>executed.
     case zb_finalize_withdrawal_batch_count block of
       None \<Rightarrow> ereturn (opening # executed)
     | Some count \<Rightarrow>
         ebind (execute_finalize_withdrawal_batch ops count (zb_number block)
                  (zb_finalize_withdrawal_batch_encrypted_senders block) block_index chain_id) (\<lambda>closing.
         ereturn (opening # executed @ [closing])))))"

definition note_parent_hash ::
  "('s, 'x, 'n, 'r, 'e, 'v, 'tr) replay_ops \<Rightarrow> ZoneBlock \<Rightarrow> 's \<Rightarrow> spf_error + 's" where
  "note_parent_hash ops block s =
     rbind (ok_or (checked_sub (zb_number block) 1) BlockNumberOverflow) (\<lambda>parent_number.
     case rp_block_hash ops s parent_number of
       Some existing \<Rightarrow>
         if existing \<noteq> zb_parent_hash block
         then Inl (StateWitnessError (WitnessDatabaseErr
                (ConflictingBlockHash parent_number existing (zb_parent_hash block))))
         else Inr (rp_insert_block_hash ops parent_number (zb_parent_hash block) s)
     | None \<Rightarrow> Inr (rp_insert_block_hash ops parent_number (zb_parent_hash block) s))"

definition prepare_block ::
  "('s, 'x, 'n, 'r, 'e, 'v, 'tr) replay_ops \<Rightarrow> ZoneHeader \<Rightarrow> nat \<Rightarrow> ZoneBlock \<Rightarrow> 's
   \<Rightarrow> spf_error + ('n \<times> address) list \<times> 'v \<times> 's" where
  "prepare_block ops parent block_index block s =
     rbind (decode_user_transactions ops block_index (zb_transactions block)) (\<lambda>user_transactions.
     rbind (note_parent_hash ops block s) (\<lambda>s.
     rbind (check (zh_base_fee_per_gas parent \<noteq> None) (MissingParentBaseFee block_index)) (\<lambda>_.
     rbind (ok_or (rp_next_evm_env ops parent (next_block_env_attributes ops parent block)) EvmEnvironment)
       (\<lambda>env.
     Inr (user_transactions, env, s)))))"

text \<open>The replay returns the cell for missing Tempo reads on both paths: the caller holds a clone.\<close>

definition execute_zone_block ::
  "('s, 'x, 'n, 'r, 'e, 'v, 'tr) replay_ops \<Rightarrow> 'tr TempoWitnessDatabase \<Rightarrow> ZoneHeader \<Rightarrow> nat \<Rightarrow> ZoneBlock \<Rightarrow> 's
   \<Rightarrow> (MissingTempoStorageRead option, spf_error, ('x, 'n, 'v) ExecutedZoneBlock \<times> 's) eff" where
  "execute_zone_block ops td parent block_index block s missing =
     (case prepare_block ops parent block_index block s of
        Inl e \<Rightarrow> (Inl e, missing)
      | Inr (user_transactions, env, s) \<Rightarrow>
          (case run_transactions ops block_index (rp_env_chain_id ops env) block user_transactions
                  (executor_new (rp_create_executor ops env td (next_block_execution_context ops block) missing s)) of
             (Inl e, x) \<Rightarrow> (Inl e, rp_missing_read ops (bx_inner x))
           | (Inr transactions, x) \<Rightarrow>
               (case executor_finish (rp_inner ops) x of
                  Inl e \<Rightarrow> (Inl (map_block_execution_error ops (BlockPostExecution block_index) e),
                            rp_missing_read ops (bx_inner x))
                | Inr y \<Rightarrow>
                    (Inr (\<lparr>ez_transactions = transactions, ez_output = y, ez_evm_env = env\<rparr>,
                          rp_merge_transitions ops (rp_into_state ops y)),
                     rp_missing_read ops y))))"

end
