(* ===== verification/Spf.thy ===== *)
theory Spf
  imports Spf_Execution L1_Import
begin

text \<open>
  The stateless state transition function of a zone (\<open>spf/src/lib.rs\<close>): \<open>prove_zone_batch\<close> opens the
  witnessed zone and Tempo state, replays every block of a batch on the header of its predecessor, and
  returns the commitments the portal accepts.
\<close>

section \<open>Validation of a block\<close>

definition timestamp_millis :: "u64 \<Rightarrow> u64 \<Rightarrow> u64 option" where
  "timestamp_millis seconds millis_part =
     Option.bind (checked_mul seconds 1000) (\<lambda>t. checked_add t millis_part)"

definition validate_zone_block_timestamp :: "ZoneBlock \<Rightarrow> nat \<Rightarrow> ZoneHeader \<Rightarrow> spf_error + unit" where
  "validate_zone_block_timestamp block block_index parent =
     rbind (check (\<not> zb_timestamp_millis_part block \<ge> 1000)
       (InvalidTimestampMillisPart block_index (zb_timestamp_millis_part block))) (\<lambda>_.
     rbind (ok_or (timestamp_millis (zb_timestamp block) (zb_timestamp_millis_part block))
       (BlockTimestampOverflow block_index)) (\<lambda>actual.
     rbind (ok_or (timestamp_millis (th_timestamp parent) (th_timestamp_millis_part parent))
       (ParentTimestampOverflow block_index)) (\<lambda>previous.
     check (\<not> actual < previous) (BlockTimestampRegression previous actual))))"

definition validate_batch_block_shape :: "ZoneBlock \<Rightarrow> bool \<Rightarrow> spf_error + unit" where
  "validate_batch_block_shape block is_last =
     check (case (zb_tempo_import block, is_last) of
              (SpfCheckpointOnly _, False) \<Rightarrow> True
            | (SpfFull _ _ _ _, False) \<Rightarrow> zb_finalize_withdrawal_batch_count block = None
            | (SpfFull _ _ _ _, True) \<Rightarrow> zb_finalize_withdrawal_batch_count block \<noteq> None
            | (SpfCheckpointOnly _, True) \<Rightarrow> False)
       InvalidBatchShape"

definition validate_system_inputs :: "ZoneBlock \<Rightarrow> nat \<Rightarrow> spf_error + unit" where
  "validate_system_inputs block index =
     rbind (check (headers_rlp (zb_tempo_import block) \<noteq> []) (MissingTempoHeaders index)) (\<lambda>_.
     rbind (case zb_tempo_import block of
              SpfFull _ deposits _ enabled_tokens \<Rightarrow>
                check (\<not> (length deposits > MAX_UNPROCESSED_DEPOSITS
                          \<or> length enabled_tokens > MAX_UNPROCESSED_TOKEN_ENABLEMENTS))
                  (PortalWorkCapacityExceeded index)
            | SpfCheckpointOnly _ \<Rightarrow>
                check (\<not> (zb_transactions block \<noteq> []
                          \<or> zb_finalize_withdrawal_batch_count block \<noteq> None
                          \<or> zb_finalize_withdrawal_batch_encrypted_senders block \<noteq> []))
                  (InvalidCheckpointOnlyBlock index)) (\<lambda>_.
     let senders = zb_finalize_withdrawal_batch_encrypted_senders block in
     case zb_finalize_withdrawal_batch_count block of
       Some count \<Rightarrow>
         check (count = of_nat (length senders))
           (FinalizationEncryptedSenderCountMismatch index count (length senders))
     | None \<Rightarrow> check (senders = []) (FinalizationEncryptedSendersWithoutCount index)))"

section \<open>The Tempo anchor\<close>

definition ancestry_step ::
  "'w zone_env \<Rightarrow> nat \<times> bytes \<Rightarrow> u64 \<times> b256 \<Rightarrow> spf_error + u64 \<times> b256" where
  "ancestry_step env = (\<lambda>(index, encoded_header) (previous_number, previous_hash).
     rbind (ok_or (decode_exact env encoded_header) (TempoAncestryHeaderDecoding index)) (\<lambda>header.
     rbind (ok_or (checked_add previous_number 1) TempoAncestryBlockNumberOverflow) (\<lambda>expected_number.
     rbind (check (th_number header = expected_number)
       (TempoAncestryHeaderNumberMismatch index expected_number (th_number header))) (\<lambda>_.
     rbind (check (th_parent_hash header = previous_hash)
       (TempoAncestryParentHashMismatch index previous_hash (th_parent_hash header))) (\<lambda>_.
     Inr (th_number header, ze_keccak env encoded_header))))))"

definition validate_tempo_anchor ::
  "'w zone_env \<Rightarrow> u64 \<Rightarrow> b256 \<Rightarrow> PublicInputs \<Rightarrow> bytes list \<Rightarrow> spf_error + unit" where
  "validate_tempo_anchor env number hash inputs ancestry_headers =
     (if pi_anchor_block_number inputs < number
      then Inl (AnchorBlockNumberBeforeTempo number (pi_anchor_block_number inputs))
      else if pi_anchor_block_number inputs = number
      then rbind (check (ancestry_headers = []) UnexpectedTempoAncestryHeaders) (\<lambda>_.
           check (hash = pi_anchor_block_hash inputs) (TempoAnchorHashMismatch (pi_anchor_block_hash inputs) hash))
      else
        let expected_len = unat (pi_anchor_block_number inputs - number) in
        rbind (check (length ancestry_headers = expected_len)
          (TempoAncestryLengthMismatch expected_len (length ancestry_headers))) (\<lambda>_.
        rbind (try_fold (ancestry_step env) (List.enumerate 0 ancestry_headers) (number, hash))
          (\<lambda>(_, previous_hash).
        check (previous_hash = pi_anchor_block_hash inputs)
          (TempoAnchorHashMismatch (pi_anchor_block_hash inputs) previous_hash))))"

section \<open>Zone storage\<close>

text \<open>The slots the upstream storage layout gives to the fields the batch commits.\<close>

record spf_slots =
  sl_processed_deposit_queue_hash :: u256
  sl_processed_deposit_number :: u256
  sl_processed_enabled_token_count :: u256
  sl_tempo_block_hash :: u256
  sl_tempo_block_number :: u256
  sl_withdrawal_queue_hash :: u256
  sl_withdrawal_batch_index :: u256

definition read_zone_storage ::
  "('s, 'x, 'n, 'r, 'e, 'v, 'tr) replay_ops \<Rightarrow> address \<Rightarrow> u256 \<Rightarrow> ('s, spf_error, u256) eff" where
  "read_zone_storage ops a slot =
     emap_err (\<lambda>e. case e of
         DatabaseError error \<Rightarrow> StateWitnessError (WitnessDatabaseErr error)
       | BalError \<Rightarrow> UnexpectedBalancedAccess a slot)
       (rp_storage ops a slot)"

text \<open>The conversion \<open>to::<u64>()\<close> panics when the word does not fit.\<close>

definition read_zone_u64 ::
  "('s, 'x, 'n, 'r, 'e, 'v, 'tr) replay_ops \<Rightarrow> address \<Rightarrow> u256 \<Rightarrow> ('s, spf_error, u64) eff" where
  "read_zone_u64 ops a slot =
     ebind (read_zone_storage ops a slot) (\<lambda>word.
     eseq (echeck (unat word < 2 ^ 64) UintConversionPanic) (ereturn (ucast word)))"

text \<open>The fields read before and after the batch.\<close>

record inbox_progress =
  ip_hash :: b256
  ip_number :: u64
  ip_token_count :: u64

definition read_inbox_progress ::
  "('s, 'x, 'n, 'r, 'e, 'v, 'tr) replay_ops \<Rightarrow> spf_slots \<Rightarrow> ('s, spf_error, inbox_progress) eff" where
  "read_inbox_progress ops slots =
     ebind (read_zone_storage ops ZONE_INBOX_ADDRESS (sl_processed_deposit_queue_hash slots)) (\<lambda>hash.
     ebind (read_zone_u64 ops ZONE_INBOX_ADDRESS (sl_processed_deposit_number slots)) (\<lambda>number.
     ebind (read_zone_u64 ops ZONE_INBOX_ADDRESS (sl_processed_enabled_token_count slots)) (\<lambda>token_count.
     ereturn \<lparr>ip_hash = hash, ip_number = number, ip_token_count = token_count\<rparr>)))"

definition read_tempo_checkpoint ::
  "('s, 'x, 'n, 'r, 'e, 'v, 'tr) replay_ops \<Rightarrow> spf_slots \<Rightarrow> ('s, spf_error, u64 \<times> b256) eff" where
  "read_tempo_checkpoint ops slots =
     ebind (read_zone_storage ops TEMPO_STATE_ADDRESS (sl_tempo_block_hash slots)) (\<lambda>hash.
     ebind (read_zone_u64 ops TEMPO_STATE_ADDRESS (sl_tempo_block_number slots)) (\<lambda>number.
     ereturn (number, hash)))"

definition read_finalized_batch ::
  "('s, 'x, 'n, 'r, 'e, 'v, 'tr) replay_ops \<Rightarrow> spf_slots \<Rightarrow> ('s, spf_error, b256 \<times> u64) eff" where
  "read_finalized_batch ops slots =
     ebind (read_zone_storage ops ZONE_OUTBOX_ADDRESS (sl_withdrawal_queue_hash slots)) (\<lambda>hash.
     ebind (read_zone_storage ops ZONE_OUTBOX_ADDRESS (sl_withdrawal_batch_index slots)) (\<lambda>index_slot.
     ereturn (hash, ucast index_slot)))"

section \<open>The batch\<close>

record ('s, 'tr) replay_state =
  rs_header :: ZoneHeader
  rs_tempo :: "'tr TempoWitnessDatabase"
  rs_zone :: 's
  rs_missing :: "MissingTempoStorageRead option"

definition validate_block ::
  "('s, 'x, 'n, 'r, 'e, 'v, 'tr) replay_ops \<Rightarrow> nat \<Rightarrow> nat \<Rightarrow> ZoneBlock \<Rightarrow> ZoneHeader \<Rightarrow> spf_error + unit" where
  "validate_block ops block_count block_index block previous_header =
     (let expected_parent_hash = rp_hash ops previous_header in
      rbind (check (zb_parent_hash block = expected_parent_hash)
        (BlockParentHashMismatch block_index (zb_number block) expected_parent_hash (zb_parent_hash block))) (\<lambda>_.
      rbind (ok_or (checked_add (th_number previous_header) 1) BlockNumberOverflow) (\<lambda>expected_number.
      rbind (check (zb_number block = expected_number) (BlockNumberMismatch expected_number (zb_number block))) (\<lambda>_.
      rbind (validate_zone_block_timestamp block block_index previous_header) (\<lambda>_.
      rbind (validate_system_inputs block block_index) (\<lambda>_.
      validate_batch_block_shape block (block_index + 1 = block_count)))))))"

text \<open>A failed replay reports the first Tempo read the witness could not answer, if there was one.\<close>

definition replay_error :: "MissingTempoStorageRead option \<Rightarrow> spf_error \<Rightarrow> spf_error" where
  "replay_error missing error =
     (case missing of
        Some m \<Rightarrow> MissingTempoStorage (ms_account m) (ms_slot m) (ms_block_number m)
      | None \<Rightarrow> error)"

definition advance_state_root ::
  "('tr, 'st, 'mp) sparse_ops \<Rightarrow> ('s, 'x, 'n, 'r, 'e, 'v, 'tr) replay_ops \<Rightarrow> 's \<Rightarrow> spf_error + b256 \<times> 's" where
  "advance_state_root sp ops s =
     (case rp_take_bundle ops s of
        (bundle_state, s) \<Rightarrow>
          (case db_state_root sp bundle_state (rp_database ops s) of
             (Inl e, _) \<Rightarrow> Inl (StateWitnessError (MptValidation e))
           | (Inr state_root, db) \<Rightarrow> Inr (state_root, rp_put_database ops db s)))"

definition replay_block ::
  "'w zone_env \<Rightarrow> ('tr, 'st, 'mp) sparse_ops \<Rightarrow> ('s, 'x, 'n, 'r, 'e, 'v, 'tr) replay_ops \<Rightarrow> nat
   \<Rightarrow> nat \<times> ZoneBlock \<Rightarrow> ('s, 'tr) replay_state \<Rightarrow> spf_error + ('s, 'tr) replay_state" where
  "replay_block env sp ops block_count = (\<lambda>(block_index, block) st.
     rbind (validate_block ops block_count block_index block (rs_header st)) (\<lambda>_.
     rbind (map_err StateWitnessError (with_imported_checkpoint sp env
       (last (headers_rlp (zb_tempo_import block))) (rs_tempo st))) (\<lambda>td.
     case execute_zone_block ops td (rs_header st) block_index block (rs_zone st) (rs_missing st) of
       (Inl error, missing) \<Rightarrow> Inl (replay_error missing error)
     | (Inr (executed, s), missing) \<Rightarrow>
         rbind (advance_state_root sp ops s) (\<lambda>(state_root, s).
         rbind (ok_or (rp_assemble ops (ez_evm_env executed) (next_block_execution_context ops block)
             (rs_header st) (ez_transactions executed) (ez_output executed) s state_root)
           (BlockAssembly block_index)) (\<lambda>header.
         Inr \<lparr>rs_header = header, rs_tempo = td, rs_zone = s, rs_missing = missing\<rparr>)))))"

record spf_config =
  sf_chain_id :: u64
  sf_mainnet :: u64
  sf_moderato :: u64
  sf_slots :: spf_slots

text \<open>The reads and checks after the last block, and the commitments.\<close>

definition commit_batch ::
  "'w zone_env \<Rightarrow> ('s, 'x, 'n, 'r, 'e, 'v, 'tr) replay_ops \<Rightarrow> spf_config \<Rightarrow> BatchWitness \<Rightarrow> inbox_progress
   \<Rightarrow> ZoneHeader \<Rightarrow> ('s, spf_error, BatchOutput) eff" where
  "commit_batch env ops cfg witness previous header =
     (let inputs = bw_public_inputs witness; blocks = bw_zone_blocks witness;
          output_parent_hash = (if zb_number (hd blocks) = 1 then 0 else rp_hash ops (bw_parent_header witness))
      in
        ebind (read_inbox_progress ops (sf_slots cfg)) (\<lambda>following.
        ebind (if list_ex (\<lambda>block. zb_finalize_withdrawal_batch_count block \<noteq> None) blocks
               then read_finalized_batch ops (sf_slots cfg)
               else ereturn (0, pi_expected_withdrawal_batch_index inputs)) (\<lambda>(queue_hash, batch_index).
        ebind (read_tempo_checkpoint ops (sf_slots cfg)) (\<lambda>(tempo_number, tempo_hash).
        eseq (echeck (tempo_number = pi_tempo_block_number inputs)
                (FinalTempoBlockNumberMismatch (pi_tempo_block_number inputs) tempo_number))
       (eseq (elift (validate_tempo_anchor env tempo_number tempo_hash inputs (bw_tempo_ancestry_headers witness)))
       (eseq (echeck (batch_index = pi_expected_withdrawal_batch_index inputs)
                (WithdrawalBatchIndexMismatch (pi_expected_withdrawal_batch_index inputs) batch_index))
             (ereturn
                \<lparr>bo_next_zone_height = th_number header,
                 bo_block_transition = \<lparr>bt_prevBlockHash = output_parent_hash, bt_nextBlockHash = rp_hash ops header\<rparr>,
                 bo_deposit_queue_transition =
                   \<lparr>dt_prevProcessedHash = ip_hash previous, dt_nextProcessedHash = ip_hash following,
                    dt_prevDepositNumber = ip_number previous, dt_nextDepositNumber = ip_number following\<rparr>,
                 bo_token_enablement_transition =
                   \<lparr>tt_prevProcessedTokenCount = ip_token_count previous,
                    tt_nextProcessedTokenCount = ip_token_count following\<rparr>,
                 bo_withdrawal_queue_hash = queue_hash,
                 bo_last_batch_commitment = \<lparr>lc_withdrawal_batch_index = batch_index\<rparr>\<rparr>)))))))"

text \<open>The zone state opened on the parent header, with the checks before the first block.\<close>

definition open_batch ::
  "'w zone_env \<Rightarrow> ('tr, 'st, 'mp) sparse_ops \<Rightarrow> ('s, 'x, 'n, 'r, 'e, 'v, 'tr) replay_ops \<Rightarrow> spf_config
   \<Rightarrow> BatchWitness \<Rightarrow> spf_error + inbox_progress \<times> ('s, 'tr) replay_state" where
  "open_batch env sp ops cfg witness =
     rbind (check (bw_zone_blocks witness \<noteq> []) EmptyZoneBatch) (\<lambda>_.
     rbind (map_err ZoneChainId (zone_chain_id (sf_mainnet cfg) (sf_moderato cfg)
         (pi_parent_chain_id (bw_public_inputs witness)) (pi_zone_id (bw_public_inputs witness))))
       (\<lambda>expected_chain_id.
     rbind (check (sf_chain_id cfg = expected_chain_id) (ChainIdMismatch (sf_chain_id cfg) expected_chain_id)) (\<lambda>_.
     rbind (map_err StateWitnessError (from_zone_state_witness sp (bw_zone_state_witness witness)
         (th_state_root (bw_parent_header witness)))) (\<lambda>zone_database.
     case read_inbox_progress ops (sf_slots cfg) (rp_open ops zone_database) of
       (Inl e, _) \<Rightarrow> Inl e
     | (Inr previous, s) \<Rightarrow>
         rbind (map_err StateWitnessError (from_tempo_state_witness sp env (bw_tempo_state_witness witness))) (\<lambda>td.
         case read_tempo_checkpoint ops (sf_slots cfg) s of
           (Inl e, _) \<Rightarrow> Inl e
         | (Inr (zone_tempo_number, zone_tempo_hash), s) \<Rightarrow>
             rbind (check ((zone_tempo_number, zone_tempo_hash) = td_checkpoint td)
               (InitialTempoCheckpointMismatch zone_tempo_number zone_tempo_hash
                  (td_tempo_block_number td) (td_tempo_block_hash td))) (\<lambda>_.
             Inr (previous, \<lparr>rs_header = bw_parent_header witness, rs_tempo = td, rs_zone = s,
                             rs_missing = None\<rparr>)))))))"

definition prove_zone_batch ::
  "'w zone_env \<Rightarrow> ('tr, 'st, 'mp) sparse_ops \<Rightarrow> ('s, 'x, 'n, 'r, 'e, 'v, 'tr) replay_ops \<Rightarrow> spf_config
   \<Rightarrow> BatchWitness \<Rightarrow> spf_error + BatchOutput" where
  "prove_zone_batch env sp ops cfg witness =
     rbind (open_batch env sp ops cfg witness) (\<lambda>(previous, st).
     rbind (try_fold (replay_block env sp ops (length (bw_zone_blocks witness)))
         (List.enumerate 0 (bw_zone_blocks witness)) st) (\<lambda>st.
     fst (commit_batch env ops cfg witness previous (rs_header st) (rs_zone st))))"

end
