(* ===== verification/Spf_Batch.thy ===== *)
theory Spf_Batch
  imports Spf
begin

text \<open>
  What a proven batch commits to: the chain of zone headers, the Tempo headers up to the public
  anchor, the deposits of the portal's queue and the finalized withdrawals. The upstream EVM is
  related to the models of the zone precompiles by laws on its parameters.
\<close>

section \<open>Laws of the EVM\<close>

text \<open>
  What is relied on of the upstream EVM. The committed fields of the zone's own precompiles are a view
  of its state. A successful system transaction ran the precompile it calls, and a user transaction ran
  some sequence of successful precompile calls by callers other than the zero address, besides token
  and other state outside the view. The other operations keep the view.
\<close>

record zone_view =
  zv_inbox :: ZoneInbox
  zv_outbox :: ZoneOutbox
  zv_tempo :: TempoState

definition ctx_view :: "'w inbox_ctx \<Rightarrow> zone_view" where
  "ctx_view c = \<lparr>zv_inbox = zc_inbox c, zv_outbox = zc_outbox c, zv_tempo = zc_tempo c\<rparr>"

inductive user_call :: "'w zone_env \<Rightarrow> 'w inbox_ctx \<Rightarrow> 'w inbox_ctx \<Rightarrow> bool" for env where
  request: "caller \<noteq> 0 \<Longrightarrow> request_withdrawal env caller payer tx_hash rq c = (Inr (), c') \<Longrightarrow> user_call env c c'"
| gas_rate: "caller \<noteq> 0 \<Longrightarrow> set_tempo_gas_rate env caller rate c = (Inr (), c') \<Longrightarrow> user_call env c c'"
| max_withdrawals: "caller \<noteq> 0 \<Longrightarrow> set_max_withdrawals_per_block env caller limit c = (Inr (), c')
    \<Longrightarrow> user_call env c c'"
| finalize: "caller \<noteq> 0 \<Longrightarrow> finalize_withdrawal_batch env caller fb c = (Inr h, c') \<Longrightarrow> user_call env c c'"
| advance: "caller \<noteq> 0 \<Longrightarrow> advance_tempo env caller at c = (Inr (), c') \<Longrightarrow> user_call env c c'"
| advance_headers: "caller \<noteq> 0 \<Longrightarrow> advance_tempo_headers env caller hs c = (Inr (), c') \<Longrightarrow> user_call env c c'"
| refund: "caller \<noteq> 0 \<Longrightarrow> claim_refund env caller token c = (Inr amount, c') \<Longrightarrow> user_call env c c'"
| other: "user_call env c (c\<lparr>zc_tokens := w, zc_events := es, zc_gas := g, zc_l1 := l\<rparr>)"

text \<open>The environment the precompiles of a replayed block see.\<close>

definition block_env ::
  "'w zone_env \<Rightarrow> ('tr, 'st, 'mp) sparse_ops \<Rightarrow> 'tr TempoWitnessDatabase \<Rightarrow> ZoneHeader \<Rightarrow> ZoneBlock \<Rightarrow> bool
   \<Rightarrow> 'w zone_env" where
  "block_env env sp td parent block t13 =
     env\<lparr>ze_reader := (\<lambda>a slot number. fst (read_tempo_storage sp td a slot number None)),
         ze_block_number := th_number parent + 1, ze_timestamp := zb_timestamp block,
         ze_timestamp_millis := ucast (zb_timestamp block) * 1000 + ucast (zb_timestamp_millis_part block),
         ze_is_t13 := t13\<rparr>"

definition slot_value :: "spf_slots \<Rightarrow> address \<Rightarrow> u256 \<Rightarrow> zone_view \<Rightarrow> u256 \<Rightarrow> bool" where
  "slot_value slots a slot v word \<longleftrightarrow>
     (a = ZONE_INBOX_ADDRESS \<and> slot = sl_processed_deposit_queue_hash slots \<longrightarrow>
        word = processed_deposit_queue_hash (zv_inbox v)) \<and>
     (a = ZONE_INBOX_ADDRESS \<and> slot = sl_processed_deposit_number slots \<longrightarrow>
        word = ucast (processed_deposit_number (zv_inbox v))) \<and>
     (a = ZONE_INBOX_ADDRESS \<and> slot = sl_processed_enabled_token_count slots \<longrightarrow>
        word = ucast (processed_enabled_token_count (zv_inbox v))) \<and>
     (a = TEMPO_STATE_ADDRESS \<and> slot = sl_tempo_block_hash slots \<longrightarrow> word = tempo_block_hash (zv_tempo v)) \<and>
     (a = TEMPO_STATE_ADDRESS \<and> slot = sl_tempo_block_number slots \<longrightarrow>
        word = ucast (tempo_block_number (zv_tempo v))) \<and>
     (a = ZONE_OUTBOX_ADDRESS \<and> slot = sl_withdrawal_queue_hash slots \<longrightarrow>
        word = withdrawal_queue_hash (zv_outbox v)) \<and>
     (a = ZONE_OUTBOX_ADDRESS \<and> slot = sl_withdrawal_batch_index slots \<longrightarrow>
        (ucast word :: u64) = withdrawal_batch_index (zv_outbox v))"

definition state_laws ::
  "('tr, 'st, 'mp) sparse_ops \<Rightarrow> ('s, 'x, 'n, 'r, 'e, 'v, 'tr) replay_ops \<Rightarrow> spf_slots \<Rightarrow> ('s \<Rightarrow> zone_view)
   \<Rightarrow> bool" where
  "state_laws sp ops slots view \<longleftrightarrow>
     (\<forall>a slot s word s'. rp_storage ops a slot s = (Inr word, s') \<longrightarrow>
        view s' = view s \<and> slot_value slots a slot (view s) word) \<and>
     (\<forall>n h s. view (rp_insert_block_hash ops n h s) = view s) \<and>
     (\<forall>s. view (rp_merge_transitions ops s) = view s) \<and>
     (\<forall>s b s' root db. rp_take_bundle ops s = (b, s') \<longrightarrow> db_state_root sp b (rp_database ops s') = (Inr root, db)
        \<longrightarrow> view (rp_put_database ops db s') = view s)"

definition runs_call ::
  "('x \<Rightarrow> zone_view) \<Rightarrow> ('x \<Rightarrow> 'w zone_env) \<Rightarrow> ('w zone_env \<Rightarrow> 'w inbox_ctx \<Rightarrow> 'w inbox_ctx \<Rightarrow> bool) \<Rightarrow> 'x \<Rightarrow> 'x \<Rightarrow> bool" where
  "runs_call xview xenv call x x' \<longleftrightarrow> xenv x' = xenv x \<and>
     (\<exists>c c'. ctx_view c = xview x \<and> call (xenv x) c c' \<and> ctx_view c' = xview x')"

definition executed ::
  "('s, 'x, 'n, 'r, 'e, 'v, 'tr) replay_ops \<Rightarrow> 'n \<times> address \<Rightarrow> 'x \<Rightarrow> 'r \<Rightarrow> 'x \<Rightarrow> bool" where
  "executed ops tx x r x' \<longleftrightarrow> (\<exists>x1. in_execute (rp_inner ops) tx x = (Inr r, x1) \<and>
     x' = in_commit (rp_inner ops) r (in_clear_l1_overlay (rp_inner ops) x1))"

definition system_law ::
  "('s, 'x, 'n, 'r, 'e, 'v, 'tr) replay_ops \<Rightarrow> ('x \<Rightarrow> zone_view) \<Rightarrow> ('x \<Rightarrow> 'w zone_env) \<Rightarrow> address \<Rightarrow> ('c \<Rightarrow> bytes)
   \<Rightarrow> ('w zone_env \<Rightarrow> address \<Rightarrow> 'c \<Rightarrow> 'w inbox_ctx \<Rightarrow> 'w inbox_ctx \<Rightarrow> bool) \<Rightarrow> bool" where
  "system_law ops xview xenv callee encode run \<longleftrightarrow>
     (\<forall>call chain x r x'.
        executed ops (rp_system_transaction ops chain callee (encode call), rp_system_tx_sender ops) x r x' \<longrightarrow>
        rp_is_success ops r \<longrightarrow> runs_call xview xenv (\<lambda>e. run e (rp_system_tx_sender ops) call) x x')"

definition user_law ::
  "('s, 'x, 'n, 'r, 'e, 'v, 'tr) replay_ops \<Rightarrow> ('x \<Rightarrow> zone_view) \<Rightarrow> ('x \<Rightarrow> 'w zone_env) \<Rightarrow> bool" where
  "user_law ops xview xenv \<longleftrightarrow>
     (\<forall>tx signer x r x'. \<not> rp_is_system_tx ops tx \<longrightarrow> rp_recover ops tx = Some signer \<longrightarrow>
        executed ops (tx, signer) x r x' \<longrightarrow> runs_call xview xenv (\<lambda>e. (user_call e)\<^sup>*\<^sup>*) x x')"

definition frame_laws ::
  "'w zone_env \<Rightarrow> ('tr, 'st, 'mp) sparse_ops \<Rightarrow> ('s, 'x, 'n, 'r, 'e, 'v, 'tr) replay_ops \<Rightarrow> ('s \<Rightarrow> zone_view)
   \<Rightarrow> ('x \<Rightarrow> zone_view) \<Rightarrow> ('x \<Rightarrow> 'w zone_env) \<Rightarrow> bool" where
  "frame_laws env sp ops view xview xenv \<longleftrightarrow>
     (\<forall>parent block v td missing s x.
        rp_next_evm_env ops parent (next_block_env_attributes ops parent block) = Some v \<longrightarrow>
        x = rp_create_executor ops v td (next_block_execution_context ops block) missing s \<longrightarrow>
        xview x = view s \<and> (\<exists>t13. xenv x = block_env env sp td parent block t13)) \<and>
     (\<forall>x x'. in_apply_pre_execution_changes (rp_inner ops) x = (Inr (), x') \<longrightarrow>
        xview x' = xview x \<and> xenv x' = xenv x) \<and>
     (\<forall>x y. in_finish (rp_inner ops) x = Inr y \<longrightarrow> view (rp_into_state ops y) = xview x)"

definition runs_advance_tempo ::
  "'w zone_env \<Rightarrow> address \<Rightarrow> advanceTempoCall \<Rightarrow> 'w inbox_ctx \<Rightarrow> 'w inbox_ctx \<Rightarrow> bool" where
  "runs_advance_tempo e caller call c c' \<longleftrightarrow> advance_tempo e caller call c = (Inr (), c')"

definition runs_advance_tempo_headers ::
  "'w zone_env \<Rightarrow> address \<Rightarrow> bytes list \<Rightarrow> 'w inbox_ctx \<Rightarrow> 'w inbox_ctx \<Rightarrow> bool" where
  "runs_advance_tempo_headers e caller headers c c' \<longleftrightarrow> advance_tempo_headers e caller headers c = (Inr (), c')"

definition runs_finalize ::
  "'w zone_env \<Rightarrow> address \<Rightarrow> finalizeWithdrawalBatchCall \<Rightarrow> 'w inbox_ctx \<Rightarrow> 'w inbox_ctx \<Rightarrow> bool" where
  "runs_finalize e caller call c c' \<longleftrightarrow> (\<exists>h. finalize_withdrawal_batch e caller call c = (Inr h, c'))"

definition executor_laws ::
  "'w zone_env \<Rightarrow> ('tr, 'st, 'mp) sparse_ops \<Rightarrow> ('s, 'x, 'n, 'r, 'e, 'v, 'tr) replay_ops \<Rightarrow> ('s \<Rightarrow> zone_view)
   \<Rightarrow> ('x \<Rightarrow> zone_view) \<Rightarrow> ('x \<Rightarrow> 'w zone_env) \<Rightarrow> bool" where
  "executor_laws env sp ops view xview xenv \<longleftrightarrow>
     frame_laws env sp ops view xview xenv \<and>
     system_law ops xview xenv ZONE_INBOX_ADDRESS (rp_encode_advance_tempo ops) runs_advance_tempo \<and>
     system_law ops xview xenv ZONE_INBOX_ADDRESS (rp_encode_advance_tempo_headers ops) runs_advance_tempo_headers \<and>
     system_law ops xview xenv ZONE_OUTBOX_ADDRESS (rp_encode_finalize ops) runs_finalize \<and>
     user_law ops xview xenv"

definition assembler_law :: "('s, 'x, 'n, 'r, 'e, 'v, 'tr) replay_ops \<Rightarrow> bool" where
  "assembler_law ops \<longleftrightarrow>
     (\<forall>parent block v ctx txs y s root header.
        rp_next_evm_env ops parent (next_block_env_attributes ops parent block) = Some v \<longrightarrow>
        rp_assemble ops v ctx parent txs y s root = Some header \<longrightarrow>
        th_parent_hash header = xc_parent_hash ctx \<and> th_number header = th_number parent + 1 \<and>
        th_state_root header = root \<and> th_timestamp header = zb_timestamp block \<and>
        th_timestamp_millis_part header = zb_timestamp_millis_part block)"

section \<open>User transactions\<close>

text \<open>What user transactions leave alone.\<close>

definition user_frame :: "zone_view \<Rightarrow> zone_view \<Rightarrow> bool" where
  "user_frame v v' \<longleftrightarrow>
     zv_tempo v' = zv_tempo v \<and>
     processed_deposit_queue_hash (zv_inbox v') = processed_deposit_queue_hash (zv_inbox v) \<and>
     processed_deposit_number (zv_inbox v') = processed_deposit_number (zv_inbox v) \<and>
     last_batch (zv_outbox v') = last_batch (zv_outbox v)"

lemma queue_frame_user: "queue_frame c c' \<Longrightarrow> user_frame (ctx_view c) (ctx_view c')"
  by (simp add: queue_frame_def user_frame_def ctx_view_def)

lemmas l1_frame = preserves_mono [OF _ l1_only_queue_frame]

lemma frame_outbox_calls:
  fixes env :: "'w zone_env"
  shows "preserves queue_frame (request_withdrawal env caller payer tx_hash rq :: ('w, 'x inbox_ctx_ext, unit) outbox_eff)"
    and "preserves queue_frame (set_tempo_gas_rate env caller rate :: ('w, 'x inbox_ctx_ext, unit) outbox_eff)"
    and "preserves queue_frame (set_max_withdrawals_per_block env caller limit :: ('w, 'x inbox_ctx_ext, unit) outbox_eff)"
    and "preserves queue_frame (claim_refund env caller token :: ('w, 'x, u128) inbox_eff)"
  unfolding request_withdrawal_def set_tempo_gas_rate_def set_max_withdrawals_per_block_def claim_refund_def
    enforce_withdrawal_block_cap_def transfer_and_burn_def calculate_fee_unchecked_def enqueue_def
    validate_gas_limit_def Let_def
  by (auto intro!: preserves_intros frame_steps frame_try_mint frame_set_refund
      l1_frame [OF preserves_read_portal] l1_frame [OF preserves_ensure_sequencer]
      l1_frame [OF preserves_validate_withdrawal_policy] simp: last_batch_def)

lemma user_call_frame: "user_call env c c' \<Longrightarrow> user_frame (ctx_view c) (ctx_view c')"
proof (induction rule: user_call.induct)
  case (request caller payer tx_hash rq c c')
  show ?case by (rule queue_frame_user [OF preservesD [OF frame_outbox_calls(1) request(2)]])
next
  case (gas_rate caller rate c c')
  show ?case by (rule queue_frame_user [OF preservesD [OF frame_outbox_calls(2) gas_rate(2)]])
next
  case (max_withdrawals caller limit c c')
  show ?case by (rule queue_frame_user [OF preservesD [OF frame_outbox_calls(3) max_withdrawals(2)]])
next
  case (refund caller token c amount c')
  show ?case by (rule queue_frame_user [OF preservesD [OF frame_outbox_calls(4) refund(2)]])
next
  case (finalize caller fb c h c')
  then show ?case by (auto dest: finalize_Inr)
next
  case (advance caller at c c')
  then show ?case by (auto dest: advance_tempo_frame)
qed (auto simp: advance_tempo_headers_def user_frame_def ctx_view_def)

lemma user_calls_frame: "(user_call env)\<^sup>*\<^sup>* c c' \<Longrightarrow> user_frame (ctx_view c) (ctx_view c')"
  by (induction rule: rtranclp_induct) (auto simp: user_frame_def dest: user_call_frame)

section \<open>One block\<close>

lemma block_env_simps [simp]:
  "headers_linked (block_env env sp td parent block t13) = headers_linked env"
  "decode_deposits (block_env env sp td parent block t13) = decode_deposits env"
  "deposit_chain (block_env env sp td parent block t13) = deposit_chain env"
  "batch_hash (block_env env sp td parent block t13) = batch_hash env"
  "ze_keccak (block_env env sp td parent block t13) = ze_keccak env"
  "ze_portal (block_env env sp td parent block t13) = ze_portal env"
  "ze_layout (block_env env sp td parent block t13) = ze_layout env"
  by (simp_all add: block_env_def fun_eq_iff headers_linked_def decode_exact_def decode_deposits_def
      decode_deposit_def [abs_def] deposit_chain_def deposit_hash_with_tail_def [abs_def] batch_hash_def [abs_def] cong: DepositType.case_cong)

text \<open>The effect of the opening system transaction on the view.\<close>

definition checkpoint_effect :: "'w zone_env \<Rightarrow> bytes list \<Rightarrow> zone_view \<Rightarrow> zone_view \<Rightarrow> bool" where
  "checkpoint_effect env headers v v' \<longleftrightarrow> headers \<noteq> [] \<and>
     headers_linked env (tempo_block_hash (zv_tempo v)) (tempo_block_number (zv_tempo v)) headers \<and>
     tempo_block_hash (zv_tempo v') = ze_keccak env (last headers) \<and>
     unat (tempo_block_number (zv_tempo v')) = unat (tempo_block_number (zv_tempo v)) + length headers"

definition deposit_effect :: "'w zone_env \<Rightarrow> QueuedDeposit list \<Rightarrow> zone_view \<Rightarrow> zone_view \<Rightarrow> bool" where
  "deposit_effect env deposits v v' \<longleftrightarrow> (\<exists>ds. decode_deposits env deposits = Inr ds \<and>
     processed_deposit_queue_hash (zv_inbox v') = deposit_chain env ds (processed_deposit_queue_hash (zv_inbox v)) \<and>
     unat (processed_deposit_number (zv_inbox v')) = unat (processed_deposit_number (zv_inbox v)) + length ds)"

text \<open>The portal's queue hash, read at the checkpoint, is the processed one.\<close>

definition portal_synced :: "'w zone_env \<Rightarrow> zone_view \<Rightarrow> bool" where
  "portal_synced env v \<longleftrightarrow> (ze_portal env \<noteq> 0 \<longrightarrow> (\<exists>word.
     ze_reader env (ze_portal env) (fst (pl_current_deposit_queue_hash (ze_layout env)))
       (tempo_block_number (zv_tempo v)) = Inr word \<and>
     snd (pl_current_deposit_queue_hash (ze_layout env)) word = Inr (processed_deposit_queue_hash (zv_inbox v))))"

lemma advance_tempo_view:
  assumes "advance_tempo env caller call c = (Inr (), c')"
  shows "checkpoint_effect env [at_header call] (ctx_view c) (ctx_view c')"
    and "deposit_effect env (at_deposits call) (ctx_view c) (ctx_view c')"
    and "portal_synced env (ctx_view c')"
    and "last_batch (zv_outbox (ctx_view c')) = last_batch (zv_outbox (ctx_view c))"
  using advance_tempo_effect [OF assms] advance_tempo_frame [OF assms]
  by (auto simp: checkpoint_effect_def deposit_effect_def portal_synced_def ctx_view_def)

lemma advance_tempo_headers_view:
  assumes "advance_tempo_headers env caller hs c = (Inr (), c')"
  shows "checkpoint_effect env hs (ctx_view c) (ctx_view c') \<and>
    zv_inbox (ctx_view c') = zv_inbox (ctx_view c) \<and> zv_outbox (ctx_view c') = zv_outbox (ctx_view c)"
  using assms finalize_checkpoints_links [of env hs c c'] finalize_checkpoint_frame [of env hs c c']
  by (simp add: advance_tempo_headers_def checkpoint_effect_def ctx_view_def)

lemma execute_recovered_Inr:
  assumes "execute_recovered_transaction ops tx err req x = (Inr (), x')"
  obtains r where "executed ops tx (bx_inner x) r (bx_inner x')" "req \<Longrightarrow> rp_is_success ops r"
  using assms
  by (auto simp: execute_recovered_transaction_def execute_transaction_without_commit_def commit_transaction_def
      executed_def emap_err_def ebind_def eseq_def echeck_def emodify_def efail_def ereturn_def map_err_def rbind_def
      split: sum.splits prod.splits if_splits)

text \<open>What the executor's laws say of the transactions of the replay.\<close>

lemma system_transaction_runs:
  assumes "system_law ops xview xenv callee encode run"
    and "eseq (execute_recovered_transaction ops (rp_system_transaction ops chain callee (encode call),
        rp_system_tx_sender ops) err True) (ereturn y) x = (Inr y', x')"
  shows "runs_call xview xenv (\<lambda>e. run e (rp_system_tx_sender ops) call) (bx_inner x) (bx_inner x')"
proof -
  from assms(2) have "execute_recovered_transaction ops (rp_system_transaction ops chain callee (encode call),
      rp_system_tx_sender ops) err True x = (Inr (), x')"
    by (auto simp: eseq_def ebind_def ereturn_def split: prod.splits sum.splits)
  then obtain r where "executed ops (rp_system_transaction ops chain callee (encode call), rp_system_tx_sender ops)
      (bx_inner x) r (bx_inner x')" "rp_is_success ops r"
    by (rule execute_recovered_Inr) simp
  then show ?thesis using assms(1) unfolding system_law_def by blast
qed

lemma user_transaction_runs:
  assumes laws: "user_law ops xview xenv"
    and tx: "\<not> rp_is_system_tx ops (fst tx)" "rp_recover ops (fst tx) = Some (snd tx)"
    and run: "execute_recovered_transaction ops tx err False x = (Inr (), x')"
  shows "xenv (bx_inner x') = xenv (bx_inner x) \<and> user_frame (xview (bx_inner x)) (xview (bx_inner x'))"
proof -
  from run obtain r where "executed ops (fst tx, snd tx) (bx_inner x) r (bx_inner x')"
    by (rule execute_recovered_Inr) simp
  then have "runs_call xview xenv (\<lambda>e. (user_call e)\<^sup>*\<^sup>*) (bx_inner x) (bx_inner x')"
    using laws tx unfolding user_law_def by blast
  then obtain c c' where "(user_call (xenv (bx_inner x)))\<^sup>*\<^sup>* c c'" "xenv (bx_inner x') = xenv (bx_inner x)"
    "ctx_view c = xview (bx_inner x)" "ctx_view c' = xview (bx_inner x')"
    by (auto simp: runs_call_def)
  then show ?thesis using user_calls_frame [of "xenv (bx_inner x)" c c'] by simp
qed

text \<open>The import, seen from the executor.\<close>

definition import_effect :: "'w zone_env \<Rightarrow> SpfImport \<Rightarrow> zone_view \<Rightarrow> zone_view \<Rightarrow> bool" where
  "import_effect env import v v' \<longleftrightarrow> checkpoint_effect env (headers_rlp import) v v' \<and>
     deposit_effect env (import_deposits import) v v' \<and>
     ((\<exists>h ds decs ts. import = SpfFull h ds decs ts) \<longrightarrow> portal_synced env v') \<and>
     last_batch (zv_outbox v') = last_batch (zv_outbox v)"

lemma execute_import_effect:
  assumes adv: "system_law ops xview xenv ZONE_INBOX_ADDRESS (rp_encode_advance_tempo ops) runs_advance_tempo"
    and hdr: "system_law ops xview xenv ZONE_INBOX_ADDRESS (rp_encode_advance_tempo_headers ops)
        runs_advance_tempo_headers"
    and run: "execute_import ops import i chain x = (Inr tx, x')"
  shows "xenv (bx_inner x') = xenv (bx_inner x) \<and>
    import_effect (xenv (bx_inner x)) import (xview (bx_inner x)) (xview (bx_inner x'))"
proof (cases import)
  case (SpfFull h ds decs ts)
  let ?call = "\<lparr>at_header = h, at_deposits = ds, at_decryptions = decs, at_enabledTokens = ts\<rparr>"
  have "execute_advance_tempo ops ?call i chain x = (Inr tx, x')"
    using run SpfFull by (simp add: execute_import_def)
  from system_transaction_runs [OF adv this [unfolded execute_advance_tempo_def Let_def]]
  obtain c c' where env': "xenv (bx_inner x') = xenv (bx_inner x)" and v: "ctx_view c = xview (bx_inner x)"
    "ctx_view c' = xview (bx_inner x')"
    and call: "advance_tempo (xenv (bx_inner x)) (rp_system_tx_sender ops) ?call c = (Inr (), c')"
    unfolding runs_call_def runs_advance_tempo_def by blast
  show ?thesis using advance_tempo_view [OF call] env' SpfFull by (simp add: import_effect_def v)
next
  case (SpfCheckpointOnly hs)
  have "execute_advance_tempo_headers ops hs i chain x = (Inr tx, x')"
    using run SpfCheckpointOnly by (simp add: execute_import_def)
  from system_transaction_runs [OF hdr this [unfolded execute_advance_tempo_headers_def Let_def]]
  obtain c c' where env': "xenv (bx_inner x') = xenv (bx_inner x)" and v: "ctx_view c = xview (bx_inner x)"
    "ctx_view c' = xview (bx_inner x')"
    and call: "advance_tempo_headers (xenv (bx_inner x)) (rp_system_tx_sender ops) hs c = (Inr (), c')"
    unfolding runs_call_def runs_advance_tempo_headers_def by blast
  show ?thesis
    using advance_tempo_headers_view [OF call] env' SpfCheckpointOnly
    by (simp add: import_effect_def deposit_effect_def decode_deposits_def deposit_chain_def v)
qed

lemma decode_user_transactions_ok:
  assumes "decode_user_transactions ops i encoded = Inr txs" and "tx \<in> set txs"
  shows "\<not> rp_is_system_tx ops (fst tx) \<and> rp_recover ops (fst tx) = Some (snd tx)"
proof -
  have "try_map (decode_user_transaction ops i) es = Inr txs \<Longrightarrow> tx \<in> set txs \<Longrightarrow> ?thesis" for es
    by (induction es arbitrary: txs) (auto simp: decode_user_transaction_def split: prod.splits)
  then show ?thesis using assms by (auto simp: decode_user_transactions_def)
qed

lemma execute_user_transactions_effect:
  assumes law: "user_law ops xview xenv"
    and ok: "\<forall>tx \<in> set txs. \<not> rp_is_system_tx ops (fst tx) \<and> rp_recover ops (fst tx) = Some (snd tx)"
    and run: "execute_user_transactions ops i txs x = (Inr out, x')"
  shows "xenv (bx_inner x') = xenv (bx_inner x) \<and> user_frame (xview (bx_inner x)) (xview (bx_inner x'))"
proof -
  have "efold (execute_user_transaction ops i) (List.enumerate k txs) acc x = (Inr out, x') \<Longrightarrow> ?thesis" for k acc
    using ok
  proof (induction txs arbitrary: k acc x)
    case Nil
    then show ?case by (simp add: user_frame_def)
  next
    case (Cons tx txs)
    from Cons.prems(1) obtain x1 acc1 where
      step: "execute_recovered_transaction ops tx (TransactionExecution i k) False x = (Inr (), x1)"
      and rest: "efold (execute_user_transaction ops i) (List.enumerate (Suc k) txs) acc1 x1 = (Inr out, x')"
      by (auto simp: execute_user_transaction_def [where ops = ops and block_index = i])
    show ?case
      using user_transaction_runs [OF law _ _ step] Cons.IH [OF rest] Cons.prems(2)
      by (simp add: user_frame_def)
  qed
  then show ?thesis using run by (simp add: execute_user_transactions_def)
qed

text \<open>The effect of a finalization and of a whole block.\<close>

definition finalize_effect :: "'w zone_env \<Rightarrow> bytes list \<Rightarrow> zone_view \<Rightarrow> zone_view \<Rightarrow> bool" where
  "finalize_effect env senders v v' \<longleftrightarrow> zv_tempo v' = zv_tempo v \<and> zv_inbox v' = zv_inbox v \<and>
     length senders = length (pending_withdrawals (zv_outbox v)) \<and>
     batch_hash env (pending_withdrawals (zv_outbox v)) senders = Inr (withdrawal_queue_hash (zv_outbox v')) \<and>
     unat (withdrawal_batch_index (zv_outbox v')) = unat (withdrawal_batch_index (zv_outbox v)) + 1 \<and>
     pending_withdrawals (zv_outbox v') = []"

definition block_effect :: "'w zone_env \<Rightarrow> ZoneBlock \<Rightarrow> zone_view \<Rightarrow> zone_view \<Rightarrow> bool" where
  "block_effect env block v v' \<longleftrightarrow> (\<exists>v1 v2.
     import_effect env (zb_tempo_import block) v v1 \<and> user_frame v1 v2 \<and>
     (if zb_finalize_withdrawal_batch_count block = None then v' = v2
      else finalize_effect env (zb_finalize_withdrawal_batch_encrypted_senders block) v2 v'))"

lemma finalize_view:
  assumes "finalize_withdrawal_batch env caller call c = (Inr h, c')"
  shows "finalize_effect env (fb_encryptedSenders call) (ctx_view c) (ctx_view c')"
  using finalize_Inr [OF assms]
  by (auto simp: finalize_effect_def ctx_view_def unat_word_ariths)

lemma execute_finalize_effect:
  assumes law: "system_law ops xview xenv ZONE_OUTBOX_ADDRESS (rp_encode_finalize ops) runs_finalize"
    and run: "execute_finalize_withdrawal_batch ops count number senders i chain x = (Inr tx, x')"
  shows "xenv (bx_inner x') = xenv (bx_inner x) \<and>
    finalize_effect (xenv (bx_inner x)) senders (xview (bx_inner x)) (xview (bx_inner x'))"
proof -
  from system_transaction_runs [OF law run [unfolded execute_finalize_withdrawal_batch_def Let_def]]
  obtain c c' h where env': "xenv (bx_inner x') = xenv (bx_inner x)" and v: "ctx_view c = xview (bx_inner x)"
    "ctx_view c' = xview (bx_inner x')"
    and call: "finalize_withdrawal_batch (xenv (bx_inner x)) (rp_system_tx_sender ops)
      \<lparr>fb_count = count, fb_blockNumber = number, fb_encryptedSenders = senders\<rparr> c = (Inr h, c')"
    unfolding runs_call_def runs_finalize_def by blast
  show ?thesis using finalize_view [OF call] env' by (simp add: v)
qed

lemma pre_execution_effect:
  assumes "frame_laws env sp ops view xview xenv" and "apply_pre_execution_changes (rp_inner ops) x = (Inr (), x')"
  shows "xview (bx_inner x') = xview (bx_inner x) \<and> xenv (bx_inner x') = xenv (bx_inner x)"
proof -
  from assms(2) obtain s where "in_apply_pre_execution_changes (rp_inner ops) (bx_inner x) = (Inr (), s)"
    "x' = x\<lparr>bx_inner := s\<rparr>"
    by (auto simp: apply_pre_execution_changes_def on_bx_inner_def)
  then show ?thesis using assms(1) by (simp add: frame_laws_def)
qed

lemma executor_lawsD:
  assumes "executor_laws env sp ops view xview xenv"
  shows "frame_laws env sp ops view xview xenv"
    and "system_law ops xview xenv ZONE_INBOX_ADDRESS (rp_encode_advance_tempo ops) runs_advance_tempo"
    and "system_law ops xview xenv ZONE_INBOX_ADDRESS (rp_encode_advance_tempo_headers ops) runs_advance_tempo_headers"
    and "system_law ops xview xenv ZONE_OUTBOX_ADDRESS (rp_encode_finalize ops) runs_finalize"
    and "user_law ops xview xenv"
  using assms by (simp_all add: executor_laws_def)

lemma run_transactions_effect:
  assumes laws: "executor_laws env sp ops view xview xenv"
    and ok: "\<forall>tx \<in> set txs. \<not> rp_is_system_tx ops (fst tx) \<and> rp_recover ops (fst tx) = Some (snd tx)"
    and run: "run_transactions ops i chain block txs x = (Inr out, x')"
  shows "block_effect (xenv (bx_inner x)) block (xview (bx_inner x)) (xview (bx_inner x'))"
proof -
  note L = executor_lawsD [OF laws]
  from run obtain x1 x2 x3 first_tx done_txs where
    pre: "apply_pre_execution_changes (rp_inner ops) x = (Inr (), x1)"
    and imp: "execute_import ops (zb_tempo_import block) i chain x1 = (Inr first_tx, x2)"
    and users: "execute_user_transactions ops i txs x2 = (Inr done_txs, x3)"
    and fin: "case zb_finalize_withdrawal_batch_count block of
        None \<Rightarrow> x' = x3
      | Some count \<Rightarrow> \<exists>closing. execute_finalize_withdrawal_batch ops count (zb_number block)
          (zb_finalize_withdrawal_batch_encrypted_senders block) i chain x3 = (Inr closing, x')"
    by (auto simp: run_transactions_def split: option.splits)
  note p = pre_execution_effect [OF L(1) pre]
    and m = execute_import_effect [OF L(2,3) imp]
    and u = execute_user_transactions_effect [OF L(5) ok users]
  have f: "if zb_finalize_withdrawal_batch_count block = None then xview (bx_inner x') = xview (bx_inner x3)
      else finalize_effect (xenv (bx_inner x3)) (zb_finalize_withdrawal_batch_encrypted_senders block)
        (xview (bx_inner x3)) (xview (bx_inner x'))"
    using fin execute_finalize_effect [OF L(4)] by (auto split: option.splits)
  show ?thesis
    unfolding block_effect_def
    by (rule exI [of _ "xview (bx_inner x2)"], rule exI [of _ "xview (bx_inner x3)"]) (use p m u f in \<open>auto split: if_splits\<close>)
qed

lemma prepare_block_Inr:
  assumes "prepare_block ops parent i block s = Inr (txs, v, s')"
  shows "decode_user_transactions ops i (zb_transactions block) = Inr txs \<and>
    rp_next_evm_env ops parent (next_block_env_attributes ops parent block) = Some v \<and>
    (\<exists>n. s' = rp_insert_block_hash ops n (zb_parent_hash block) s)"
  using assms by (auto simp: prepare_block_def note_parent_hash_def split: option.splits if_splits)

lemma executor_finish_Inr: "executor_finish ix x = Inr y \<Longrightarrow> in_finish ix (bx_inner x) = Inr y"
  by (auto simp: executor_finish_def map_err_def split: sum.splits)

lemma execute_zone_block_effect:
  assumes laws: "executor_laws env sp ops view xview xenv" and st: "state_laws sp ops slots view"
    and run: "execute_zone_block ops td parent i block s missing = (Inr (ez, s'), missing')"
  shows "rp_next_evm_env ops parent (next_block_env_attributes ops parent block) = Some (ez_evm_env ez)"
    and "\<exists>t13. block_effect (block_env env sp td parent block t13) block (view s) (view s')"
proof -
  from run obtain txs v s1 where prep: "prepare_block ops parent i block s = Inr (txs, v, s1)"
    by (auto simp: execute_zone_block_def split: sum.splits)
  define x0 where "x0 = rp_create_executor ops v td (next_block_execution_context ops block) missing s1"
  from run prep obtain out x y where
    go: "run_transactions ops i (rp_env_chain_id ops v) block txs (executor_new x0) = (Inr out, x)"
    and fin: "executor_finish (rp_inner ops) x = Inr y"
    and ez: "ez_evm_env ez = v" and s': "s' = rp_merge_transitions ops (rp_into_state ops y)"
    by (auto simp: execute_zone_block_def x0_def split: sum.splits prod.splits)
  note p = prepare_block_Inr [OF prep]
  then show "rp_next_evm_env ops parent (next_block_env_attributes ops parent block) = Some (ez_evm_env ez)"
    using ez by simp
  have fr: "frame_laws env sp ops view xview xenv" using executor_lawsD(1) [OF laws] .
  obtain t13 where x0: "xview x0 = view s1" "xenv x0 = block_env env sp td parent block t13"
    using fr p unfolding frame_laws_def x0_def by blast
  have "\<forall>tx \<in> set txs. \<not> rp_is_system_tx ops (fst tx) \<and> rp_recover ops (fst tx) = Some (snd tx)"
    using decode_user_transactions_ok p by blast
  from run_transactions_effect [OF laws this go]
  have "block_effect (xenv x0) block (xview x0) (xview (bx_inner x))" by (simp add: executor_new_def)
  moreover have "view s' = xview (bx_inner x)"
    using fr executor_finish_Inr [OF fin] st unfolding frame_laws_def state_laws_def s' by simp
  moreover have "view s1 = view s" using p st by (auto simp: state_laws_def)
  ultimately show "\<exists>t13. block_effect (block_env env sp td parent block t13) block (view s) (view s')"
    using x0 by auto
qed

text \<open>Everything a successfully replayed block tells.\<close>

definition block_replayed ::
  "'w zone_env \<Rightarrow> ('tr, 'st, 'mp) sparse_ops \<Rightarrow> ('s, 'x, 'n, 'r, 'e, 'v, 'tr) replay_ops \<Rightarrow> ('s \<Rightarrow> zone_view) \<Rightarrow> nat
   \<Rightarrow> nat \<times> ZoneBlock \<Rightarrow> ('s, 'tr) replay_state \<Rightarrow> ('s, 'tr) replay_state \<Rightarrow> bool" where
  "block_replayed env sp ops view block_count ib st st' \<longleftrightarrow>
     validate_block ops block_count (fst ib) (snd ib) (rs_header st) = Inr () \<and>
     with_imported_checkpoint sp env (last (headers_rlp (zb_tempo_import (snd ib)))) (rs_tempo st) = Inr (rs_tempo st') \<and>
     (\<exists>t13. block_effect (block_env env sp (rs_tempo st') (rs_header st) (snd ib) t13) (snd ib)
        (view (rs_zone st)) (view (rs_zone st'))) \<and>
     th_parent_hash (rs_header st') = zb_parent_hash (snd ib) \<and>
     th_number (rs_header st') = th_number (rs_header st) + 1 \<and>
     th_timestamp (rs_header st') = zb_timestamp (snd ib) \<and>
     th_timestamp_millis_part (rs_header st') = zb_timestamp_millis_part (snd ib)"

lemma replay_block_Inr:
  assumes laws: "executor_laws env sp ops view xview xenv" "state_laws sp ops slots view" "assembler_law ops"
    and run: "replay_block env sp ops block_count ib st = Inr st'"
  shows "block_replayed env sp ops view block_count ib st st'"
proof -
  obtain i block where ib: "ib = (i, block)" by (cases ib)
  from run ib obtain td where val: "validate_block ops block_count i block (rs_header st) = Inr ()"
    and td: "with_imported_checkpoint sp env (last (headers_rlp (zb_tempo_import block))) (rs_tempo st) = Inr td"
    by (auto simp: replay_block_def map_err_def split: sum.splits)
  from run ib val td obtain ez s missing root s2 header where
    go: "execute_zone_block ops td (rs_header st) i block (rs_zone st) (rs_missing st) = (Inr (ez, s), missing)"
    and root: "advance_state_root sp ops s = Inr (root, s2)"
    and asm: "rp_assemble ops (ez_evm_env ez) (next_block_execution_context ops block) (rs_header st)
        (ez_transactions ez) (ez_output ez) s2 root = Some header"
    and st': "st' = \<lparr>rs_header = header, rs_tempo = td, rs_zone = s2, rs_missing = missing\<rparr>"
    by (auto simp: replay_block_def map_err_def split: sum.splits prod.splits)
  note e = execute_zone_block_effect [OF laws(1,2) go]
  have "view s2 = view s"
    using root laws(2) by (auto simp: advance_state_root_def state_laws_def split: prod.splits sum.splits)
  moreover have "th_parent_hash header = zb_parent_hash block \<and> th_number header = th_number (rs_header st) + 1 \<and>
      th_timestamp header = zb_timestamp block \<and> th_timestamp_millis_part header = zb_timestamp_millis_part block"
    using laws(3) e(1) asm unfolding assembler_law_def by (fastforce simp: next_block_execution_context_def)
  ultimately show ?thesis using e(2) val td by (simp add: block_replayed_def ib st')
qed

section \<open>A batch of blocks\<close>

definition tempo_path :: "'w zone_env \<Rightarrow> bytes list \<Rightarrow> zone_view \<Rightarrow> zone_view \<Rightarrow> bool" where
  "tempo_path env headers v v' \<longleftrightarrow>
     headers_linked env (tempo_block_hash (zv_tempo v)) (tempo_block_number (zv_tempo v)) headers \<and>
     tempo_block_hash (zv_tempo v') = (if headers = [] then tempo_block_hash (zv_tempo v) else ze_keccak env (last headers)) \<and>
     unat (tempo_block_number (zv_tempo v')) = unat (tempo_block_number (zv_tempo v)) + length headers"

lemma headers_linked_append:
  assumes "headers_linked env h n xs" and "headers_linked env h' n' ys"
    and "h' = (if xs = [] then h else ze_keccak env (last xs))" and "unat n' = unat n + length xs"
  shows "headers_linked env h n (xs @ ys)"
  using assms
proof (induction xs arbitrary: h n)
  case Nil
  then have "n' = n" by (simp add: word_unat_eq_iff)
  then show ?case using Nil by simp
next
  case (Cons r rs)
  from Cons.prems(1) obtain hd where hd: "decode_exact env r = Some hd" "th_parent_hash hd = h"
    "unat (th_number hd) = unat n + 1" and rest: "headers_linked env (ze_keccak env r) (th_number hd) rs"
    by (auto simp: headers_linked_Cons)
  have "headers_linked env (ze_keccak env r) (th_number hd) (rs @ ys)"
    using Cons.IH [OF rest Cons.prems(2)] Cons.prems(3,4) hd(3) by simp
  then show ?case using hd by (auto simp: headers_linked_Cons)
qed

lemma tempo_path_trans: "tempo_path env xs v v1 \<Longrightarrow> tempo_path env ys v1 v2 \<Longrightarrow> tempo_path env (xs @ ys) v v2"
  using headers_linked_append [of env "tempo_block_hash (zv_tempo v)" "tempo_block_number (zv_tempo v)" xs
      "tempo_block_hash (zv_tempo v1)" "tempo_block_number (zv_tempo v1)" ys]
  by (auto simp: tempo_path_def)

lemma try_map_append:
  "try_map f xs = Inr ys \<Longrightarrow> try_map f xs' = Inr ys' \<Longrightarrow> try_map f (xs @ xs') = Inr (ys @ ys')"
  by (induction xs arbitrary: ys) auto

lemma deposit_effect_trans:
  assumes "deposit_effect env xs v v1" and "deposit_effect env ys v1 v2"
  shows "deposit_effect env (xs @ ys) v v2"
proof -
  from assms obtain ds es where "decode_deposits env xs = Inr ds" "decode_deposits env ys = Inr es"
    "processed_deposit_queue_hash (zv_inbox v2) =
       deposit_chain env es (deposit_chain env ds (processed_deposit_queue_hash (zv_inbox v)))"
    "unat (processed_deposit_number (zv_inbox v2)) =
       unat (processed_deposit_number (zv_inbox v)) + length (ds @ es)"
    by (auto simp: deposit_effect_def)
  then show ?thesis
    by (auto simp: deposit_effect_def decode_deposits_def try_map_append deposit_chain_def intro!: exI [of _ "ds @ es"])
qed

text \<open>The block effect without the environment of the block.\<close>

lemma import_effect_block_env:
  assumes "import_effect (block_env env sp td parent block t13) import v v'"
  shows "tempo_path env (headers_rlp import) v v' \<and> deposit_effect env (import_deposits import) v v' \<and>
    last_batch (zv_outbox v') = last_batch (zv_outbox v)"
  using assms by (auto simp: import_effect_def checkpoint_effect_def deposit_effect_def tempo_path_def)

lemma block_effect_path:
  assumes "block_effect (block_env env sp td parent block t13) block' v v'"
  shows "tempo_path env (headers_rlp (zb_tempo_import block')) v v'"
    and "deposit_effect env (import_deposits (zb_tempo_import block')) v v'"
    and "zb_finalize_withdrawal_batch_count block' = None \<Longrightarrow> last_batch (zv_outbox v') = last_batch (zv_outbox v)"
proof -
  from assms obtain v1 v2 where
    i: "import_effect (block_env env sp td parent block t13) (zb_tempo_import block') v v1" and u: "user_frame v1 v2"
    and f: "if zb_finalize_withdrawal_batch_count block' = None then v' = v2
      else finalize_effect (block_env env sp td parent block t13)
        (zb_finalize_withdrawal_batch_encrypted_senders block') v2 v'"
    by (auto simp: block_effect_def)
  have same: "zv_tempo v' = zv_tempo v1" "processed_deposit_queue_hash (zv_inbox v') = processed_deposit_queue_hash (zv_inbox v1)"
    "processed_deposit_number (zv_inbox v') = processed_deposit_number (zv_inbox v1)"
    using u f by (auto simp: user_frame_def finalize_effect_def split: if_splits)
  note i' = import_effect_block_env [OF i]
  show "tempo_path env (headers_rlp (zb_tempo_import block')) v v'"
    and "deposit_effect env (import_deposits (zb_tempo_import block')) v v'"
    using i' same by (auto simp: tempo_path_def deposit_effect_def)
  show "zb_finalize_withdrawal_batch_count block' = None \<Longrightarrow> last_batch (zv_outbox v') = last_batch (zv_outbox v)"
    using i' u f by (simp add: user_frame_def)
qed

definition batch_effect :: "'w zone_env \<Rightarrow> ZoneBlock list \<Rightarrow> zone_view \<Rightarrow> zone_view \<Rightarrow> bool" where
  "batch_effect env blocks v v' \<longleftrightarrow>
     tempo_path env (concat (map (\<lambda>b. headers_rlp (zb_tempo_import b)) blocks)) v v' \<and>
     deposit_effect env (concat (map (\<lambda>b. import_deposits (zb_tempo_import b)) blocks)) v v' \<and>
     (list_all (\<lambda>b. zb_finalize_withdrawal_batch_count b = None) blocks \<longrightarrow>
        last_batch (zv_outbox v') = last_batch (zv_outbox v))"

lemma batch_effect_Nil [simp]: "batch_effect env [] v v"
  by (simp add: batch_effect_def tempo_path_def deposit_effect_def decode_deposits_def deposit_chain_def)

lemma batch_effect_Cons:
  assumes "block_effect (block_env env sp td parent block t13) b v v1" and "batch_effect env blocks v1 v'"
  shows "batch_effect env (b # blocks) v v'"
  using assms(2) block_effect_path [OF assms(1)] by (auto simp: batch_effect_def intro: tempo_path_trans deposit_effect_trans)

lemma batch_path:
  assumes laws: "executor_laws env sp ops view xview xenv" "state_laws sp ops slots view" "assembler_law ops"
    and run: "try_fold (replay_block env sp ops block_count) (List.enumerate k blocks) st = Inr st'"
  shows "batch_effect env blocks (view (rs_zone st)) (view (rs_zone st'))"
proof -
  have "batch_effect env (map snd es) (view (rs_zone st)) (view (rs_zone st'))"
    if "try_fold (replay_block env sp ops block_count) es st = Inr st'" for es
    using that
  proof (induction es arbitrary: st)
    case (Cons e es)
    from Cons.prems obtain st1 where step: "replay_block env sp ops block_count e st = Inr st1"
      and rest: "try_fold (replay_block env sp ops block_count) es st1 = Inr st'" by auto
    obtain t13 where "block_effect (block_env env sp (rs_tempo st1) (rs_header st) (snd e) t13) (snd e)
        (view (rs_zone st)) (view (rs_zone st1))"
      using replay_block_Inr [OF laws step] unfolding block_replayed_def by blast
    then show ?case using Cons.IH [OF rest] by (simp add: batch_effect_Cons)
  qed simp
  from this [OF run] show ?thesis by simp
qed

text \<open>The headers of the replayed blocks: each links to its predecessor and time does not go back.\<close>

definition header_millis :: "('a) TempoHeader_scheme \<Rightarrow> nat" where
  "header_millis h = unat (th_timestamp h) * 1000 + unat (th_timestamp_millis_part h)"

fun zone_chain ::
  "('s, 'x, 'n, 'r, 'e, 'v, 'tr) replay_ops \<Rightarrow> ZoneHeader \<Rightarrow> ZoneBlock list \<Rightarrow> ZoneHeader list \<Rightarrow> bool" where
  "zone_chain ops parent [] headers \<longleftrightarrow> headers = []"
| "zone_chain ops parent (block # blocks) headers \<longleftrightarrow> (\<exists>h hs. headers = h # hs \<and>
     th_parent_hash h = rp_hash ops parent \<and> zb_parent_hash block = rp_hash ops parent \<and>
     th_number h = zb_number block \<and> unat (th_number h) = unat (th_number parent) + 1 \<and>
     header_millis parent \<le> header_millis h \<and> zone_chain ops h blocks hs)"

lemma timestamp_millis_Some:
  "timestamp_millis seconds millis = Some t \<Longrightarrow> unat t = unat seconds * 1000 + unat millis"
  by (auto simp: timestamp_millis_def checked_mul_def checked_add_def unat_word_ariths split: if_splits bind_splits)

lemma validate_block_Inr:
  assumes "validate_block ops n i block parent = Inr ()"
  shows "zb_parent_hash block = rp_hash ops parent" and "unat (zb_number block) = unat (th_number parent) + 1"
    and "header_millis parent \<le> unat (zb_timestamp block) * 1000 + unat (zb_timestamp_millis_part block)"
    and "validate_batch_block_shape block (i + 1 = n) = Inr ()"
  using assms
  by (auto simp: validate_block_def Let_def validate_zone_block_timestamp_def header_millis_def checked_succ_iff not_less
      word_le_nat_alt dest!: timestamp_millis_Some)

lemma block_replayed_header:
  assumes "block_replayed env sp ops view n ib st st'"
  shows "zone_chain ops (rs_header st) [snd ib] [rs_header st']"
proof -
  have v: "validate_block ops n (fst ib) (snd ib) (rs_header st) = Inr ()"
    using assms by (simp add: block_replayed_def)
  note V = validate_block_Inr [OF v]
  have "zb_number (snd ib) = th_number (rs_header st) + 1"
    using V(2) by (metis checked_succ_iff checked_add_Some(1))
  then show ?thesis using assms V by (simp add: block_replayed_def header_millis_def)
qed

lemma batch_headers:
  assumes laws: "executor_laws env sp ops view xview xenv" "state_laws sp ops slots view" "assembler_law ops"
    and run: "try_fold (replay_block env sp ops n) (List.enumerate k blocks) st = Inr st'"
  shows "\<exists>hs. zone_chain ops (rs_header st) blocks hs \<and> rs_header st' = last (rs_header st # hs)"
proof -
  have "\<exists>hs. zone_chain ops (rs_header st) (map snd es) hs \<and> rs_header st' = last (rs_header st # hs)"
    if "try_fold (replay_block env sp ops n) es st = Inr st'" for es
    using that
  proof (induction es arbitrary: st)
    case (Cons e es)
    from Cons.prems obtain st1 where step: "replay_block env sp ops n e st = Inr st1"
      and rest: "try_fold (replay_block env sp ops n) es st1 = Inr st'" by auto
    from Cons.IH [OF rest] obtain hs where "zone_chain ops (rs_header st1) (map snd es) hs"
      "rs_header st' = last (rs_header st1 # hs)" by blast
    then show ?case
      using block_replayed_header [OF replay_block_Inr [OF laws step]]
      by (intro exI [of _ "rs_header st1 # hs"]) auto
  qed simp
  from this [OF run] show ?thesis by simp
qed

lemma validate_block_finalization:
  assumes "validate_block ops n i block parent = Inr ()"
  shows "i + 1 \<noteq> n \<Longrightarrow> zb_finalize_withdrawal_batch_count block = None"
    and "i + 1 = n \<Longrightarrow> zb_finalize_withdrawal_batch_count block \<noteq> None \<and>
      (\<exists>h ds decs ts. zb_tempo_import block = SpfFull h ds decs ts)"
proof -
  have shape: "validate_batch_block_shape block (i + 1 = n) = Inr ()" and inp: "validate_system_inputs block i = Inr ()"
    using assms by (auto simp: validate_block_def Let_def)
  show "i + 1 \<noteq> n \<Longrightarrow> zb_finalize_withdrawal_batch_count block = None"
    using shape inp
    by (auto simp: validate_batch_block_shape_def validate_system_inputs_def Let_def split: SpfImport.splits)
  show "i + 1 = n \<Longrightarrow> zb_finalize_withdrawal_batch_count block \<noteq> None \<and>
      (\<exists>h ds decs ts. zb_tempo_import block = SpfFull h ds decs ts)"
    using shape by (auto simp: validate_batch_block_shape_def split: SpfImport.splits)
qed

lemma replay_block_validated:
  "replay_block env sp ops n e st = Inr st' \<Longrightarrow> validate_block ops n (fst e) (snd e) (rs_header st) = Inr ()"
  by (cases e) (simp add: replay_block_def)

lemma replay_blocks_validated:
  assumes "try_fold (replay_block env sp ops n) es st = Inr st'" and "e \<in> set es"
  shows "\<exists>parent. validate_block ops n (fst e) (snd e) parent = Inr ()"
  using assms
proof (induction es arbitrary: st)
  case (Cons e' es)
  then obtain st1 where "replay_block env sp ops n e' st = Inr st1"
    and rest: "try_fold (replay_block env sp ops n) es st1 = Inr st'" by auto
  then show ?case
    using Cons.IH [OF rest] Cons.prems(2) replay_block_validated [of env sp ops n e' st st1] by (cases "e = e'") auto
qed simp

text \<open>A batch ends in a full block that finalizes, and no block before it does.\<close>

lemma batch_last_block:
  assumes run: "try_fold (replay_block env sp ops (length blocks)) (List.enumerate 0 blocks) st = Inr st'"
    and "blocks \<noteq> []"
  obtains bs b st1 where "blocks = bs @ [b]"
    "try_fold (replay_block env sp ops (length blocks)) (List.enumerate 0 bs) st = Inr st1"
    "replay_block env sp ops (length blocks) (length bs, b) st1 = Inr st'"
    "list_all (\<lambda>b. zb_finalize_withdrawal_batch_count b = None) bs"
    "zb_finalize_withdrawal_batch_count b \<noteq> None" "\<exists>h ds decs ts. zb_tempo_import b = SpfFull h ds decs ts"
proof -
  obtain bs b where blocks: "blocks = bs @ [b]" using assms(2) by (metis rev_exhaust)
  from run obtain st1 where first: "try_fold (replay_block env sp ops (length blocks)) (List.enumerate 0 bs) st = Inr st1"
    and final: "replay_block env sp ops (length blocks) (length bs, b) st1 = Inr st'"
    by (auto simp: blocks enumerate_append_eq try_fold_append)
  have "zb_finalize_withdrawal_batch_count (bs ! i) = None" if "i < length bs" for i
  proof -
    have "(i, bs ! i) \<in> set (List.enumerate 0 bs)" using that by (simp add: in_set_enumerate_eq)
    from replay_blocks_validated [OF first this] obtain parent
      where "validate_block ops (length blocks) i (bs ! i) parent = Inr ()" by auto
    from validate_block_finalization(1) [OF this] show ?thesis using that by (simp add: blocks)
  qed
  then have none: "list_all (\<lambda>b. zb_finalize_withdrawal_batch_count b = None) bs" by (simp add: list_all_length)
  have "length bs + 1 = length blocks" by (simp add: blocks)
  then have "zb_finalize_withdrawal_batch_count b \<noteq> None \<and> (\<exists>h ds decs ts. zb_tempo_import b = SpfFull h ds decs ts)"
    using validate_block_finalization(2) [OF replay_block_validated [OF final, simplified]] by simp
  then show ?thesis using that [OF blocks first final none] by blast
qed

section \<open>The reads around the batch\<close>

lemma read_zone_storage_Inr:
  assumes "state_laws sp ops slots view" and "read_zone_storage ops a slot s = (Inr word, s')"
  shows "view s' = view s \<and> slot_value slots a slot (view s) word"
  using assms by (auto simp: read_zone_storage_def emap_err_def map_err_def state_laws_def split: prod.splits sum.splits)

lemma ucast_u64_u256 [simp]: "(ucast (ucast (n :: u64) :: u256) :: u64) = n"
  by (rule bit_word_eqI) (simp add: bit_simps)

lemma read_inbox_progress_Inr:
  assumes "state_laws sp ops slots view" and "read_inbox_progress ops slots s = (Inr p, s')"
  shows "view s' = view s \<and> p = \<lparr>ip_hash = processed_deposit_queue_hash (zv_inbox (view s)),
    ip_number = processed_deposit_number (zv_inbox (view s)),
    ip_token_count = processed_enabled_token_count (zv_inbox (view s))\<rparr>"
  using assms(2)
  by (auto simp: read_inbox_progress_def read_zone_u64_def slot_value_def dest!: read_zone_storage_Inr [OF assms(1)])

lemma read_tempo_checkpoint_Inr:
  assumes "state_laws sp ops slots view" and "read_tempo_checkpoint ops slots s = (Inr p, s')"
  shows "view s' = view s \<and> p = (tempo_block_number (zv_tempo (view s)), tempo_block_hash (zv_tempo (view s)))"
  using assms(2)
  by (auto simp: read_tempo_checkpoint_def read_zone_u64_def slot_value_def dest!: read_zone_storage_Inr [OF assms(1)])

lemma read_finalized_batch_Inr:
  assumes "state_laws sp ops slots view" and "read_finalized_batch ops slots s = (Inr p, s')"
  shows "view s' = view s \<and> p = (withdrawal_queue_hash (zv_outbox (view s)), withdrawal_batch_index (zv_outbox (view s)))"
  using assms(2)
  by (auto simp: read_finalized_batch_def slot_value_def dest!: read_zone_storage_Inr [OF assms(1)])

text \<open>Everything an accepted batch tells of its ends.\<close>

definition batch_committed ::
  "'w zone_env \<Rightarrow> ('s, 'x, 'n, 'r, 'e, 'v, 'tr) replay_ops \<Rightarrow> BatchWitness \<Rightarrow> BatchOutput \<Rightarrow> inbox_progress
   \<Rightarrow> ZoneHeader \<Rightarrow> zone_view \<Rightarrow> bool" where
  "batch_committed env ops witness out previous header v \<longleftrightarrow>
     bo_next_zone_height out = th_number header \<and>
     bo_block_transition out = \<lparr>bt_prevBlockHash = (if zb_number (hd (bw_zone_blocks witness)) = 1 then 0
         else rp_hash ops (bw_parent_header witness)), bt_nextBlockHash = rp_hash ops header\<rparr> \<and>
     bo_deposit_queue_transition out =
       \<lparr>dt_prevProcessedHash = ip_hash previous,
        dt_nextProcessedHash = processed_deposit_queue_hash (zv_inbox v),
        dt_prevDepositNumber = ip_number previous,
        dt_nextDepositNumber = processed_deposit_number (zv_inbox v)\<rparr> \<and>
     (list_ex (\<lambda>b. zb_finalize_withdrawal_batch_count b \<noteq> None) (bw_zone_blocks witness) \<longrightarrow>
       bo_withdrawal_queue_hash out = withdrawal_queue_hash (zv_outbox v) \<and>
       bo_last_batch_commitment out = \<lparr>lc_withdrawal_batch_index = withdrawal_batch_index (zv_outbox v)\<rparr>) \<and>
     lc_withdrawal_batch_index (bo_last_batch_commitment out) =
       pi_expected_withdrawal_batch_index (bw_public_inputs witness) \<and>
     tempo_block_number (zv_tempo v) = pi_tempo_block_number (bw_public_inputs witness) \<and>
     validate_tempo_anchor env (tempo_block_number (zv_tempo v)) (tempo_block_hash (zv_tempo v))
       (bw_public_inputs witness) (bw_tempo_ancestry_headers witness) = Inr ()"

definition inbox_progress_of :: "zone_view \<Rightarrow> inbox_progress" where
  "inbox_progress_of v = \<lparr>ip_hash = processed_deposit_queue_hash (zv_inbox v),
     ip_number = processed_deposit_number (zv_inbox v),
     ip_token_count = processed_enabled_token_count (zv_inbox v)\<rparr>"

definition batch_proven ::
  "'w zone_env \<Rightarrow> ('tr, 'st, 'mp) sparse_ops \<Rightarrow> ('s, 'x, 'n, 'r, 'e, 'v, 'tr) replay_ops \<Rightarrow> ('s \<Rightarrow> zone_view)
   \<Rightarrow> BatchWitness \<Rightarrow> BatchOutput \<Rightarrow> zone_view \<Rightarrow> ('s, 'tr) replay_state \<Rightarrow> ('s, 'tr) replay_state \<Rightarrow> bool" where
  "batch_proven env sp ops view witness out v st st' \<longleftrightarrow>
     bw_zone_blocks witness \<noteq> [] \<and>
     try_fold (replay_block env sp ops (length (bw_zone_blocks witness)))
       (List.enumerate 0 (bw_zone_blocks witness)) st = Inr st' \<and>
     rs_header st = bw_parent_header witness \<and> view (rs_zone st) = v \<and>
     from_tempo_state_witness sp env (bw_tempo_state_witness witness) = Inr (rs_tempo st) \<and>
     td_checkpoint (rs_tempo st) = (tempo_block_number (zv_tempo v), tempo_block_hash (zv_tempo v)) \<and>
     batch_committed env ops witness out (inbox_progress_of v) (rs_header st') (view (rs_zone st'))"

lemma commit_batch_Inr:
  assumes st: "state_laws sp ops (sf_slots cfg) view"
    and run: "commit_batch env ops cfg witness previous header s = (Inr out, s')"
  shows "batch_committed env ops witness out previous header (view s)"
proof -
  let ?any = "list_ex (\<lambda>b. zb_finalize_withdrawal_batch_count b \<noteq> None) (bw_zone_blocks witness)"
  from run obtain p s1 q s2 tn s3 where
    p: "read_inbox_progress ops (sf_slots cfg) s = (Inr p, s1)"
    and q: "(if ?any then read_finalized_batch ops (sf_slots cfg)
        else ereturn (0, pi_expected_withdrawal_batch_index (bw_public_inputs witness))) s1 = (Inr q, s2)"
    and tn: "read_tempo_checkpoint ops (sf_slots cfg) s2 = (Inr tn, s3)"
    and num: "fst tn = pi_tempo_block_number (bw_public_inputs witness)"
    and anc: "validate_tempo_anchor env (fst tn) (snd tn) (bw_public_inputs witness)
        (bw_tempo_ancestry_headers witness) = Inr ()"
    and idx: "snd q = pi_expected_withdrawal_batch_index (bw_public_inputs witness)"
    and out: "out = \<lparr>bo_next_zone_height = th_number header,
        bo_block_transition = \<lparr>bt_prevBlockHash = (if zb_number (hd (bw_zone_blocks witness)) = 1 then 0
          else rp_hash ops (bw_parent_header witness)), bt_nextBlockHash = rp_hash ops header\<rparr>,
        bo_deposit_queue_transition = \<lparr>dt_prevProcessedHash = ip_hash previous, dt_nextProcessedHash = ip_hash p,
          dt_prevDepositNumber = ip_number previous, dt_nextDepositNumber = ip_number p\<rparr>,
        bo_token_enablement_transition = \<lparr>tt_prevProcessedTokenCount = ip_token_count previous,
          tt_nextProcessedTokenCount = ip_token_count p\<rparr>,
        bo_withdrawal_queue_hash = fst q,
        bo_last_batch_commitment = \<lparr>lc_withdrawal_batch_index = snd q\<rparr>\<rparr>"
    unfolding commit_batch_def Let_def by (clarsimp split: prod.splits)
  note P = read_inbox_progress_Inr [OF st p]
  have Q: "view s2 = view s1 \<and> (?any \<longrightarrow> q = (withdrawal_queue_hash (zv_outbox (view s1)),
      withdrawal_batch_index (zv_outbox (view s1))))"
    using q read_finalized_batch_Inr [OF st, of s1 q s2] by (auto split: if_splits)
  note T = read_tempo_checkpoint_Inr [OF st tn]
  show ?thesis using P Q T num anc idx by (auto simp: out batch_committed_def)
qed

lemma open_batch_Inr:
  assumes st: "state_laws sp ops (sf_slots cfg) view" and op: "open_batch env sp ops cfg witness = Inr (previous, st0)"
  shows "\<exists>db. bw_zone_blocks witness \<noteq> [] \<and>
    from_zone_state_witness sp (bw_zone_state_witness witness) (th_state_root (bw_parent_header witness)) = Inr db \<and>
    previous = inbox_progress_of (view (rp_open ops db)) \<and> view (rs_zone st0) = view (rp_open ops db) \<and>
    rs_header st0 = bw_parent_header witness \<and>
    from_tempo_state_witness sp env (bw_tempo_state_witness witness) = Inr (rs_tempo st0) \<and>
    td_checkpoint (rs_tempo st0) = (tempo_block_number (zv_tempo (view (rp_open ops db))),
      tempo_block_hash (zv_tempo (view (rp_open ops db))))"
proof -
  from op obtain db where ne: "bw_zone_blocks witness \<noteq> []"
    and db: "from_zone_state_witness sp (bw_zone_state_witness witness) (th_state_root (bw_parent_header witness)) = Inr db"
    unfolding open_batch_def by clarsimp
  obtain r s1 where p: "read_inbox_progress ops (sf_slots cfg) (rp_open ops db) = (r, s1)" by fastforce
  obtain q s2 where tn: "read_tempo_checkpoint ops (sf_slots cfg) s1 = (q, s2)" by fastforce
  from op db p tn obtain td where r: "r = Inr previous"
    and td: "from_tempo_state_witness sp env (bw_tempo_state_witness witness) = Inr td"
    and q: "q = Inr (td_checkpoint td)"
    and st0: "st0 = \<lparr>rs_header = bw_parent_header witness, rs_tempo = td, rs_zone = s2, rs_missing = None\<rparr>"
    unfolding open_batch_def by (cases q) (auto split: sum.splits)
  show ?thesis
    using ne db td read_inbox_progress_Inr [OF st p [unfolded r]] read_tempo_checkpoint_Inr [OF st tn [unfolded q]]
    by (simp add: st0 inbox_progress_of_def)
qed

lemma prove_zone_batch_Inr:
  assumes st: "state_laws sp ops (sf_slots cfg) view"
    and run: "prove_zone_batch env sp ops cfg witness = Inr out"
  shows "\<exists>db st st'. from_zone_state_witness sp (bw_zone_state_witness witness)
      (th_state_root (bw_parent_header witness)) = Inr db \<and>
    batch_proven env sp ops view witness out (view (rp_open ops db)) st st'"
proof -
  from run obtain previous st0 st' where op: "open_batch env sp ops cfg witness = Inr (previous, st0)"
    and loop: "try_fold (replay_block env sp ops (length (bw_zone_blocks witness)))
         (List.enumerate 0 (bw_zone_blocks witness)) st0 = Inr st'"
    and com: "fst (commit_batch env ops cfg witness previous (rs_header st') (rs_zone st')) = Inr out"
    by (auto simp: prove_zone_batch_def)
  obtain s' where "commit_batch env ops cfg witness previous (rs_header st') (rs_zone st') = (Inr out, s')"
    using com by (metis prod.collapse)
  from commit_batch_Inr [OF st this] open_batch_Inr [OF st op] loop show ?thesis
    unfolding batch_proven_def by blast
qed

section \<open>What a proven batch commits to\<close>

lemma with_imported_checkpoint_Inr:
  assumes "with_imported_checkpoint sp env header_rlp td = Inr td'"
  shows "td_node_pool td' = td_node_pool td \<and> checkpoint_state sp env header_rlp (td_node_pool td) =
    Inr (td_state td', td_tempo_block_hash td', td_tempo_block_number td')"
  using assms by (auto simp: with_imported_checkpoint_def)

lemma from_tempo_state_witness_Inr:
  assumes "from_tempo_state_witness sp env w = Inr td"
  shows "td_node_pool td = tw_node_pool w \<and> td_tempo_block_hash td = ze_keccak env (tw_initial_tempo_header_rlp w)"
  using assms by (auto simp: from_tempo_state_witness_def checkpoint_state_def)

lemma ancestry_linked:
  assumes "try_fold (ancestry_step env) (List.enumerate k hs) (n, h) = Inr (n', h')"
  shows "headers_linked env h n hs \<and> h' = (if hs = [] then h else ze_keccak env (last hs))"
  using assms
proof (induction hs arbitrary: k n h)
  case (Cons r hs)
  then obtain hd where hd: "decode_exact env r = Some hd" "th_parent_hash hd = h" "unat (th_number hd) = unat n + 1"
    and rest: "try_fold (ancestry_step env) (List.enumerate (Suc k) hs) (th_number hd, ze_keccak env r) = Inr (n', h')"
    by (auto simp: ancestry_step_def checked_succ_iff)
  show ?case using Cons.IH [OF rest] hd by (auto simp: headers_linked_Cons)
qed simp

lemma validate_tempo_anchor_Inr:
  assumes "validate_tempo_anchor env n h inputs ancestry = Inr ()"
  shows "headers_linked env h n ancestry \<and>
    pi_anchor_block_hash inputs = (if ancestry = [] then h else ze_keccak env (last ancestry)) \<and>
    unat (pi_anchor_block_number inputs) = unat n + length ancestry"
proof (cases "pi_anchor_block_number inputs = n")
  case True
  then show ?thesis using assms by (simp add: validate_tempo_anchor_def)
next
  case False
  with assms have le: "n \<le> pi_anchor_block_number inputs"
    and len: "length ancestry = unat (pi_anchor_block_number inputs - n)"
    by (auto simp: validate_tempo_anchor_def Let_def not_less split: if_splits)
  from False assms le obtain n' h' where
    "try_fold (ancestry_step env) (List.enumerate 0 ancestry) (n, h) = Inr (n', h')" "h' = pi_anchor_block_hash inputs"
    by (auto simp: validate_tempo_anchor_def Let_def not_less split: if_splits)
  from ancestry_linked [OF this(1)] this(2) le len show ?thesis
    by (auto simp: unat_sub word_le_nat_alt)
qed

lemma zone_chain_length:
  assumes "zone_chain ops parent blocks hs"
  shows "length hs = length blocks \<and>
    unat (th_number (last (parent # hs))) = unat (th_number parent) + length blocks"
  using assms by (induction ops parent blocks hs rule: zone_chain.induct) auto

lemma batch_imports_nonempty:
  assumes "try_fold (replay_block env sp ops (length blocks)) (List.enumerate 0 blocks) st = Inr st'" "blocks \<noteq> []"
  shows "concat (map (\<lambda>b. headers_rlp (zb_tempo_import b)) blocks) \<noteq> []"
  using assms by (rule batch_last_block) auto

lemma batch_proven_effect:
  assumes "executor_laws env sp ops view xview xenv" "state_laws sp ops slots view" "assembler_law ops"
    and "batch_proven env sp ops view witness out v st st'"
  shows "batch_effect env (bw_zone_blocks witness) v (view (rs_zone st'))"
  using batch_path [OF assms(1-3), of "length (bw_zone_blocks witness)" 0 "bw_zone_blocks witness" st st'] assms(4)
  by (simp add: batch_proven_def)

text \<open>
  C5. A proven batch extends the zone chain it starts from. There is one header per block; each names
  the hash of its predecessor, starting with the witnessed parent, has the next number and a time that
  is not before its predecessor's; the commitment is from the parent's hash (zero for the first block of
  the zone) to the hash of the last header, at its height.
\<close>

theorem proven_batch_extends_chain:
  assumes "executor_laws env sp ops view xview xenv" "state_laws sp ops (sf_slots cfg) view" "assembler_law ops"
    and "prove_zone_batch env sp ops cfg witness = Inr out"
  shows "\<exists>hs. zone_chain ops (bw_parent_header witness) (bw_zone_blocks witness) hs \<and> hs \<noteq> [] \<and>
    bo_next_zone_height out = th_number (last hs) \<and>
    unat (bo_next_zone_height out) = unat (th_number (bw_parent_header witness)) + length (bw_zone_blocks witness) \<and>
    bt_nextBlockHash (bo_block_transition out) = rp_hash ops (last hs) \<and>
    bt_prevBlockHash (bo_block_transition out) =
      (if zb_number (hd (bw_zone_blocks witness)) = 1 then 0 else rp_hash ops (bw_parent_header witness))"
proof -
  obtain db st st' where p: "batch_proven env sp ops view witness out (view (rp_open ops db)) st st'"
    using prove_zone_batch_Inr [OF assms(2,4)] by blast
  then have ne: "bw_zone_blocks witness \<noteq> []" and start: "rs_header st = bw_parent_header witness"
    and com: "batch_committed env ops witness out (inbox_progress_of (view (rp_open ops db))) (rs_header st') (view (rs_zone st'))"
    by (simp_all add: batch_proven_def)
  from p batch_headers [OF assms(1-3)] obtain hs where
    hs: "zone_chain ops (rs_header st) (bw_zone_blocks witness) hs" "rs_header st' = last (rs_header st # hs)"
    unfolding batch_proven_def by blast
  have len: "length hs = length (bw_zone_blocks witness) \<and>
      unat (th_number (last (rs_header st # hs))) = unat (th_number (rs_header st)) + length (bw_zone_blocks witness)"
    using hs(1) by (rule zone_chain_length)
  then have "hs \<noteq> []" using ne by auto
  then show ?thesis using hs len com start by (intro exI [of _ hs]) (simp add: batch_committed_def)
qed

text \<open>
  C4. A proven batch is anchored in the Tempo chain. The Tempo headers its blocks import, followed by the
  ancestry headers of the witness, are one chain of consecutive hash-linked headers that starts at the
  checkpoint of the zone's pre-state, which is the witnessed initial header, passes the public Tempo block
  after the last import and ends at the public anchor: with its number and its hash.
\<close>

theorem proven_batch_reaches_anchor:
  assumes "executor_laws env sp ops view xview xenv" "state_laws sp ops (sf_slots cfg) view" "assembler_law ops"
    and "prove_zone_batch env sp ops cfg witness = Inr out"
    and "from_zone_state_witness sp (bw_zone_state_witness witness) (th_state_root (bw_parent_header witness)) = Inr db"
    and "imports = concat (map (\<lambda>b. headers_rlp (zb_tempo_import b)) (bw_zone_blocks witness))"
    and "checkpoint = zv_tempo (view (rp_open ops db))"
  shows "headers_linked env (tempo_block_hash checkpoint) (tempo_block_number checkpoint)
      (imports @ bw_tempo_ancestry_headers witness) \<and> imports \<noteq> [] \<and>
    tempo_block_hash checkpoint = ze_keccak env (tw_initial_tempo_header_rlp (bw_tempo_state_witness witness)) \<and>
    unat (pi_tempo_block_number (bw_public_inputs witness)) = unat (tempo_block_number checkpoint) + length imports \<and>
    unat (pi_anchor_block_number (bw_public_inputs witness)) =
      unat (tempo_block_number checkpoint) + length (imports @ bw_tempo_ancestry_headers witness) \<and>
    pi_anchor_block_hash (bw_public_inputs witness) = ze_keccak env (last (imports @ bw_tempo_ancestry_headers witness))"
proof -
  obtain st st' where p: "batch_proven env sp ops view witness out (view (rp_open ops db)) st st'"
    using prove_zone_batch_Inr [OF assms(2,4)] assms(5) by auto
  have path: "tempo_path env imports (view (rp_open ops db)) (view (rs_zone st'))"
    using batch_proven_effect [OF assms(1-3) p] by (simp add: batch_effect_def assms(6))
  have ne: "imports \<noteq> []" using p batch_imports_nonempty by (auto simp: batch_proven_def assms(6))
  have init: "tempo_block_hash checkpoint = ze_keccak env (tw_initial_tempo_header_rlp (bw_tempo_state_witness witness))"
    using p from_tempo_state_witness_Inr by (fastforce simp: batch_proven_def assms(7) td_checkpoint_def)
  let ?v = "view (rs_zone st')"
  have anc: "validate_tempo_anchor env (tempo_block_number (zv_tempo ?v)) (tempo_block_hash (zv_tempo ?v))
      (bw_public_inputs witness) (bw_tempo_ancestry_headers witness) = Inr ()"
    and num: "tempo_block_number (zv_tempo ?v) = pi_tempo_block_number (bw_public_inputs witness)"
    using p by (auto simp: batch_proven_def batch_committed_def)
  note A = validate_tempo_anchor_Inr [OF anc]
  have "headers_linked env (tempo_block_hash checkpoint) (tempo_block_number checkpoint)
      (imports @ bw_tempo_ancestry_headers witness)"
    using headers_linked_append [OF _ conjunct1 [OF A]] path by (simp add: tempo_path_def assms(7))
  then show ?thesis using A num path ne init by (auto simp: tempo_path_def assms(7))
qed

lemma replay_block_tempo:
  assumes "replay_block env sp ops n ib st = Inr st'"
  shows "with_imported_checkpoint sp env (last (headers_rlp (zb_tempo_import (snd ib)))) (rs_tempo st) = Inr (rs_tempo st')"
proof -
  obtain i block where ib: "ib = (i, block)" by (cases ib)
  from assms ib obtain td where
    td: "with_imported_checkpoint sp env (last (headers_rlp (zb_tempo_import block))) (rs_tempo st) = Inr td"
    by (auto simp: replay_block_def)
  with assms ib have "rs_tempo st' = td"
    by (auto simp: replay_block_def split: sum.splits prod.splits)
  then show ?thesis using td ib by simp
qed

lemma replay_blocks_pool:
  "try_fold (replay_block env sp ops n) es st = Inr st' \<Longrightarrow> td_node_pool (rs_tempo st') = td_node_pool (rs_tempo st)"
proof (induction es arbitrary: st)
  case (Cons e es)
  then obtain st1 where step: "replay_block env sp ops n e st = Inr st1"
    and rest: "try_fold (replay_block env sp ops n) es st1 = Inr st'" by auto
  have "td_node_pool (rs_tempo st1) = td_node_pool (rs_tempo st)"
    using with_imported_checkpoint_Inr [OF replay_block_tempo [OF step]] by simp
  then show ?case using Cons.IH [OF rest] by simp
qed simp

lemma checkpoint_state_Some:
  assumes "checkpoint_state sp env header_rlp pool = Inr (Some tr, hash, number)"
  shows "\<exists>header. decode_exact env header_rlp = Some header \<and> trie_new sp (th_state_root header) pool = Inr tr"
proof -
  from assms obtain header where header: "decode_exact env header_rlp = Some header"
    by (auto simp: checkpoint_state_def)
  have "trie_new sp (th_state_root header) pool = Inr tr"
  proof (cases "trie_new sp (th_state_root header) pool")
    case (Inl e)
    then show ?thesis using assms header by (cases e) (simp_all add: checkpoint_state_def)
  qed (use assms header in \<open>simp add: checkpoint_state_def\<close>)
  then show ?thesis using header by blast
qed

lemma read_tempo_storage_Inr:
  assumes "fst (read_tempo_storage sp td a slot number missing) = Inr word"
  shows "\<exists>tr. td_state td = Some tr \<and> trie_storage sp tr a slot = Inr word"
proof -
  from assms obtain tr where tr: "number = td_tempo_block_number td" "td_state td = Some tr"
    by (cases "td_state td"; cases "number = td_tempo_block_number td") (simp_all add: read_tempo_storage_def)
  have "trie_storage sp tr a slot = Inr word"
  proof (cases "trie_storage sp tr a slot")
    case (Inl e)
    then show ?thesis using assms tr by (cases e) (simp_all add: read_tempo_storage_def)
  qed (use assms tr in \<open>simp add: read_tempo_storage_def\<close>)
  then show ?thesis using tr by blast
qed

lemma block_effect_synced:
  assumes "block_effect env b v v'" and "\<exists>h ds decs ts. zb_tempo_import b = SpfFull h ds decs ts"
  shows "portal_synced env v'"
  using assms
  by (auto simp: block_effect_def import_effect_def user_frame_def finalize_effect_def portal_synced_def split: if_splits)

text \<open>
  The word the portal of the last imported Tempo block holds in its deposit queue slot, proven by the
  node pool of the witness against the state root of that block's header, is the processed queue hash.
\<close>

definition portal_queue_proven ::
  "'w zone_env \<Rightarrow> ('tr, 'st, 'mp) sparse_ops \<Rightarrow> bytes list \<Rightarrow> bytes \<Rightarrow> b256 \<Rightarrow> bool" where
  "portal_queue_proven env sp pool header_rlp processed \<longleftrightarrow> (\<exists>header tr word.
     decode_exact env header_rlp = Some header \<and> trie_new sp (th_state_root header) pool = Inr tr \<and>
     trie_storage sp tr (ze_portal env) (fst (pl_current_deposit_queue_hash (ze_layout env))) = Inr word \<and>
     snd (pl_current_deposit_queue_hash (ze_layout env)) word = Inr processed)"

lemma batch_portal_queue:
  assumes laws: "executor_laws env sp ops view xview xenv" "state_laws sp ops slots view" "assembler_law ops"
    and p: "batch_proven env sp ops view witness out v st st'" and portal: "ze_portal env \<noteq> 0"
  shows "portal_queue_proven env sp (tw_node_pool (bw_tempo_state_witness witness))
    (last (concat (map (\<lambda>b. headers_rlp (zb_tempo_import b)) (bw_zone_blocks witness))))
    (processed_deposit_queue_hash (zv_inbox (view (rs_zone st'))))"
proof -
  have run: "try_fold (replay_block env sp ops (length (bw_zone_blocks witness)))
      (List.enumerate 0 (bw_zone_blocks witness)) st = Inr st'" "bw_zone_blocks witness \<noteq> []"
    using p by (simp_all add: batch_proven_def)
  then obtain bs b st1 where blocks: "bw_zone_blocks witness = bs @ [b]"
    and final: "replay_block env sp ops (length (bw_zone_blocks witness)) (length bs, b) st1 = Inr st'"
    and pre: "try_fold (replay_block env sp ops (length (bw_zone_blocks witness))) (List.enumerate 0 bs) st = Inr st1"
    and full: "\<exists>h ds decs ts. zb_tempo_import b = SpfFull h ds decs ts"
    by (rule batch_last_block)
  from replay_block_Inr [OF laws final] obtain t13 where
    "block_effect (block_env env sp (rs_tempo st') (rs_header st1) b t13) b (view (rs_zone st1)) (view (rs_zone st'))"
    by (auto simp: block_replayed_def)
  from block_effect_synced [OF this full] portal obtain word where
    word: "fst (read_tempo_storage sp (rs_tempo st') (ze_portal env) (fst (pl_current_deposit_queue_hash (ze_layout env)))
        (tempo_block_number (zv_tempo (view (rs_zone st')))) None) = Inr word"
      "snd (pl_current_deposit_queue_hash (ze_layout env)) word =
        Inr (processed_deposit_queue_hash (zv_inbox (view (rs_zone st'))))"
    by (auto simp: portal_synced_def) (auto simp: block_env_def)
  from read_tempo_storage_Inr [OF word(1)] obtain tr where tr: "td_state (rs_tempo st') = Some tr"
    "trie_storage sp tr (ze_portal env) (fst (pl_current_deposit_queue_hash (ze_layout env))) = Inr word" by blast
  have pool: "td_node_pool (rs_tempo st1) = tw_node_pool (bw_tempo_state_witness witness)"
    using replay_blocks_pool [OF pre] p from_tempo_state_witness_Inr by (fastforce simp: batch_proven_def)
  have lst: "last (headers_rlp (zb_tempo_import b)) =
      last (concat (map (\<lambda>b. headers_rlp (zb_tempo_import b)) (bw_zone_blocks witness)))"
    using full by (auto simp: blocks)
  have "checkpoint_state sp env (last (headers_rlp (zb_tempo_import b))) (td_node_pool (rs_tempo st1)) =
      Inr (Some tr, td_tempo_block_hash (rs_tempo st'), td_tempo_block_number (rs_tempo st'))"
    using with_imported_checkpoint_Inr [OF replay_block_tempo [OF final]] tr(1) by simp
  from checkpoint_state_Some [OF this] obtain header where
    "decode_exact env (last (headers_rlp (zb_tempo_import b))) = Some header"
    "trie_new sp (th_state_root header) (td_node_pool (rs_tempo st1)) = Inr tr" by blast
  then show ?thesis using tr(2) word(2) unfolding portal_queue_proven_def pool lst by blast
qed


lemma finalization_count:
  assumes "validate_block ops n i block parent = Inr ()" and "zb_finalize_withdrawal_batch_count block = Some count"
  shows "count = of_nat (length (zb_finalize_withdrawal_batch_encrypted_senders block))"
proof -
  have "validate_system_inputs block i = Inr ()" using assms(1) by (auto simp: validate_block_def Let_def)
  then show ?thesis using assms(2) by (auto simp: validate_system_inputs_def Let_def)
qed


section \<open>Witnesses\<close>

text \<open>
  An EVM that is the zone context with the two system calls of one block: every other transaction is
  rejected. The trie proves the portal's slots of the sample environment under the state root zero.
\<close>

definition portal_trie :: "(unit, unit, unit) sparse_ops" where
  "portal_trie =
     \<lparr>sp_keccak = from_be_bytes, sp_empty_root = 1, sp_new = (), sp_set_revealed_empty = (\<lambda>tr. tr),
      sp_from_witness = (\<lambda>_ _. Returned ()), sp_reveal = (\<lambda>_ tr. Returned tr), sp_root = (\<lambda>tr. Returned (0, tr)),
      sp_account_value = (\<lambda>_ _. Returned None), sp_is_account_revealed = (\<lambda>_ _. Returned True),
      sp_storage_slot_value = (\<lambda>_ _ hs. Returned (Some (to_be_bytes 32 (queue_portal hs)))),
      sp_check_valid_storage_witness = (\<lambda>_ _ _. Returned True),
      sp_storage_trie = (\<lambda>_ _. Some ()), sp_take_storage_trie = (\<lambda>_ tr. tr), sp_insert_storage_trie = (\<lambda>_ _ tr. tr),
      sp_revealed_empty = (), sp_update_storage_leaves = (\<lambda>_ st. Returned ([], st)),
      sp_storage_root = (\<lambda>st. Returned (0, st)), sp_update_account_leaves = (\<lambda>_ tr. Returned ([], tr)),
      sp_decode_account = (\<lambda>_. None), sp_encode_account = (\<lambda>_. []),
      sp_decode_u256 = (\<lambda>v. Some (from_be_bytes v)), sp_encode_u256 = to_be_bytes 32,
      sp_into_trie_account = (\<lambda>acc root. \<lparr>ta_nonce = acc_nonce acc, ta_balance = acc_balance acc,
        ta_storage_root = root, ta_code_hash = 0\<rparr>),
      sp_from_bundle_state = (\<lambda>_. \<lparr>hp_accounts = [], hp_storages = []\<rparr>), sp_code_hash = from_be_bytes\<rparr>"

record sample_executor =
  sx_ctx :: "ledger inbox_ctx"
  sx_env :: "ledger zone_env"

definition batch_advance :: advanceTempoCall where
  "batch_advance = \<lparr>at_header = [2, 5],
     at_deposits = [\<lparr>qd_depositType = DepositKind, qd_depositData = [7, 7], qd_rejected = False\<rparr>],
     at_decryptions = [bad_decryption], at_enabledTokens = []\<rparr>"

definition batch_finalize :: finalizeWithdrawalBatchCall where
  "batch_finalize = \<lparr>fb_count = 1, fb_blockNumber = 9, fb_encryptedSenders = [[]]\<rparr>"

definition sample_execute ::
  "(address \<times> bytes) \<times> address \<Rightarrow> (sample_executor, unit, ledger inbox_ctx option) eff" where
  "sample_execute = (\<lambda>((callee, data), signer) x.
     let c = sx_ctx x\<lparr>zc_l1 := \<lparr>anchor = None, access_set = {}\<rparr>, zc_gas := 1000000\<rparr> in
     if callee = ZONE_INBOX_ADDRESS \<and> data = [1] then
       (case advance_tempo (sx_env x) signer batch_advance c of
          (Inr _, c') \<Rightarrow> (Inr (Some c'), x) | (Inl _, _) \<Rightarrow> (Inr None, x))
     else if callee = ZONE_OUTBOX_ADDRESS \<and> data = [3] then
       (case finalize_withdrawal_batch (sx_env x) signer batch_finalize c of
          (Inr _, c') \<Rightarrow> (Inr (Some c'), x) | (Inl _, _) \<Rightarrow> (Inr None, x))
     else (Inl (), x))"

definition sample_block_inner ::
  "(sample_executor, (address \<times> bytes) \<times> address, ledger inbox_ctx option, unit) inner_executor" where
  "sample_block_inner =
     \<lparr>in_has_withdrawals = (\<lambda>_. False), in_apply_pre_execution_changes = ereturn (),
      in_execute = sample_execute, in_clear_l1_overlay = (\<lambda>x. x),
      in_commit = (\<lambda>r x. case r of Some c \<Rightarrow> x\<lparr>sx_ctx := c\<rparr> | None \<Rightarrow> x),
      in_receipts = (\<lambda>_. []), in_is_t13 = (\<lambda>_. False), in_finish = Inr,
      in_withdrawal_requested_hash = 9, in_tempo_advanced_hash = 8, in_decode_deposits_processed = (\<lambda>_. None)\<rparr>"

definition sample_slots :: spf_slots where
  "sample_slots = \<lparr>sl_processed_deposit_queue_hash = 0, sl_processed_deposit_number = 1,
     sl_processed_enabled_token_count = 2, sl_tempo_block_hash = 0, sl_tempo_block_number = 1,
     sl_withdrawal_queue_hash = 0, sl_withdrawal_batch_index = 1\<rparr>"

definition sample_storage :: "address \<Rightarrow> u256 \<Rightarrow> (ledger inbox_ctx, read_error, u256) eff" where
  "sample_storage a slot c =
     (Inr (if a = ZONE_INBOX_ADDRESS
           then if slot = 0 then processed_deposit_queue_hash (zc_inbox c)
                else if slot = 1 then ucast (processed_deposit_number (zc_inbox c))
                else ucast (processed_enabled_token_count (zc_inbox c))
           else if a = TEMPO_STATE_ADDRESS
           then if slot = 0 then tempo_block_hash (zc_tempo c) else ucast (tempo_block_number (zc_tempo c))
           else if slot = 0 then withdrawal_queue_hash (zc_outbox c)
           else ucast (withdrawal_batch_index (zc_outbox c))), c)"

definition sample_pre_state :: "ledger inbox_ctx" where
  "sample_pre_state = inbox_sample_ctx\<lparr>zc_tempo := \<lparr>tempo_block_hash = 2, tempo_block_number = 4\<rparr>\<rparr>"

definition sample_replay ::
  "(ledger inbox_ctx, sample_executor, address \<times> bytes, ledger inbox_ctx option, unit, u64 \<times> u64 \<times> u64, unit) replay_ops"
where
  "sample_replay =
     \<lparr>rp_open = (\<lambda>_. sample_pre_state), rp_storage = sample_storage,
      rp_database = (\<lambda>_. \<lparr>wd_state = (), wd_accounts = Map.empty, wd_storage = Map.empty, wd_code_by_hash = Map.empty\<rparr>),
      rp_put_database = (\<lambda>_ s. s), rp_take_bundle = (\<lambda>s. ([], s)), rp_block_hash = (\<lambda>_ _. None),
      rp_insert_block_hash = (\<lambda>_ _ s. s), rp_merge_transitions = (\<lambda>s. s),
      rp_hash = (\<lambda>h. ucast (th_number h) + 100), rp_is_cancun = (\<lambda>_. True), rp_is_shanghai = (\<lambda>_. True),
      rp_next_evm_env = (\<lambda>parent na. Some (th_number parent + 1, na_timestamp na, na_timestamp_millis_part na)),
      rp_env_chain_id = (\<lambda>_. 1424310007),
      rp_create_executor = (\<lambda>(number, seconds, millis) td _ _ s. \<lparr>sx_ctx = s,
        sx_env = (sample_env (\<lambda>_. 0))\<lparr>ze_reader := (\<lambda>a slot n. fst (read_tempo_storage portal_trie td a slot n None)),
          ze_block_number := number, ze_timestamp := seconds,
          ze_timestamp_millis := ucast seconds * 1000 + ucast millis, ze_is_t13 := True\<rparr>\<rparr>),
      rp_inner = sample_block_inner,
      rp_tx_ops = \<lparr>tx_has_sub_block_nonce_key_prefix = (\<lambda>_. False), tx_is_system_tx = (\<lambda>_. True),
        tx_calls = (\<lambda>(n, _). [(Some (fst n), snd n)]),
        sel_advance_tempo = [1], sel_advance_tempo_headers = [2], sel_finalize_withdrawal_batch = [3]\<rparr>,
      rp_into_state = sx_ctx, rp_missing_read = (\<lambda>_. None), rp_is_success = (\<lambda>r. r \<noteq> None),
      rp_revert_output = (\<lambda>_. None), rp_database_error = (\<lambda>_. None), rp_decode_inbox_error = (\<lambda>_. None),
      rp_decode_tempo_state_error = (\<lambda>_. None), rp_decode_2718_exact = (\<lambda>_. None), rp_is_system_tx = (\<lambda>_. True),
      rp_recover = (\<lambda>_. None), rp_system_tx_sender = 0, rp_system_transaction = (\<lambda>_ callee data. (callee, data)),
      rp_encode_advance_tempo = (\<lambda>call. if call = batch_advance then [1] else [9]),
      rp_encode_advance_tempo_headers = (\<lambda>_. [8]),
      rp_encode_finalize = (\<lambda>call. if call = batch_finalize then [3] else [9]),
      rp_assemble = (\<lambda>(number, seconds, millis) ctx parent _ _ _ root. Some
        \<lparr>th_parent_hash = xc_parent_hash ctx, th_number = number, th_state_root = root, th_timestamp = seconds,
         th_timestamp_millis_part = millis, zh_base_fee_per_gas = Some 0, zh_gas_limit = 0\<rparr>)\<rparr>"

definition sample_witness :: BatchWitness where
  "sample_witness =
     \<lparr>bw_public_inputs = \<lparr>pi_parent_chain_id = 42431, pi_zone_id = 7, pi_tempo_block_number = 5,
        pi_anchor_block_number = 6, pi_anchor_block_hash = 2, pi_expected_withdrawal_batch_index = 1\<rparr>,
      bw_parent_header = \<lparr>th_parent_hash = 0, th_number = 8, th_state_root = 0, th_timestamp = 40,
        th_timestamp_millis_part = 0, zh_base_fee_per_gas = Some 0, zh_gas_limit = 0\<rparr>,
      bw_zone_blocks = [\<lparr>zb_number = 9, zb_parent_hash = 108, zb_timestamp = 50, zb_timestamp_millis_part = 0,
        zb_beneficiary = 0, zb_tempo_import = SpfFull [2, 5] (at_deposits batch_advance) [bad_decryption] [],
        zb_finalize_withdrawal_batch_count = Some 1, zb_finalize_withdrawal_batch_encrypted_senders = [[]],
        zb_transactions = []\<rparr>],
      bw_zone_state_witness = \<lparr>zw_node_pool = [[]], zw_bytecodes = []\<rparr>,
      bw_tempo_state_witness = \<lparr>tw_initial_tempo_header_rlp = [0, 4], tw_node_pool = [[]]\<rparr>,
      bw_tempo_ancestry_headers = [[2, 6]]\<rparr>"

definition sample_config :: spf_config where
  "sample_config = \<lparr>sf_chain_id = 1424310007, sf_mainnet = 4217, sf_moderato = 42431, sf_slots = sample_slots\<rparr>"


definition sample_tempo :: "unit TempoWitnessDatabase" where
  "sample_tempo = \<lparr>td_state = Some (), td_tempo_block_hash = 2, td_tempo_block_number = 5, td_node_pool = [[]]\<rparr>"

definition sample_block_env :: "ledger zone_env" where
  "sample_block_env = block_env (sample_env (\<lambda>_. 0)) portal_trie sample_tempo (bw_parent_header sample_witness)
     (hd (bw_zone_blocks sample_witness)) True"

lemma sample_block_env_simps [simp]:
  "ze_reader sample_block_env a slot 5 = Inr (queue_portal slot)"
  "ze_portal sample_block_env = 77" "ze_layout sample_block_env = sample_layout"
  "ze_deduct_gas sample_block_env cost g = (if g < cost then Inl OutOfGas else Inr (g - cost))"
  "ze_warm_cost sample_block_env = 100" "ze_cold_cost sample_block_env = 2100"
  "ze_block_number sample_block_env = 9" "ze_timestamp sample_block_env = 50"
  "ze_timestamp_millis sample_block_env = 50000" "ze_is_t13 sample_block_env"
  "ze_keccak sample_block_env = count_bytes" "ze_withdrawal_enc sample_block_env = unary_enc"
  "ze_decode_header sample_block_env = sample_decode_header"
  "ze_decode_deposit sample_block_env = sample_decode_deposit"
  "ze_deposit_enc sample_block_env = (\<lambda>d t. replicate (Suc (unat t)) 0)"
  "ze_crypto sample_block_env = toy_crypto"
  by (simp_all add: sample_block_env_def block_env_def sample_env_def sample_witness_def read_tempo_storage_def
      sample_tempo_def trie_storage_def portal_trie_def hashed_slot_def)

definition sample_imported :: "ledger inbox_ctx" where
  "sample_imported = sample_pre_state\<lparr>zc_l1 := \<lparr>anchor = Some 5, access_set = {}\<rparr>,
     zc_tempo := \<lparr>tempo_block_hash = 2, tempo_block_number = 5\<rparr>, zc_events := [TempoBlockFinalized 2 5 0]\<rparr>"

lemma sample_checkpoints: "finalize_checkpoints sample_block_env [[2, 5]] sample_pre_state = (Inr (), sample_imported)"
  by (simp add: inbox_eval finalize_checkpoints_def scan_header_def decode_exact_def sample_pre_state_def
      sample_imported_def scan_timestamp_millis_def advance_anchor_def write_checkpoint_def saturating_mul_def
      saturating_add_def MAX_TEMPO_HEADERS_PER_ZONE_BLOCK_def)

definition sample_refund :: PendingWithdrawal where
  "sample_refund = from_bounce_back \<lparr>eb_token = 1, eb_amount = 7, eb_tempoRefundRecipient = 13\<rparr>"

lemma sample_advance_run:
  obtains c where "advance_tempo sample_block_env 0 batch_advance sample_pre_state = (Inr (), c)"
    "zc_inbox c = sample_inbox\<lparr>processed_deposit_queue_hash := 1, processed_deposit_number := 1\<rparr>"
    "zc_outbox c = sample_outbox\<lparr>pending_withdrawals := [sample_refund], next_withdrawal_index := 1\<rparr>"
    "zc_tempo c = \<lparr>tempo_block_hash = 2, tempo_block_number = 5\<rparr>"
proof -
  obtain c2 n where c2: "apply_token_enablements sample_block_env [] sample_imported = (Inr n, c2)"
    and f2: "zc_inbox c2 = sample_inbox" "zc_outbox c2 = sample_outbox" "zc_gas c2 = 995800"
      "zc_tempo c2 = \<lparr>tempo_block_hash = 2, tempo_block_number = 5\<rparr>" "anchor (zc_l1 c2) = Some 5"
      "access_set (zc_l1 c2) = {(77, 8), (77, 7)}"
    by (simp add: apply_token_enablements_def read_enablement_commitment_def enable_tokens_def
        next_token_count_def u64_of_usize_def read_portal_vec_len_def inbox_eval sample_imported_def sample_pre_state_def)
  obtain c3 where c3: "process_deposit_queue sample_block_env
      [DecodedDeposit (the (sample_decode_deposit [7, 7]))] [bad_decryption] c2 = (Inr 1, c3)"
    and f3: "zc_inbox c3 = sample_inbox" "zc_tempo c3 = \<lparr>tempo_block_hash = 2, tempo_block_number = 5\<rparr>"
      "zc_outbox c3 = sample_outbox\<lparr>pending_withdrawals := [sample_refund], next_withdrawal_index := 1\<rparr>"
    using f2
    by (simp add: process_deposit_queue_def process_queued_def read_encryption_key_def
        process_deposit_def recover_encrypted_payload_def cp_charge_gas_def CP_VERIFY_GAS_def
        sample_verify fail_deposit_def enqueue_deposit_bounce_back_def enqueue_def sample_refund_def
        deposit_hash_with_tail_def Let_def inbox_eval)
  show thesis
    using c3 c2 f3 that
    by (simp add: advance_tempo_def batch_advance_def sample_checkpoints decode_deposits_def decode_deposit_def
        u64_of_usize_def eseq_def ebind_def checked_add_def sample_inbox_def)
qed

lemma sample_finalize_run:
  assumes "zc_outbox c = sample_outbox\<lparr>pending_withdrawals := [sample_refund], next_withdrawal_index := 1\<rparr>"
  obtains c' where "finalize_withdrawal_batch sample_block_env 0 batch_finalize c = (Inr 1, c')"
    "zc_inbox c' = zc_inbox c" "zc_tempo c' = zc_tempo c"
    "withdrawal_queue_hash (zc_outbox c') = 1" "withdrawal_batch_index (zc_outbox c') = 1"
  using assms
  by (simp add: finalize_withdrawal_batch_def batch_finalize_def sample_refund_def batch_hash_def
      into_withdrawal_def from_bounce_back_def sample_link hash_with_tail_def outbox_eval)

lemma sample_pre_state_reset [simp]:
  "sample_pre_state\<lparr>zc_l1 := \<lparr>anchor = None, access_set = {}\<rparr>, zc_gas := 1000000\<rparr> = sample_pre_state"
  by (simp add: sample_pre_state_def inbox_sample_ctx_def)

lemma system_addresses_distinct [simp]:
  "ZONE_INBOX_ADDRESS \<noteq> ZONE_OUTBOX_ADDRESS" "ZONE_OUTBOX_ADDRESS \<noteq> ZONE_INBOX_ADDRESS"
  "TEMPO_STATE_ADDRESS \<noteq> ZONE_INBOX_ADDRESS" "TEMPO_STATE_ADDRESS \<noteq> ZONE_OUTBOX_ADDRESS"
  "ZONE_OUTBOX_ADDRESS \<noteq> TEMPO_STATE_ADDRESS" "ZONE_INBOX_ADDRESS \<noteq> TEMPO_STATE_ADDRESS"
  by (simp_all add: ZONE_INBOX_ADDRESS_def ZONE_OUTBOX_ADDRESS_def TEMPO_STATE_ADDRESS_def)

lemma sample_executor_created:
  "rp_create_executor sample_replay (9, 50, 0) sample_tempo ctx missing s = \<lparr>sx_ctx = s, sx_env = sample_block_env\<rparr>"
  by (simp add: sample_replay_def sample_block_env_def block_env_def sample_witness_def)

definition sample_final :: "ledger inbox_ctx \<Rightarrow> bool" where
  "sample_final c \<longleftrightarrow>
     zc_inbox c = sample_inbox\<lparr>processed_deposit_queue_hash := 1, processed_deposit_number := 1\<rparr> \<and>
     zc_tempo c = \<lparr>tempo_block_hash = 2, tempo_block_number = 5\<rparr> \<and>
     withdrawal_queue_hash (zc_outbox c) = 1 \<and> withdrawal_batch_index (zc_outbox c) = 1"

lemma sample_transactions_run:
  obtains c where "run_transactions sample_replay 0 1424310007 (hd (bw_zone_blocks sample_witness)) []
      (executor_new \<lparr>sx_ctx = sample_pre_state, sx_env = sample_block_env\<rparr>) =
    (Inr [(ZONE_INBOX_ADDRESS, [1]), (ZONE_OUTBOX_ADDRESS, [3])],
     \<lparr>bx_inner = \<lparr>sx_ctx = c, sx_env = sample_block_env\<rparr>, bx_phase = WithdrawalsFinalized\<rparr>)"
    "sample_final c"
proof -
  obtain c where c: "advance_tempo sample_block_env 0 batch_advance sample_pre_state = (Inr (), c)"
    "zc_inbox c = sample_inbox\<lparr>processed_deposit_queue_hash := 1, processed_deposit_number := 1\<rparr>"
    "zc_outbox c = sample_outbox\<lparr>pending_withdrawals := [sample_refund], next_withdrawal_index := 1\<rparr>"
    "zc_tempo c = \<lparr>tempo_block_hash = 2, tempo_block_number = 5\<rparr>"
    by (rule sample_advance_run)
  obtain c' where c': "finalize_withdrawal_batch sample_block_env 0 batch_finalize
      (c\<lparr>zc_l1 := \<lparr>anchor = None, access_set = {}\<rparr>, zc_gas := 1000000\<rparr>) = (Inr 1, c')"
    "zc_inbox c' = zc_inbox c" "zc_tempo c' = zc_tempo c"
    "withdrawal_queue_hash (zc_outbox c') = 1" "withdrawal_batch_index (zc_outbox c') = 1"
    using sample_finalize_run [of "c\<lparr>zc_l1 := \<lparr>anchor = None, access_set = {}\<rparr>, zc_gas := 1000000\<rparr>"] c(3) by auto
  have calls: "\<lparr>at_header = [2, 5], at_deposits = at_deposits batch_advance, at_decryptions = [bad_decryption],
      at_enabledTokens = []\<rparr> = batch_advance"
    "\<lparr>fb_count = 1, fb_blockNumber = 9, fb_encryptedSenders = [[]]\<rparr> = batch_finalize"
    by (simp_all add: batch_advance_def batch_finalize_def)
  show thesis
    using c c' calls
    by (intro that [of c'])
      (simp_all add: run_transactions_def sample_replay_def sample_witness_def sample_block_inner_def sample_execute_def
        apply_pre_execution_changes_def on_bx_inner_def execute_import_def execute_advance_tempo_def
        execute_recovered_transaction_def execute_user_transactions_def execute_finalize_withdrawal_batch_def
        execute_transaction_without_commit_def validate_transaction_def classify_def calls_selector_def
        starts_with_def commit_transaction_def advance_to_def executor_new_def map_err_def max_def
        less_eq_ZoneBlockPhase_def eseq_def ebind_def emap_err_def ezoom_def sample_final_def Let_def)
qed

definition sample_output :: BatchOutput where
  "sample_output =
     \<lparr>bo_next_zone_height = 9, bo_block_transition = \<lparr>bt_prevBlockHash = 108, bt_nextBlockHash = 109\<rparr>,
      bo_deposit_queue_transition = \<lparr>dt_prevProcessedHash = 0, dt_nextProcessedHash = 1,
        dt_prevDepositNumber = 0, dt_nextDepositNumber = 1\<rparr>,
      bo_token_enablement_transition = \<lparr>tt_prevProcessedTokenCount = 0, tt_nextProcessedTokenCount = 0\<rparr>,
      bo_withdrawal_queue_hash = 1, bo_last_batch_commitment = \<lparr>lc_withdrawal_batch_index = 1\<rparr>\<rparr>"

lemma sample_tries:
  "trie_new portal_trie 0 [[]] = Inr ()"
  "from_zone_state_witness portal_trie (bw_zone_state_witness sample_witness) (th_state_root (bw_parent_header sample_witness)) =
     Inr \<lparr>wd_state = (), wd_accounts = Map.empty, wd_storage = Map.empty, wd_code_by_hash = Map.empty\<rparr>"
  "from_tempo_state_witness portal_trie (sample_env (\<lambda>_. 0)) (bw_tempo_state_witness sample_witness) =
     Inr \<lparr>td_state = Some (), td_tempo_block_hash = 2, td_tempo_block_number = 4, td_node_pool = [[]]\<rparr>"
  "with_imported_checkpoint portal_trie (sample_env (\<lambda>_. 0)) [2, 5]
     \<lparr>td_state = Some (), td_tempo_block_hash = 2, td_tempo_block_number = 4, td_node_pool = [[]]\<rparr> = Inr sample_tempo"
proof -
  show new: "trie_new portal_trie 0 [[]] = Inr ()"
    by (simp add: trie_new_def portal_trie_def index_node_def from_be_bytes_def)
  show "from_zone_state_witness portal_trie (bw_zone_state_witness sample_witness) (th_state_root (bw_parent_header sample_witness)) =
     Inr \<lparr>wd_state = (), wd_accounts = Map.empty, wd_storage = Map.empty, wd_code_by_hash = Map.empty\<rparr>"
    by (simp add: sample_witness_def from_zone_state_witness_def new map_err_def)
  show "from_tempo_state_witness portal_trie (sample_env (\<lambda>_. 0)) (bw_tempo_state_witness sample_witness) =
     Inr \<lparr>td_state = Some (), td_tempo_block_hash = 2, td_tempo_block_number = 4, td_node_pool = [[]]\<rparr>"
    by (simp add: sample_witness_def from_tempo_state_witness_def checkpoint_state_def decode_exact_def sample_defs new)
  show "with_imported_checkpoint portal_trie (sample_env (\<lambda>_. 0)) [2, 5]
     \<lparr>td_state = Some (), td_tempo_block_hash = 2, td_tempo_block_number = 4, td_node_pool = [[]]\<rparr> = Inr sample_tempo"
    by (simp add: with_imported_checkpoint_def checkpoint_state_def decode_exact_def sample_defs new sample_tempo_def)
qed

definition sample_opened :: "(ledger inbox_ctx, unit) replay_state" where
  "sample_opened = \<lparr>rs_header = bw_parent_header sample_witness,
     rs_tempo = \<lparr>td_state = Some (), td_tempo_block_hash = 2, td_tempo_block_number = 4, td_node_pool = [[]]\<rparr>,
     rs_zone = sample_pre_state, rs_missing = None\<rparr>"

lemmas sample_reads = read_inbox_progress_def read_tempo_checkpoint_def read_finalized_batch_def read_zone_u64_def
  read_zone_storage_def sample_replay_def sample_storage_def sample_config_def sample_slots_def
  eseq_def ebind_def emap_err_def

lemma sample_open:
  "open_batch (sample_env (\<lambda>_. 0)) portal_trie sample_replay sample_config sample_witness =
     Inr (\<lparr>ip_hash = 0, ip_number = 0, ip_token_count = 0\<rparr>, sample_opened)"
proof -
  have chain: "zone_chain_id 4217 42431 42431 7 = Inr 1424310007" by code_simp
  have blocks: "bw_zone_blocks sample_witness \<noteq> []"
    and inputs: "pi_parent_chain_id (bw_public_inputs sample_witness) = 42431" "pi_zone_id (bw_public_inputs sample_witness) = 7"
    by (simp_all add: sample_witness_def)
  have inbox: "read_inbox_progress sample_replay (sf_slots sample_config) (rp_open sample_replay db) =
      (Inr \<lparr>ip_hash = 0, ip_number = 0, ip_token_count = 0\<rparr>, sample_pre_state)" for db
    by (simp add: sample_reads sample_pre_state_def inbox_sample_ctx_def sample_inbox_def)
  have tempo: "read_tempo_checkpoint sample_replay (sf_slots sample_config) sample_pre_state = (Inr (4, 2), sample_pre_state)"
    by (simp add: sample_reads sample_pre_state_def)
  show ?thesis
    by (simp add: open_batch_def blocks inputs sample_tries inbox tempo map_err_def td_checkpoint_def sample_opened_def)
      (simp add: sample_config_def chain)
qed

definition sample_header :: ZoneHeader where
  "sample_header = \<lparr>th_parent_hash = 108, th_number = 9, th_state_root = 0, th_timestamp = 50,
     th_timestamp_millis_part = 0, zh_base_fee_per_gas = Some 0, zh_gas_limit = 0\<rparr>"

lemma sample_replayed:
  obtains c where "try_fold (replay_block (sample_env (\<lambda>_. 0)) portal_trie sample_replay (length (bw_zone_blocks sample_witness)))
      (List.enumerate 0 (bw_zone_blocks sample_witness)) sample_opened =
    Inr \<lparr>rs_header = sample_header, rs_tempo = sample_tempo, rs_zone = c, rs_missing = None\<rparr>"
    "sample_final c"
proof -
  let ?b = "hd (bw_zone_blocks sample_witness)"
  obtain c where run: "run_transactions sample_replay 0 1424310007 ?b []
      (executor_new \<lparr>sx_ctx = sample_pre_state, sx_env = sample_block_env\<rparr>) =
    (Inr [(ZONE_INBOX_ADDRESS, [1]), (ZONE_OUTBOX_ADDRESS, [3])],
     \<lparr>bx_inner = \<lparr>sx_ctx = c, sx_env = sample_block_env\<rparr>, bx_phase = WithdrawalsFinalized\<rparr>)"
    and final: "sample_final c" by (rule sample_transactions_run)
  have hdr: "last (headers_rlp (zb_tempo_import ?b)) = [2, 5]"
    by (simp_all add: sample_witness_def)
  have valid: "validate_block sample_replay 1 0 ?b (bw_parent_header sample_witness) = Inr ()"
    by (simp add: validate_block_def sample_replay_def sample_witness_def checked_add_def Let_def
        validate_zone_block_timestamp_def validate_system_inputs_def validate_batch_block_shape_def
        timestamp_millis_def batch_advance_def checked_mul_def MAX_UNPROCESSED_DEPOSITS_def)
  have prep: "prepare_block sample_replay (bw_parent_header sample_witness) 0 ?b sample_pre_state =
      Inr ([], (9, 50, 0), sample_pre_state)"
    by (simp add: prepare_block_def decode_user_transactions_def note_parent_hash_def checked_sub_def
        next_block_env_attributes_def sample_replay_def sample_witness_def)
  have fin: "executor_finish (rp_inner sample_replay)
      \<lparr>bx_inner = \<lparr>sx_ctx = c, sx_env = sample_block_env\<rparr>, bx_phase = WithdrawalsFinalized\<rparr> =
      Inr \<lparr>sx_ctx = c, sx_env = sample_block_env\<rparr>"
    by (simp add: executor_finish_def requested_withdrawal_def processed_deposit_def sample_replay_def
        sample_block_inner_def map_err_def)
  have exec: "execute_zone_block sample_replay sample_tempo (bw_parent_header sample_witness) 0 ?b sample_pre_state None =
      (Inr (\<lparr>ez_transactions = [(ZONE_INBOX_ADDRESS, [1]), (ZONE_OUTBOX_ADDRESS, [3])],
             ez_output = \<lparr>sx_ctx = c, sx_env = sample_block_env\<rparr>, ez_evm_env = (9, 50, 0)\<rparr>, c), None)"
    using run fin by (simp add: execute_zone_block_def prep sample_executor_created) (simp add: sample_replay_def)
  have root: "advance_state_root portal_trie sample_replay c = Inr (0, c)"
    by (simp add: advance_state_root_def sample_replay_def db_state_root_def calculate_state_root_def portal_trie_def)
  have asm: "rp_assemble sample_replay (9, 50, 0) (next_block_execution_context sample_replay ?b)
      (bw_parent_header sample_witness) txs y s 0 = Some sample_header" for txs y s
    by (simp add: sample_replay_def next_block_execution_context_def sample_witness_def sample_header_def)
  have "replay_block (sample_env (\<lambda>_. 0)) portal_trie sample_replay 1 (0, ?b) sample_opened =
      Inr \<lparr>rs_header = sample_header, rs_tempo = sample_tempo, rs_zone = c, rs_missing = None\<rparr>"
    using valid exec by (simp add: replay_block_def sample_opened_def hdr sample_tries root asm map_err_def)
  moreover have "List.enumerate 0 (bw_zone_blocks sample_witness) = [(0, ?b)]" "length (bw_zone_blocks sample_witness) = 1"
    by (simp_all add: sample_witness_def)
  ultimately show thesis using that [OF _ final] by simp
qed

lemma sample_batch_proven:
  "prove_zone_batch (sample_env (\<lambda>_. 0)) portal_trie sample_replay sample_config sample_witness = Inr sample_output"
proof -
  obtain c where run: "try_fold (replay_block (sample_env (\<lambda>_. 0)) portal_trie sample_replay (length (bw_zone_blocks sample_witness)))
      (List.enumerate 0 (bw_zone_blocks sample_witness)) sample_opened =
    Inr \<lparr>rs_header = sample_header, rs_tempo = sample_tempo, rs_zone = c, rs_missing = None\<rparr>"
    and final: "sample_final c" by (rule sample_replayed)
  have inbox: "read_inbox_progress sample_replay (sf_slots sample_config) c =
      (Inr \<lparr>ip_hash = 1, ip_number = 1, ip_token_count = 0\<rparr>, c)"
    using final by (simp add: sample_reads sample_final_def sample_inbox_def)
  have tempo: "read_tempo_checkpoint sample_replay (sf_slots sample_config) c = (Inr (5, 2), c)"
    using final by (simp add: sample_reads sample_final_def)
  have batch: "read_finalized_batch sample_replay (sf_slots sample_config) c = (Inr (1, 1), c)"
    using final by (simp add: sample_reads sample_final_def)
  have anchor: "validate_tempo_anchor (sample_env (\<lambda>_. 0)) 5 2 (bw_public_inputs sample_witness)
      (bw_tempo_ancestry_headers sample_witness) = Inr ()"
    by (simp add: validate_tempo_anchor_def ancestry_step_def sample_witness_def decode_exact_def sample_defs
        checked_add_def Let_def)
  have "fst (commit_batch (sample_env (\<lambda>_. 0)) sample_replay sample_config sample_witness
      \<lparr>ip_hash = 0, ip_number = 0, ip_token_count = 0\<rparr> sample_header c) = Inr sample_output"
    using anchor
    by (simp add: commit_batch_def inbox tempo batch eseq_def ebind_def Let_def)
      (simp add: sample_witness_def sample_output_def sample_replay_def sample_header_def ebind_def)
  then show ?thesis using run by (simp add: prove_zone_batch_def sample_open)
qed

lemma sample_executed:
  assumes "executed sample_replay ((callee, data), 0) x r x'" and "rp_is_success sample_replay r"
  shows "runs_call (\<lambda>x. ctx_view (sx_ctx x)) sx_env
      (\<lambda>e c c'. if callee = ZONE_INBOX_ADDRESS \<and> data = [1] then runs_advance_tempo e 0 batch_advance c c'
                else callee = ZONE_OUTBOX_ADDRESS \<and> data = [3] \<and> runs_finalize e 0 batch_finalize c c') x x'"
proof -
  let ?c = "sx_ctx x\<lparr>zc_l1 := \<lparr>anchor = None, access_set = {}\<rparr>, zc_gas := 1000000\<rparr>"
  obtain x1 where ex: "sample_execute ((callee, data), 0) x = (Inr r, x1)"
    and x': "x' = (case r of Some c \<Rightarrow> x1\<lparr>sx_ctx := c\<rparr> | None \<Rightarrow> x1)" and "r \<noteq> None"
    using assms by (auto simp: executed_def sample_replay_def sample_block_inner_def)
  then have "x1 = x" and "\<exists>c. r = Some c"
    and run: "\<And>c. r = Some c \<Longrightarrow> (if callee = ZONE_INBOX_ADDRESS \<and> data = [1] then runs_advance_tempo (sx_env x) 0 batch_advance ?c c
       else callee = ZONE_OUTBOX_ADDRESS \<and> data = [3] \<and> runs_finalize (sx_env x) 0 batch_finalize ?c c)"
    by (auto simp: sample_execute_def Let_def runs_advance_tempo_def runs_finalize_def
        split: if_splits prod.splits sum.splits)
  then obtain c where "r = Some c" "x' = x\<lparr>sx_ctx := c\<rparr>" using x' by auto
  then show ?thesis using run [of c] unfolding runs_call_def
    by (intro conjI exI [of _ ?c] exI [of _ c]) (simp_all add: ctx_view_def)
qed

lemma runs_call_mono:
  "runs_call xview xenv p x x' \<Longrightarrow> (\<And>e c c'. p e c c' \<Longrightarrow> q e c c') \<Longrightarrow> runs_call xview xenv q x x'"
  unfolding runs_call_def by blast

lemma sample_system_laws:
  "system_law sample_replay (\<lambda>x. ctx_view (sx_ctx x)) sx_env ZONE_INBOX_ADDRESS
     (rp_encode_advance_tempo sample_replay) runs_advance_tempo"
  "system_law sample_replay (\<lambda>x. ctx_view (sx_ctx x)) sx_env ZONE_INBOX_ADDRESS
     (rp_encode_advance_tempo_headers sample_replay) runs_advance_tempo_headers"
  "system_law sample_replay (\<lambda>x. ctx_view (sx_ctx x)) sx_env ZONE_OUTBOX_ADDRESS
     (rp_encode_finalize sample_replay) runs_finalize"
proof -
  have sys: "rp_system_transaction sample_replay chain callee data = (callee, data)" "rp_system_tx_sender sample_replay = 0"
    for chain callee data by (simp_all add: sample_replay_def)
  have enc: "rp_encode_advance_tempo sample_replay at = (if at = batch_advance then [1] else [9])"
    "rp_encode_advance_tempo_headers sample_replay hs = [8]"
    "rp_encode_finalize sample_replay fb = (if fb = batch_finalize then [3] else [9])" for at hs fb
    by (simp_all add: sample_replay_def)
  show "system_law sample_replay (\<lambda>x. ctx_view (sx_ctx x)) sx_env ZONE_INBOX_ADDRESS
      (rp_encode_advance_tempo sample_replay) runs_advance_tempo"
    unfolding system_law_def sys enc
    by (auto dest!: sample_executed elim!: runs_call_mono split: if_splits)
  show "system_law sample_replay (\<lambda>x. ctx_view (sx_ctx x)) sx_env ZONE_INBOX_ADDRESS
      (rp_encode_advance_tempo_headers sample_replay) runs_advance_tempo_headers"
    unfolding system_law_def sys enc
    by (auto dest!: sample_executed elim!: runs_call_mono split: if_splits)
  show "system_law sample_replay (\<lambda>x. ctx_view (sx_ctx x)) sx_env ZONE_OUTBOX_ADDRESS
      (rp_encode_finalize sample_replay) runs_finalize"
    unfolding system_law_def sys enc
    by (auto dest!: sample_executed elim!: runs_call_mono split: if_splits)
qed

lemma sample_laws:
  "executor_laws (sample_env (\<lambda>_. 0)) portal_trie sample_replay ctx_view (\<lambda>x. ctx_view (sx_ctx x)) sx_env"
  "state_laws portal_trie sample_replay (sf_slots sample_config) ctx_view"
  "assembler_law sample_replay"
proof -
  have "frame_laws (sample_env (\<lambda>_. 0)) portal_trie sample_replay ctx_view (\<lambda>x. ctx_view (sx_ctx x)) sx_env"
    unfolding frame_laws_def
    by (auto simp: sample_replay_def sample_block_inner_def block_env_def next_block_env_attributes_def
        intro!: exI [of _ True])
  moreover have "user_law sample_replay (\<lambda>x. ctx_view (sx_ctx x)) sx_env"
    by (simp add: user_law_def sample_replay_def)
  ultimately show "executor_laws (sample_env (\<lambda>_. 0)) portal_trie sample_replay ctx_view (\<lambda>x. ctx_view (sx_ctx x)) sx_env"
    using sample_system_laws by (simp add: executor_laws_def)
  show "state_laws portal_trie sample_replay (sf_slots sample_config) ctx_view"
    by (auto simp: state_laws_def sample_replay_def sample_storage_def slot_value_def sample_config_def
        sample_slots_def ctx_view_def)
  show "assembler_law sample_replay"
    by (auto simp: assembler_law_def sample_replay_def next_block_env_attributes_def)
qed

theorem proven_batch_extends_chain_witness:
  "\<exists>hs. zone_chain sample_replay (bw_parent_header sample_witness) (bw_zone_blocks sample_witness) hs \<and> hs \<noteq> [] \<and>
     th_number (last hs) = 9 \<and> rp_hash sample_replay (last hs) = 109"
  using proven_batch_extends_chain [OF sample_laws sample_batch_proven] by (auto simp: sample_output_def)

theorem proven_batch_reaches_anchor_witness:
  "headers_linked (sample_env (\<lambda>_. 0)) 2 4 [[2, 5], [2, 6]] \<and>
   unat (pi_anchor_block_number (bw_public_inputs sample_witness)) = 6"
  using proven_batch_reaches_anchor [OF sample_laws sample_batch_proven sample_tries(2) refl refl]
  by (simp add: sample_witness_def sample_replay_def ctx_view_def sample_pre_state_def)



end
