(* ===== verification/Spec2Isabelle.thy ===== *)
theory Spec2Isabelle
  imports Chain_Ids Withdrawal_Chain Zone_Inbox Checker_Evidence Deposit_Queue L1_Import L1_Tracker Leadership Node_Engine Block_Executor Spf_Batch
begin

text \<open>
  Verification of Tempo Zones: private chains whose tokens are escrowed on Tempo (L1). A zone imports
  Tempo headers, mints what users deposited in its portal contract, burns what they withdraw, and settles
  in batches that a stateless proof function re-executes. A sequencer set produces blocks under a leader
  schedule, followers check them, and an independent checker keeps a ledger of every liability.

  \<^bold>\<open>Conventions.\<close> \<open>Zone_Prelude\<close> has the integer widths, results \<open>'e + 'a\<close> with \<open>rbind\<close>, \<open>check\<close>, \<open>ok_or\<close>
  and \<open>try_fold\<close> for the \<open>?\<close> operator, and Rust's checked and saturating arithmetic. \<open>Zone_Effects\<close> has
  computations that return a result and the context they leave, on the error paths too. \<open>BTree_Map\<close> has the
  ordered maps as sorted association lists behind the locale \<open>ordered_map\<close>. \<open>Hash_Chain\<close> has the locales
  \<open>hash_chain\<close> and \<open>append_chain\<close> for commitments to sequences, \<open>Op_System\<close> the locales \<open>op_system\<close> and
  \<open>progress_system\<close> for components driven by sequences of calls. Upstream code (hash functions, curves, ABI
  and RLP codecs, tokens, REVM, the sparse trie, the engine API, clocks) is a record of parameters; what is
  relied on of it is a named law, and every theorem that assumes a law has a witness with a concrete instance.

  \<^bold>\<open>Bridge precompiles\<close> (\<open>crates/precompiles\<close>, \<open>crates/contracts/src/precompiles\<close>).
  \<^item> \<open>Ecies\<close>: deposit and withdrawal encryption and Chaum-Pedersen proofs (\<open>ecies.rs\<close>, \<open>chaum_pedersen.rs\<close>,
    \<open>aes_gcm.rs\<close>); round trips, and a proof the sequencer computes verifies.
  \<^item> \<open>Withdrawal_Chain\<close>: withdrawals, their queue hash and its binding, and the sequencer's recovery of
    unprocessed withdrawals (\<open>zone_portal.rs\<close>, \<open>sequencer/src/settlement.rs\<close>).
  \<^item> \<open>Zone_Context\<close>, \<open>L1_State\<close>: errors, events, the execution context and anchored reads of L1 storage
    (\<open>error.rs\<close>, \<open>storage.rs\<close>); all reads of a transaction use one anchor.
  \<^item> \<open>Tempo_State\<close>: the checkpoint and its advance along a linked header chain (\<open>tempo_state.rs\<close>).
  \<^item> \<open>Zone_Outbox\<close>, \<open>Zone_Inbox\<close>: every state-changing call (\<open>outbox/mod.rs\<close>, \<open>inbox/mod.rs\<close>). Value is
    conserved by a tempo advance and by a withdrawal request; an advance consumes exactly the portal's
    queue; a finalized batch commits exactly the pending withdrawals; fallback recipients are used once.
  \<^item> \<open>Sample_Env\<close>: a concrete environment for the witnesses.

  \<^bold>\<open>Block production\<close> (\<open>crates/l1\<close>, \<open>crates/node\<close>, \<open>crates/p2p\<close>, \<open>crates/evm\<close>).
  \<^item> \<open>Portal_Events\<close>, \<open>Deposit_Queue\<close>: portal logs of an L1 block and the queue of finalized blocks with
    deferred portal work (\<open>event.rs\<close>, \<open>deposit.rs\<close>, \<open>queue.rs\<close>); portal work is delivered exactly once.
  \<^item> \<open>L1_Import\<close>: the key ring, the preparation of \<open>advanceTempo\<close> inputs and a follower's checks of a block
    (\<open>encryption_keys.rs\<close>, \<open>block.rs\<close>, \<open>node/src/follower.rs\<close>); an accepted import follows the observed L1.
  \<^item> \<open>L1_Tracker\<close>: the window of finalized observations (\<open>subscriber.rs\<close>).
  \<^item> \<open>Leadership\<close>: the leadership schedule with pruning and forced recovery (\<open>p2p/src/manifest.rs\<close>); it refines
    the whole published history.
  \<^item> \<open>Node_Engine\<close>: permits, import decisions, \<open>advance\<close> and the drain loop (\<open>node/src/engine.rs\<close>); failures
    leave work queued, one leader per anchor, the drain ends and makes progress.
  \<^item> \<open>Block_Executor\<close>: the phases of a zone block around the upstream executor (\<open>evm/src/executor.rs\<close>).

  \<^bold>\<open>Settlement proof\<close> (\<open>crates/spf\<close>).
  \<^item> \<open>Spf_Witness\<close>: the stateless trie and the two witness databases (\<open>mpt.rs\<close>, \<open>execution/database.rs\<close>); reads
    refine the witnessed storage overridden by the blocks committed so far.
  \<^item> \<open>Spf_Execution\<close>: the replay of one block (\<open>types.rs\<close>, \<open>execution/evm.rs\<close>).
  \<^item> \<open>Spf\<close>, \<open>Spf_Batch\<close>: \<open>prove_zone_batch\<close> (\<open>lib.rs\<close>). Through the laws that relate the EVM to the models of the
    precompiles, an accepted batch extends the zone chain, is anchored in the public Tempo block, consumes
    exactly the imported deposits up to the portal's queue hash, and commits exactly one withdrawal batch.

  \<^bold>\<open>Checker\<close> (\<open>crates/checker\<close>).
  \<^item> \<open>Accounting\<close>: the ledger with its undo log and validation (\<open>accounting/mod.rs\<close>); the row transition refines
    the abstract ledger.
  \<^item> \<open>L1_Evidence\<close>, \<open>Checker_Evidence\<close>: evidence of Tempo and zone blocks and its effects (\<open>l1\<close>, \<open>l2\<close>,
    \<open>accounting/effects.rs\<close>); a zone block that passes creates no liability, Tempo events move exactly what the
    ledger records.

  \<open>Chain_Ids\<close> has the derivation and decoding of zone chain ids (\<open>primitives/src/constants.rs\<close>).

  \<^bold>\<open>Bounds and fuel.\<close> Loops are structural recursion or \<open>function\<close> with a measure, so no result depends on fuel.
  The engine's drain loop may run forever while L1 blocks keep arriving: it is a \<open>partial_function\<close> whose value is
  \<open>None\<close> when it does not return, and that it returns is a theorem. Machine integers keep their width.

  \<^bold>\<open>Not modelled.\<close> Asynchronous I/O (RPC, peer-to-peer sessions, files, the enclave transport), node assembly,
  the payload builder, metrics and operator tools: their behaviour is that of upstream libraries. The
  wrappers of upstream precompiles and the fee manager: they filter calls to code outside the repository.
  The RPC server: it redacts node data and does not change state. Gas, beyond the charges the zone's own
  precompiles make.
\<close>

end
